theory Spec2Isabelle
  imports Complex_Main "HOL-Library.Multiset" "HOL-Library.AList" "HOL-Library.Log_Nat"
begin

section \<open>Strings\<close>

text \<open>
  A string is a list of code units; the model covers the code units below 256 and reads
  them as Latin-1. \<open>toLowerCase\<close> maps the upper-case letters (A-Z and the accented
  capitals 0xC0-0xDE, the multiplication sign 0xD7 apart) to their lower-case partners,
  \<open>trim\<close> strips the white space and line terminators of that range from both ends.
\<close>

definition toLowerChar :: "char \<Rightarrow> char" where
  "toLowerChar c =
     (let n = (of_char c :: nat)
      in if (65 \<le> n \<and> n \<le> 90) \<or> (192 \<le> n \<and> n \<le> 222 \<and> n \<noteq> 215)
         then char_of (n + 32) else c)"

definition toLowerCase :: "string \<Rightarrow> string" where
  "toLowerCase s = map toLowerChar s"

definition isWhiteSpace :: "char \<Rightarrow> bool" where
  "isWhiteSpace c = ((of_char c :: nat) \<in> {9, 10, 11, 12, 13, 32, 160})"

definition trim :: "string \<Rightarrow> string" where
  "trim s = rev (dropWhile isWhiteSpace (rev (dropWhile isWhiteSpace s)))"

section \<open>Similarity scorer (resolver.ts)\<close>

subsection \<open>levenshteinDistance\<close>

text \<open>
  The source fills a matrix with one row per prefix of \<open>b\<close> and one column per prefix of
  \<open>a\<close>. Row 0 is \<open>[0, 1, .., length a]\<close>; row \<open>i\<close> starts with \<open>i\<close> and every further
  cell is computed from the cell to its left and from the two cells above it.
  \<open>fillRow bc as (diag # up # _) left\<close> computes the cells of one row from column
  \<open>j\<close> on: \<open>bc\<close> is \<open>b.charAt(i - 1)\<close>, \<open>as\<close> is \<open>a\<close> from \<open>a.charAt(j - 1)\<close> on,
  \<open>diag\<close> is \<open>matrix[i - 1][j - 1]\<close>, \<open>up\<close> is \<open>matrix[i - 1][j]\<close> and \<open>left\<close> is
  \<open>matrix[i][j - 1]\<close>. \<open>fillMatrix\<close> runs the outer loop and keeps the last row; the
  result is the last cell of the last row, \<open>matrix[b.length][a.length]\<close>.
\<close>

fun fillRow :: "'a \<Rightarrow> 'a list \<Rightarrow> nat list \<Rightarrow> nat \<Rightarrow> nat list" where
  "fillRow bc (ac # as) (diag # up # prev) left =
     (let v = (if bc = ac then diag else min (diag + 1) (min (left + 1) (up + 1)))
      in v # fillRow bc as (up # prev) v)"
| "fillRow bc _ _ _ = []"

fun fillMatrix :: "'a list \<Rightarrow> 'a list \<Rightarrow> nat \<Rightarrow> nat list \<Rightarrow> nat list" where
  "fillMatrix a [] i prev = prev"
| "fillMatrix a (bc # bs) i prev = fillMatrix a bs (Suc i) (i # fillRow bc a prev i)"

definition levenshteinDistance :: "'a list \<Rightarrow> 'a list \<Rightarrow> nat" where
  "levenshteinDistance a b = last (fillMatrix a b 1 [0..<Suc (length a)])"

text \<open>
  The Levenshtein edit distance as the textbooks define it, by recursion on the heads of
  the two strings. This is the distance the specification names; the matrix of the source
  is compared with it below.
\<close>

fun editDistance :: "'a list \<Rightarrow> 'a list \<Rightarrow> nat" where
  "editDistance [] ys = length ys"
| "editDistance xs [] = length xs"
| "editDistance (x # xs) (y # ys) =
     (if x = y then editDistance xs ys
      else 1 + min (editDistance xs ys) (min (editDistance xs (y # ys)) (editDistance (x # xs) ys)))"

subsection \<open>similarityScore\<close>

text \<open>
  A score is a JavaScript number: a double, or \<open>NaN\<close> (\<open>0 / 0\<close> is \<open>NaN\<close>, and so is
  \<open>1 - NaN\<close>). A double is kept as the rational number it is, and every operation of the
  source rounds its exact result to the nearest double, ties to the even significand:
  \<open>roundDouble x\<close> scales \<open>\<bar>x\<bar>\<close> by a power of two into \<open>[2^52, 2^53)\<close>, rounds to an
  integer and scales back. The exponent range is not modelled: the operands of the source
  are lengths, distances and scores between 0 and 1, whose results lie far inside it.
\<close>

datatype jsnum = NaN | Num rat

definition pow2 :: "int \<Rightarrow> rat" where
  "pow2 e = (if 0 \<le> e then 2 ^ nat e else 1 / 2 ^ nat (- e))"

text \<open>
  \<open>floorLog2 x\<close> for \<open>x > 0\<close>: with \<open>x = p / q\<close> in lowest terms, the logarithm lies
  within one of the difference \<open>k\<close> of the bit lengths of \<open>p\<close> and \<open>q\<close>.
\<close>

definition floorLog2 :: "rat \<Rightarrow> int" where
  "floorLog2 x =
     (let (p, q) = quotient_of x;
          k = bitlen p - bitlen q
      in if pow2 k \<le> x then k else k - 1)"

definition roundHalfEven :: "rat \<Rightarrow> int" where
  "roundHalfEven s =
     (let f = \<lfloor>s\<rfloor>;
          r = s - of_int f
      in if r < 1 / 2 then f
         else if 1 / 2 < r then f + 1
         else if even f then f else f + 1)"

definition roundDouble :: "rat \<Rightarrow> rat" where
  "roundDouble x =
     (if x = 0 then 0
      else
        let a = \<bar>x\<bar>;
            e = floorLog2 a - 52;
            m = roundHalfEven (a / pow2 e)
        in sgn x * of_int m * pow2 e)"

definition similarityScore :: "string \<Rightarrow> string \<Rightarrow> jsnum" where
  "similarityScore a b =
     (let distance = levenshteinDistance (toLowerCase a) (toLowerCase b);
          maxLength = max (length a) (length b)
      in if maxLength = 0 then NaN
         else Num (roundDouble (1 - roundDouble (rat_of_nat distance / rat_of_nat maxLength))))"


subsection \<open>fuzzyMatch\<close>

text \<open>
  \<open>scores\<close> is the array of \<open>{candidate, score}\<close> objects, here pairs. The source sorts it
  with the comparator \<open>(a, b) => b.score - a.score\<close>. \<open>Array.prototype.sort\<close> is stable
  and reads a \<open>NaN\<close> result of the comparator as \<open>0\<close>; \<open>comesBefore x y\<close> says that the
  comparator does not put \<open>y\<close> before \<open>x\<close>, and \<open>sortScores\<close> is the stable insertion sort
  for it: descending scores, listing order among equal scores. The difference of two
  doubles rounds to a number of the same sign, so the comparator is decided on the exact
  difference. (When some but not all scores are \<open>NaN\<close> the comparator is not consistent and
  the language leaves the order to the implementation; the model then keeps what insertion
  gives.)
\<close>

record FuzzyMatch =
  match :: string
  score :: jsnum

definition comesBefore :: "string \<times> jsnum \<Rightarrow> string \<times> jsnum \<Rightarrow> bool" where
  "comesBefore x y = (case (snd x, snd y) of (Num sx, Num sy) \<Rightarrow> sy - sx \<le> 0 | _ \<Rightarrow> True)"

fun insertScore :: "string \<times> jsnum \<Rightarrow> (string \<times> jsnum) list \<Rightarrow> (string \<times> jsnum) list" where
  "insertScore x [] = [x]"
| "insertScore x (y # ys) = (if comesBefore x y then x # y # ys else y # insertScore x ys)"

definition sortScores :: "(string \<times> jsnum) list \<Rightarrow> (string \<times> jsnum) list" where
  "sortScores xs = foldr insertScore xs []"

text \<open>
  \<open>Math.abs(x - y) < bound\<close>, \<open>x < bound\<close> and \<open>x >= bound\<close>; each is false on \<open>NaN\<close>.
  \<open>bound\<close> is the decimal literal of the source (0.05, 0.8, 0.9), which denotes the double
  nearest to it; the subtraction rounds, \<open>Math.abs\<close> and the comparisons are exact.
\<close>

definition absDiffLess :: "jsnum \<Rightarrow> jsnum \<Rightarrow> rat \<Rightarrow> bool" where
  "absDiffLess x y bound =
     (case (x, y) of
        (Num a, Num b) \<Rightarrow> \<bar>roundDouble (a - b)\<bar> < roundDouble bound
      | _ \<Rightarrow> False)"

definition numLess :: "jsnum \<Rightarrow> rat \<Rightarrow> bool" where
  "numLess x bound = (case x of Num a \<Rightarrow> a < roundDouble bound | NaN \<Rightarrow> False)"

definition numGreaterEq :: "jsnum \<Rightarrow> rat \<Rightarrow> bool" where
  "numGreaterEq x bound = (case x of Num a \<Rightarrow> roundDouble bound \<le> a | NaN \<Rightarrow> False)"

definition fuzzyMatch :: "string \<Rightarrow> string list \<Rightarrow> FuzzyMatch option" where
  "fuzzyMatch input candidates =
     (if length candidates = 0 then None
      else
        let normalizedInput = trim (toLowerCase input);
            scores = map (\<lambda>candidate.
                       (candidate, similarityScore normalizedInput (trim (toLowerCase candidate))))
                     candidates
        in case sortScores scores of
             [] \<Rightarrow> None
           | [best] \<Rightarrow> Some \<lparr>match = fst best, score = snd best\<rparr>
           | best # secondBest # _ \<Rightarrow>
               if absDiffLess (snd best) (snd secondBest) (5 / 100) then None
               else Some \<lparr>match = fst best, score = snd best\<rparr>)"

section \<open>TTL cache (cache.ts)\<close>

text \<open>
  A JavaScript \<open>Map\<close> is an association list in insertion order: \<open>map_of\<close> is \<open>get\<close>,
  \<open>AList.update\<close> is \<open>set\<close> (an existing key keeps its place, a new key goes to the end)
  and \<open>AList.delete\<close> is \<open>delete\<close>. \<open>Date.now()\<close> is the argument \<open>now\<close>, in milliseconds.
  Every method returns the cache it leaves behind.
\<close>

record CacheEntry =
  entryValue :: string
  timestamp :: int

record TrelloCache =
  boardNameToId :: "(string \<times> CacheEntry) list"
  listsByBoard :: "(string \<times> (string \<times> CacheEntry) list) list"
  ttlMs :: rat

definition newTrelloCache :: "rat \<Rightarrow> TrelloCache" where
  "newTrelloCache ttlMinutes =
     \<lparr>boardNameToId = [], listsByBoard = [], ttlMs = ttlMinutes * 60 * 1000\<rparr>"

definition isValid :: "TrelloCache \<Rightarrow> int \<Rightarrow> CacheEntry option \<Rightarrow> bool" where
  "isValid cache now entry =
     (case entry of
        None \<Rightarrow> False
      | Some e \<Rightarrow> (let age = now - timestamp e in rat_of_int age < ttlMs cache))"

definition getBoardId :: "TrelloCache \<Rightarrow> int \<Rightarrow> string \<Rightarrow> string option \<times> TrelloCache" where
  "getBoardId cache now boardName =
     (let normalizedName = trim (toLowerCase boardName);
          entry = map_of (boardNameToId cache) normalizedName
      in case entry of
           None \<Rightarrow> (None, cache)
         | Some e \<Rightarrow>
             if isValid cache now entry then (Some (entryValue e), cache)
             else (None, cache\<lparr>boardNameToId := AList.delete normalizedName (boardNameToId cache)\<rparr>))"

definition setBoardId :: "TrelloCache \<Rightarrow> int \<Rightarrow> string \<Rightarrow> string \<Rightarrow> TrelloCache" where
  "setBoardId cache now boardName boardId =
     (let normalizedName = trim (toLowerCase boardName)
      in cache\<lparr>boardNameToId :=
           AList.update normalizedName \<lparr>entryValue = boardId, timestamp = now\<rparr>
             (boardNameToId cache)\<rparr>)"

definition getListId :: "TrelloCache \<Rightarrow> int \<Rightarrow> string \<Rightarrow> string \<Rightarrow> string option \<times> TrelloCache" where
  "getListId cache now boardId listName =
     (let normalizedName = trim (toLowerCase listName)
      in case map_of (listsByBoard cache) boardId of
           None \<Rightarrow> (None, cache)
         | Some boardLists \<Rightarrow>
             (let entry = map_of boardLists normalizedName
              in case entry of
                   None \<Rightarrow> (None, cache)
                 | Some e \<Rightarrow>
                     if isValid cache now entry then (Some (entryValue e), cache)
                     else (None, cache\<lparr>listsByBoard :=
                             AList.update boardId (AList.delete normalizedName boardLists)
                               (listsByBoard cache)\<rparr>)))"

definition setListId :: "TrelloCache \<Rightarrow> int \<Rightarrow> string \<Rightarrow> string \<Rightarrow> string \<Rightarrow> TrelloCache" where
  "setListId cache now boardId listName listId =
     (let normalizedName = trim (toLowerCase listName);
          boardLists = (case map_of (listsByBoard cache) boardId of
                          None \<Rightarrow> []
                        | Some m \<Rightarrow> m)
      in cache\<lparr>listsByBoard :=
           AList.update boardId
             (AList.update normalizedName \<lparr>entryValue = listId, timestamp = now\<rparr> boardLists)
             (listsByBoard cache)\<rparr>)"

definition invalidateBoard :: "TrelloCache \<Rightarrow> string \<Rightarrow> TrelloCache" where
  "invalidateBoard cache boardId =
     (let lists' = AList.delete boardId (listsByBoard cache)
      in case find (\<lambda>(name, entry). entryValue entry = boardId) (boardNameToId cache) of
           None \<Rightarrow> cache\<lparr>listsByBoard := lists'\<rparr>
         | Some (name, entry) \<Rightarrow>
             cache\<lparr>listsByBoard := lists',
                   boardNameToId := AList.delete name (boardNameToId cache)\<rparr>)"

definition clear :: "TrelloCache \<Rightarrow> TrelloCache" where
  "clear cache = cache\<lparr>boardNameToId := [], listsByBoard := []\<rparr>"

definition getStats :: "TrelloCache \<Rightarrow> nat \<times> nat" where
  "getStats cache =
     (length (boardNameToId cache),
      foldl (\<lambda>totalLists (boardId, boardLists). totalLists + length boardLists) 0
        (listsByBoard cache))"


section \<open>Name resolver (resolver.ts)\<close>

text \<open>
  An entry of an upstream listing is an object with a string \<open>id\<close> and a string \<open>name\<close>.
  A fetch gives a response that is not \<open>ok\<close> (with its status text), a body that is not
  an array, or an array of entries. The entries of the fallback card listing may lack a
  name, as the source provides for with \<open>card.name?.\<close>.
\<close>

record named =
  ident :: string
  name :: string

record listedCard =
  cardIdent :: string
  cardName :: "string option"

datatype 'a response = Failure string | NonArray | Listing "'a list"

text \<open>The search endpoint answers with an object; \<open>None\<close> stands for one without \<open>cards\<close>.\<close>

datatype searchResponse = SearchFailure string | SearchResult "named list option"

text \<open>
  The errors the resolver throws, named after the taxonomy of the specification, with the
  data their messages carry: the requested name is part of every message and is left out,
  the candidate names a message lists are kept. \<open>TypeError\<close> is what the runtime throws when
  a property of \<open>null\<close> or \<open>undefined\<close> is read, or a non-iterable is iterated;
  \<open>NonStringKey\<close> marks a property key that is not a string, whose coercion by the
  runtime is outside the model.
\<close>

datatype error =
    AccessDenied
  | UpstreamError string
  | NotFoundEmpty
  | AmbiguousName "string list"
  | NoConfidentMatch "string list"
  | CardSearchFailed string
  | CardFallbackFailed string
  | CardNotFoundIncludingFallback
  | CardNotFoundAfterFallback
  | TypeError
  | NonStringKey

record resolved =
  resolvedId :: string
  exactMatch :: bool

text \<open>
  \<open>allowedBoards\<close> is the value of \<open>getAllowedBoards()\<close>: \<open>None\<close> for \<open>null\<close> (no
  allow-list configured), otherwise the trimmed, lower-cased entries of the variable.
\<close>

definition ensureBoardAllowed :: "string list option \<Rightarrow> string \<Rightarrow> error + unit" where
  "ensureBoardAllowed allowedBoards boardName =
     (case allowedBoards of
        None \<Rightarrow> Inr ()
      | Some boards \<Rightarrow>
          (let normalizedName = toLowerCase (trim boardName)
           in if normalizedName \<in> set boards then Inr () else Inl AccessDenied))"

text \<open>
  The block \<open>if (cache) { const cachedId = cache.getBoardId(boardName); if (cachedId) .. }\<close>:
  the cached id when there is a cache and it returns a non-empty string (\<open>null\<close> and the
  empty string are falsy), together with the cache after the read.
\<close>

definition checkBoardCache ::
  "TrelloCache option \<Rightarrow> int \<Rightarrow> string \<Rightarrow> string option \<times> TrelloCache option" where
  "checkBoardCache cache now boardName =
     (case cache of
        None \<Rightarrow> (None, None)
      | Some c \<Rightarrow>
          (case getBoardId c now boardName of
             (Some cachedId, c') \<Rightarrow> (if cachedId \<noteq> [] then Some cachedId else None, Some c')
           | (None, c') \<Rightarrow> (None, Some c')))"

definition checkListCache ::
  "TrelloCache option \<Rightarrow> int \<Rightarrow> string \<Rightarrow> string \<Rightarrow> string option \<times> TrelloCache option" where
  "checkListCache cache now boardId listName =
     (case cache of
        None \<Rightarrow> (None, None)
      | Some c \<Rightarrow>
          (case getListId c now boardId listName of
             (Some cachedId, c') \<Rightarrow> (if cachedId \<noteq> [] then Some cachedId else None, Some c')
           | (None, c') \<Rightarrow> (None, Some c')))"

text \<open>
  \<open>resolveBoardId\<close>. \<open>response\<close> is what the fetch of the board listing returns, \<open>now\<close> the
  clock when the cache is read and \<open>later\<close> the clock when it is written, after the fetch.
  The result comes with the cache as the call leaves it.
\<close>

definition resolveBoardId ::
  "string list option \<Rightarrow> string \<Rightarrow> named response \<Rightarrow> TrelloCache option \<Rightarrow> int \<Rightarrow> int
     \<Rightarrow> (error + resolved) \<times> TrelloCache option" where
  "resolveBoardId allowedBoards boardName response cache now later =
     (case ensureBoardAllowed allowedBoards boardName of
        Inl e \<Rightarrow> (Inl e, cache)
      | Inr _ \<Rightarrow>
     (case checkBoardCache cache now boardName of
        (Some cachedId, cache1) \<Rightarrow> (Inr \<lparr>resolvedId = cachedId, exactMatch = True\<rparr>, cache1)
      | (None, cache1) \<Rightarrow>
     (case response of
        Failure statusText \<Rightarrow> (Inl (UpstreamError statusText), cache1)
      | NonArray \<Rightarrow> (Inl NotFoundEmpty, cache1)
      | Listing boards \<Rightarrow>
          if length boards = 0 then (Inl NotFoundEmpty, cache1)
          else
            let normalizedInput = trim (toLowerCase boardName)
            in case find (\<lambda>board. trim (toLowerCase (name board)) = normalizedInput) boards of
                 Some board \<Rightarrow>
                   (Inr \<lparr>resolvedId = ident board, exactMatch = True\<rparr>,
                    map_option (\<lambda>c. setBoardId c later boardName (ident board)) cache1)
               | None \<Rightarrow>
                   let boardNames = map name boards
                   in case fuzzyMatch boardName boardNames of
                        None \<Rightarrow> (Inl (AmbiguousName (take 10 boardNames)), cache1)
                      | Some m \<Rightarrow>
                          if numLess (score m) (8 / 10)
                          then (Inl (NoConfidentMatch (take 5 boardNames)), cache1)
                          else
                            case find (\<lambda>b. name b = match m) boards of
                              None \<Rightarrow> (Inl TypeError, cache1)
                            | Some matchedBoard \<Rightarrow>
                                (Inr \<lparr>resolvedId = ident matchedBoard, exactMatch = False\<rparr>,
                                 map_option (\<lambda>c. setBoardId c later boardName (ident matchedBoard))
                                   cache1))))"

text \<open>\<open>resolveListId\<close>; both of its messages list every name of the listing.\<close>

definition resolveListId ::
  "string \<Rightarrow> string \<Rightarrow> named response \<Rightarrow> TrelloCache option \<Rightarrow> int \<Rightarrow> int
     \<Rightarrow> (error + resolved) \<times> TrelloCache option" where
  "resolveListId boardId listName response cache now later =
     (case checkListCache cache now boardId listName of
        (Some cachedId, cache1) \<Rightarrow> (Inr \<lparr>resolvedId = cachedId, exactMatch = True\<rparr>, cache1)
      | (None, cache1) \<Rightarrow>
     (case response of
        Failure statusText \<Rightarrow> (Inl (UpstreamError statusText), cache1)
      | NonArray \<Rightarrow> (Inl NotFoundEmpty, cache1)
      | Listing lists' \<Rightarrow>
          if length lists' = 0 then (Inl NotFoundEmpty, cache1)
          else
            let normalizedInput = trim (toLowerCase listName)
            in case find (\<lambda>list'. trim (toLowerCase (name list')) = normalizedInput) lists' of
                 Some list' \<Rightarrow>
                   (Inr \<lparr>resolvedId = ident list', exactMatch = True\<rparr>,
                    map_option (\<lambda>c. setListId c later boardId listName (ident list')) cache1)
               | None \<Rightarrow>
                   let listNames = map name lists'
                   in case fuzzyMatch listName listNames of
                        None \<Rightarrow> (Inl (AmbiguousName listNames), cache1)
                      | Some m \<Rightarrow>
                          if numLess (score m) (8 / 10)
                          then (Inl (NoConfidentMatch listNames), cache1)
                          else
                            case find (\<lambda>l. name l = match m) lists' of
                              None \<Rightarrow> (Inl TypeError, cache1)
                            | Some matchedList \<Rightarrow>
                                (Inr \<lparr>resolvedId = ident matchedList, exactMatch = False\<rparr>,
                                 map_option
                                   (\<lambda>c. setListId c later boardId listName (ident matchedList))
                                   cache1)))"

text \<open>
  \<open>resolveCardIdFromBoardListing\<close>, the fallback over the open cards of the board;
  \<open>response\<close> is what the fetch of that listing returns. The result is the \<open>{id, name}\<close>
  of the card.
\<close>

definition resolveCardIdFromBoardListing :: "string \<Rightarrow> listedCard response \<Rightarrow> error + named" where
  "resolveCardIdFromBoardListing cardName' response =
     (case response of
        Failure statusText \<Rightarrow> Inl (CardFallbackFailed statusText)
      | NonArray \<Rightarrow> Inl CardNotFoundIncludingFallback
      | Listing cards \<Rightarrow>
          if length cards = 0 then Inl CardNotFoundIncludingFallback
          else
            let normalizedInput = trim (toLowerCase cardName')
            in case find (\<lambda>card'. map_option (\<lambda>n. trim (toLowerCase n)) (cardName card')
                                   = Some normalizedInput) cards of
                 Some card' \<Rightarrow>
                   (case cardName card' of
                      Some n \<Rightarrow> Inr \<lparr>ident = cardIdent card', name = n\<rparr>
                    | None \<Rightarrow> Inl TypeError)
               | None \<Rightarrow>
                   let candidateNames = List.map_filter cardName cards
                   in case fuzzyMatch cardName' candidateNames of
                        None \<Rightarrow> Inl CardNotFoundAfterFallback
                      | Some m \<Rightarrow>
                          if numGreaterEq (score m) (9 / 10)
                          then (case find (\<lambda>card'. cardName card' = Some (match m)) cards of
                                  Some matchedCard \<Rightarrow>
                                    Inr \<lparr>ident = cardIdent matchedCard, name = match m\<rparr>
                                | None \<Rightarrow> Inl CardNotFoundAfterFallback)
                          else Inl CardNotFoundAfterFallback)"

text \<open>
  \<open>resolveCardId\<close>; \<open>search\<close> is the answer of the search endpoint and \<open>listing\<close> the answer
  the fallback would get.
\<close>

definition resolveCardId :: "string \<Rightarrow> searchResponse \<Rightarrow> listedCard response \<Rightarrow> error + named" where
  "resolveCardId cardName' search listing =
     (case search of
        SearchFailure statusText \<Rightarrow> Inl (CardSearchFailed statusText)
      | SearchResult resultCards \<Rightarrow>
          let cards = (case resultCards of None \<Rightarrow> [] | Some cs \<Rightarrow> cs)
          in case cards of
               [] \<Rightarrow> resolveCardIdFromBoardListing cardName' listing
             | [card'] \<Rightarrow> Inr \<lparr>ident = ident card', name = name card'\<rparr>
             | first # _ \<Rightarrow>
                 let normalizedInput = trim (toLowerCase cardName')
                 in case find (\<lambda>card'. trim (toLowerCase (name card')) = normalizedInput) cards of
                      Some card' \<Rightarrow> Inr \<lparr>ident = ident card', name = name card'\<rparr>
                    | None \<Rightarrow> Inr \<lparr>ident = ident first, name = name first\<rparr>)"

section \<open>Response normalizer (cleaner.ts)\<close>

subsection \<open>Payloads\<close>

text \<open>
  The normalizer takes values of type \<open>any\<close>: what \<open>JSON.parse\<close> produced, and
  \<open>undefined\<close> where a property is missing. An object is the association list of its own
  properties. \<open>JBuiltin\<close> stands for a function or object of the runtime that a lookup
  can reach through the prototype of a plain object; no payload contains it.
\<close>

datatype json =
    JUndefined
  | JNull
  | JBool bool
  | JNum rat
  | JStr string
  | JArr "json list"
  | JObj "(string \<times> json) list"
  | JBuiltin

fun nullish :: "json \<Rightarrow> bool" where
  "nullish JUndefined = True"
| "nullish JNull = True"
| "nullish _ = False"

text \<open>Truthiness: \<open>undefined\<close>, \<open>null\<close>, \<open>false\<close>, \<open>0\<close> and the empty string are falsy.\<close>

fun truthy :: "json \<Rightarrow> bool" where
  "truthy JUndefined = False"
| "truthy JNull = False"
| "truthy (JBool b) = b"
| "truthy (JNum n) = (n \<noteq> 0)"
| "truthy (JStr s) = (s \<noteq> [])"
| "truthy _ = True"

text \<open>
  \<open>get v p\<close> is \<open>v.p\<close> for a value that is neither \<open>null\<close> nor \<open>undefined\<close> (reading a
  property of those throws, which every caller checks first with \<open>nullish\<close>) and for the
  property names the source reads: an own property of an object, \<open>length\<close> of an array or
  a string, and \<open>undefined\<close> otherwise.
\<close>

fun get :: "json \<Rightarrow> string \<Rightarrow> json" where
  "get (JObj kvs) p = (case map_of kvs p of Some v \<Rightarrow> v | None \<Rightarrow> JUndefined)"
| "get (JArr xs) p = (if p = ''length'' then JNum (of_nat (length xs)) else JUndefined)"
| "get (JStr s) p = (if p = ''length'' then JNum (of_nat (length s)) else JUndefined)"
| "get _ p = JUndefined"

text \<open>The operator \<open>a || b\<close>.\<close>

definition orElse :: "json \<Rightarrow> json \<Rightarrow> json" where
  "orElse a b = (if truthy a then a else b)"

text \<open>
  A \<open>Map\<close> whose keys are values of the payload, newest entry first. Keys are compared as
  \<open>Map\<close> does (SameValueZero): primitive values by value, objects and arrays by identity,
  and two objects parsed at different places of a payload are never identical.
\<close>

fun sameValueZero :: "json \<Rightarrow> json \<Rightarrow> bool" where
  "sameValueZero (JArr _) _ = False"
| "sameValueZero (JObj _) _ = False"
| "sameValueZero JBuiltin _ = False"
| "sameValueZero a b = (a = b)"

fun mapGet :: "(json \<times> json) list \<Rightarrow> json \<Rightarrow> json" where
  "mapGet [] k = JUndefined"
| "mapGet ((k', v) # m) k = (if sameValueZero k' k then v else mapGet m k)"

text \<open>The decimal digits of a natural number, as a template literal prints it.\<close>

fun decimal :: "nat \<Rightarrow> string" where
  "decimal n =
     (if n < 10 then [char_of (48 + n)]
      else decimal (n div 10) @ [char_of (48 + n mod 10)])"

text \<open>\<open>array.map(f)\<close> for an \<open>f\<close> that may throw: the first error ends the loop.\<close>

fun mapE :: "('a \<Rightarrow> error + 'b) \<Rightarrow> 'a list \<Rightarrow> error + 'b list" where
  "mapE f [] = Inr []"
| "mapE f (x # xs) =
     (case f x of
        Inl e \<Rightarrow> Inl e
      | Inr y \<Rightarrow> (case mapE f xs of Inl e \<Rightarrow> Inl e | Inr ys \<Rightarrow> Inr (y # ys)))"

subsection \<open>Lookup maps\<close>

fun memberLoop :: "json list \<Rightarrow> (json \<times> json) list \<Rightarrow> error + (json \<times> json) list" where
  "memberLoop [] memberMap = Inr memberMap"
| "memberLoop (member # rest) memberMap =
     (if nullish member then Inl TypeError
      else if truthy (get member ''id'') \<and> truthy (get member ''fullName'')
           then memberLoop rest ((get member ''id'', get member ''fullName'') # memberMap)
           else memberLoop rest memberMap)"

definition buildMemberMap :: "json \<Rightarrow> error + (json \<times> json) list" where
  "buildMemberMap board =
     (if nullish board then Inl TypeError
      else case get board ''members'' of
             JArr members \<Rightarrow> memberLoop members []
           | _ \<Rightarrow> Inr [])"

fun labelLoop :: "json list \<Rightarrow> (json \<times> json) list \<Rightarrow> error + (json \<times> json) list" where
  "labelLoop [] labelMap = Inr labelMap"
| "labelLoop (label # rest) labelMap =
     (if nullish label then Inl TypeError
      else if truthy (get label ''id'') \<and> truthy (get label ''name'')
           then labelLoop rest ((get label ''id'', get label ''name'') # labelMap)
           else labelLoop rest labelMap)"

definition buildLabelMap :: "json \<Rightarrow> error + (json \<times> json) list" where
  "buildLabelMap board =
     (if nullish board then Inl TypeError
      else case get board ''labels'' of
             JArr labels \<Rightarrow> labelLoop labels []
           | _ \<Rightarrow> Inr [])"

subsection \<open>calculateChecklistStatus\<close>

text \<open>
  \<open>for (.. of checklists)\<close> runs over the elements of an array or the characters of a
  string and throws on any other value.
\<close>

fun iterate :: "json \<Rightarrow> error + json list" where
  "iterate (JArr xs) = Inr xs"
| "iterate (JStr s) = Inr (map (\<lambda>c. JStr [c]) s)"
| "iterate _ = Inl TypeError"

text \<open>\<open>checkItems.filter((item) => item.state === 'complete').length\<close>.\<close>

fun countComplete :: "json list \<Rightarrow> error + nat" where
  "countComplete [] = Inr 0"
| "countComplete (item # rest) =
     (if nullish item then Inl TypeError
      else case countComplete rest of
             Inl e \<Rightarrow> Inl e
           | Inr n \<Rightarrow> Inr (if get item ''state'' = JStr ''complete'' then Suc n else n))"

fun checklistLoop :: "json list \<Rightarrow> nat \<Rightarrow> nat \<Rightarrow> error + nat \<times> nat" where
  "checklistLoop [] totalItems completedItems = Inr (totalItems, completedItems)"
| "checklistLoop (checklist # rest) totalItems completedItems =
     (if nullish checklist then Inl TypeError
      else case get checklist ''checkItems'' of
             JArr checkItems \<Rightarrow>
               (case countComplete checkItems of
                  Inl e \<Rightarrow> Inl e
                | Inr n \<Rightarrow> checklistLoop rest (totalItems + length checkItems) (completedItems + n))
           | _ \<Rightarrow> checklistLoop rest totalItems completedItems)"

definition calculateChecklistStatus :: "json \<Rightarrow> error + string" where
  "calculateChecklistStatus checklists =
     (if \<not> truthy checklists \<or> get checklists ''length'' = JNum 0 then Inr ''0/0''
      else case iterate checklists of
             Inl e \<Rightarrow> Inl e
           | Inr cls \<Rightarrow>
               (case checklistLoop cls 0 0 of
                  Inl e \<Rightarrow> Inl e
                | Inr (totalItems, completedItems) \<Rightarrow>
                    Inr (decimal completedItems @ ''/'' @ decimal totalItems)))"

subsection \<open>cleanCard, cleanList, cleanBoard\<close>

record CleanCard =
  card_id :: json
  card_name :: json
  card_desc :: json
  card_due :: json
  card_labels :: "json list"
  card_members :: "json list"
  card_checklistStatus :: string
  card_url :: json
  card_closed :: json

record CleanList =
  list_id :: json
  list_name :: json
  list_closed :: json
  list_cards :: "CleanCard list option"

record CleanBoard =
  board_id :: json
  board_name :: json
  board_desc :: json
  board_url :: json
  board_lists :: "CleanList list option"

text \<open>The names one element of \<open>card.labels\<close> adds to \<open>labels\<close>.\<close>

definition labelNames :: "(json \<times> json) list option \<Rightarrow> json \<Rightarrow> error + json list" where
  "labelNames labelMap label =
     (case (label, labelMap) of
        (JStr s, Some m) \<Rightarrow>
          (let labelName = mapGet m label in Inr (if truthy labelName then [labelName] else []))
      | _ \<Rightarrow>
          if nullish label then Inl TypeError
          else Inr (if truthy (get label ''name'') then [get label ''name''] else []))"

definition cleanCard ::
  "json \<Rightarrow> (json \<times> json) list option \<Rightarrow> (json \<times> json) list option \<Rightarrow> error + CleanCard" where
  "cleanCard card' memberMap labelMap =
     (if nullish card' then Inl TypeError
      else
        let members = (case (get card' ''idMembers'', memberMap) of
                         (JArr ids, Some m) \<Rightarrow> filter truthy (map (mapGet m) ids)
                       | _ \<Rightarrow> [])
        in case (case get card' ''labels'' of
                   JArr ls \<Rightarrow> mapE (labelNames labelMap) ls
                 | _ \<Rightarrow> Inr []) of
             Inl e \<Rightarrow> Inl e
           | Inr labels \<Rightarrow>
               (case calculateChecklistStatus (orElse (get card' ''checklists'') (JArr [])) of
                  Inl e \<Rightarrow> Inl e
                | Inr checklistStatus \<Rightarrow>
                    Inr \<lparr>card_id = get card' ''id'',
                         card_name = orElse (get card' ''name'') (JStr []),
                         card_desc = orElse (get card' ''desc'') (JStr []),
                         card_due = orElse (get card' ''due'') JNull,
                         card_labels = concat labels,
                         card_members = members,
                         card_checklistStatus = checklistStatus,
                         card_url = orElse (orElse (get card' ''url'') (get card' ''shortUrl''))
                                      (JStr []),
                         card_closed = orElse (get card' ''closed'') (JBool False)\<rparr>))"

definition cleanList ::
  "json \<Rightarrow> (json \<times> json) list option \<Rightarrow> (json \<times> json) list option \<Rightarrow> error + CleanList" where
  "cleanList list' memberMap labelMap =
     (if nullish list' then Inl TypeError
      else
        let cleanedList = \<lparr>list_id = get list' ''id'',
                           list_name = orElse (get list' ''name'') (JStr []),
                           list_closed = orElse (get list' ''closed'') (JBool False),
                           list_cards = None\<rparr>
        in case get list' ''cards'' of
             JArr cards \<Rightarrow>
               (case mapE (\<lambda>c. cleanCard c memberMap labelMap) cards of
                  Inl e \<Rightarrow> Inl e
                | Inr cleaned \<Rightarrow> Inr (cleanedList\<lparr>list_cards := Some cleaned\<rparr>))
           | _ \<Rightarrow> Inr cleanedList)"

definition cleanBoard :: "json \<Rightarrow> error + CleanBoard" where
  "cleanBoard board =
     (case buildMemberMap board of
        Inl e \<Rightarrow> Inl e
      | Inr memberMap \<Rightarrow>
     (case buildLabelMap board of
        Inl e \<Rightarrow> Inl e
      | Inr labelMap \<Rightarrow>
          let cleanedBoard = \<lparr>board_id = get board ''id'',
                              board_name = orElse (get board ''name'') (JStr []),
                              board_desc = orElse (get board ''desc'') (JStr []),
                              board_url = orElse (orElse (get board ''url'') (get board ''shortUrl''))
                                            (JStr []),
                              board_lists = None\<rparr>
          in case get board ''lists'' of
               JArr ls \<Rightarrow>
                 (case mapE (\<lambda>l. cleanList l (Some memberMap) (Some labelMap)) ls of
                    Inl e \<Rightarrow> Inl e
                  | Inr cleaned \<Rightarrow> Inr (cleanedBoard\<lparr>board_lists := Some cleaned\<rparr>))
             | _ \<Rightarrow> Inr cleanedBoard))"

subsection \<open>cleanTrelloResponse\<close>

text \<open>What the dispatcher returns: \<open>data\<close> itself, or the cleaned entity or entities.\<close>

datatype cleaned =
    Data json
  | Board CleanBoard
  | List CleanList
  | Card CleanCard
  | Boards "CleanBoard list"
  | Lists "CleanList list"
  | Cards "CleanCard list"

definition cleanTrelloResponse :: "json \<Rightarrow> error + cleaned" where
  "cleanTrelloResponse data =
     (if \<not> truthy data then Inr (Data data)
      else case data of
        JArr items \<Rightarrow>
          (case items of
             [] \<Rightarrow> Inr (Data data)
           | firstItem # _ \<Rightarrow>
               if nullish firstItem then Inl TypeError
               else if get firstItem ''lists'' \<noteq> JUndefined \<or> get firstItem ''prefs'' \<noteq> JUndefined
               then map_sum id Boards (mapE cleanBoard items)
               else if get firstItem ''cards'' \<noteq> JUndefined
               then map_sum id Lists (mapE (\<lambda>l. cleanList l None None) items)
               else if get firstItem ''idList'' \<noteq> JUndefined \<or> get firstItem ''badges'' \<noteq> JUndefined
               then map_sum id Cards (mapE (\<lambda>c. cleanCard c None None) items)
               else Inr (Data data))
      | _ \<Rightarrow>
          if get data ''lists'' \<noteq> JUndefined \<or> get data ''prefs'' \<noteq> JUndefined
          then map_sum id Board (cleanBoard data)
          else if get data ''cards'' \<noteq> JUndefined
          then map_sum id List (cleanList data None None)
          else if get data ''idList'' \<noteq> JUndefined \<or> get data ''badges'' \<noteq> JUndefined
          then map_sum id Card (cleanCard data None None)
          else Inr (Data data))"

section \<open>Board snapshot (tools/snapshot.ts)\<close>

text \<open>
  The handler of \<open>get_board_snapshot\<close>, from the parsed body \<open>boardData\<close> of the board
  fetch on: it stitches the flat \<open>cards\<close> array into the \<open>lists\<close> array and cleans the
  board.

  \<open>cardsByList\<close> is a plain object used as a dictionary, modelled by the association list
  of its own properties in creation order. Its keys are property keys. The model covers the
  keys that are strings and the primitive values whose key is a fixed word; for a number,
  an array or an object the runtime computes the key by a conversion that is not modelled,
  and the functions stop with \<open>NonStringKey\<close>.
\<close>

fun toPropertyKey :: "json \<Rightarrow> string option" where
  "toPropertyKey (JStr s) = Some s"
| "toPropertyKey JUndefined = Some ''undefined''"
| "toPropertyKey JNull = Some ''null''"
| "toPropertyKey (JBool b) = Some (if b then ''true'' else ''false'')"
| "toPropertyKey _ = None"

text \<open>
  A plain object inherits the properties of \<open>Object.prototype\<close>: a lookup under one of
  these names finds a function (or, for \<open>__proto__\<close>, the prototype itself) unless the
  object has an own property of that name.
\<close>

definition objectPrototypeKeys :: "string list" where
  "objectPrototypeKeys =
     [''constructor'', ''__defineGetter__'', ''__defineSetter__'', ''hasOwnProperty'',
      ''__lookupGetter__'', ''__lookupSetter__'', ''isPrototypeOf'', ''propertyIsEnumerable'',
      ''toString'', ''valueOf'', ''__proto__'', ''toLocaleString'']"

text \<open>
  The callback of \<open>boardData.cards.reduce\<close>, run over the cards from left to right. A card
  that is \<open>null\<close> or has no truthy \<open>idList\<close> is skipped. Where \<open>acc[card.idList]\<close> is
  an inherited property it is truthy, no array is created, and \<open>push\<close> is not a function
  of what is found: a \<open>TypeError\<close>.
\<close>

fun cardsByList :: "json list \<Rightarrow> (string \<times> json list) list \<Rightarrow> error + (string \<times> json list) list" where
  "cardsByList [] acc = Inr acc"
| "cardsByList (card' # rest) acc =
     (if nullish card' \<or> \<not> truthy (get card' ''idList'') then cardsByList rest acc
      else case toPropertyKey (get card' ''idList'') of
             None \<Rightarrow> Inl NonStringKey
           | Some key \<Rightarrow>
               (case map_of acc key of
                  Some cards \<Rightarrow> cardsByList rest (AList.update key (cards @ [card']) acc)
                | None \<Rightarrow>
                    if key \<in> set objectPrototypeKeys then Inl TypeError
                    else cardsByList rest (acc @ [(key, [card'])])))"

text \<open>The own enumerable properties \<open>{...list}\<close> copies.\<close>

fun spread :: "json \<Rightarrow> (string \<times> json) list" where
  "spread (JObj kvs) = kvs"
| "spread (JArr xs) = zip (map decimal [0..<length xs]) xs"
| "spread (JStr s) = zip (map decimal [0..<length s]) (map (\<lambda>c. JStr [c]) s)"
| "spread _ = []"

text \<open>The callback of \<open>boardData.lists.map\<close>: \<open>{...list, cards: cardsByList[list.id] || []}\<close>.\<close>

definition attachCards :: "(string \<times> json list) list \<Rightarrow> json \<Rightarrow> error + json" where
  "attachCards acc list' =
     (if nullish list' then Inl TypeError
      else case toPropertyKey (get list' ''id'') of
             None \<Rightarrow> Inl NonStringKey
           | Some key \<Rightarrow>
               (let found = (case map_of acc key of
                               Some cards \<Rightarrow> JArr cards
                             | None \<Rightarrow> if key \<in> set objectPrototypeKeys then JBuiltin
                                       else JUndefined)
                in Inr (JObj (AList.update ''cards'' (orElse found (JArr [])) (spread list')))))"

definition stitch :: "json \<Rightarrow> error + json" where
  "stitch boardData =
     (if nullish boardData then Inl TypeError
      else case (boardData, get boardData ''cards'', get boardData ''lists'') of
             (JObj kvs, JArr cards, JArr ls) \<Rightarrow>
               (case cardsByList cards [] of
                  Inl e \<Rightarrow> Inl e
                | Inr acc \<Rightarrow>
                    (case mapE (attachCards acc) ls of
                       Inl e \<Rightarrow> Inl e
                     | Inr stitched \<Rightarrow> Inr (JObj (AList.update ''lists'' (JArr stitched) kvs))))
           | _ \<Rightarrow> Inr boardData)"

definition get_board_snapshot :: "json \<Rightarrow> error + CleanBoard" where
  "get_board_snapshot boardData =
     (case stitch boardData of
        Inl e \<Rightarrow> Inl e
      | Inr stitched \<Rightarrow> cleanBoard stitched)"

section \<open>Notions used in the statements and proofs\<close>

text \<open>
  The value of a score, for two strings that are not both empty: one minus the edit
  distance of the lower-cased strings over the greater length, as doubles compute it.
\<close>

definition scoreValue :: "string \<Rightarrow> string \<Rightarrow> rat" where
  "scoreValue a b =
     roundDouble (1 - roundDouble (rat_of_nat (editDistance (toLowerCase a) (toLowerCase b))
                                   / rat_of_nat (max (length a) (length b))))"

text \<open>The non-empty prefixes of a list, shortest first, and a row of the matrix in terms of
  the edit distance: the cells of the columns from prefix \<open>ap\<close> on, for the prefix \<open>bp\<close> of
  the other string.\<close>

fun prefs :: "'a list \<Rightarrow> 'a list list" where
  "prefs [] = []"
| "prefs (x # xs) = [x] # map ((#) x) (prefs xs)"

definition row :: "'a list \<Rightarrow> 'a list \<Rightarrow> 'a list \<Rightarrow> nat list" where
  "row ap as bp = editDistance ap bp # map (\<lambda>p. editDistance (ap @ p) bp) (prefs as)"

text \<open>The value of a score that is a number.\<close>

fun numOf :: "jsnum \<Rightarrow> rat" where
  "numOf (Num r) = r"
| "numOf NaN = 0"

text \<open>
  A value shows none of the markers by which the dispatcher tells boards, lists and cards:
  it has no \<open>lists\<close>, \<open>prefs\<close>, \<open>cards\<close>, \<open>idList\<close> or \<open>badges\<close>.
\<close>

definition lacksMarkers :: "json \<Rightarrow> bool" where
  "lacksMarkers v =
     (get v ''lists'' = JUndefined \<and> get v ''prefs'' = JUndefined \<and> get v ''cards'' = JUndefined
      \<and> get v ''idList'' = JUndefined \<and> get v ''badges'' = JUndefined)"

text \<open>
  The payloads on which the normalizer does not throw. \<open>noNulls\<close>: no element of an array
  is \<open>null\<close> or \<open>undefined\<close>. \<open>safeChecklists\<close>, for the value of \<open>card.checklists\<close>: falsy,
  of length 0, a string, or an array of checklists none of which is \<open>null\<close> and whose
  \<open>checkItems\<close>, where they are an array, hold no \<open>null\<close>. \<open>safeCard\<close>, \<open>safeList\<close>,
  \<open>safeBoard\<close>: the entity is not \<open>null\<close> and the arrays the cleaner runs over are safe.
\<close>

definition noNulls :: "json list \<Rightarrow> bool" where
  "noNulls xs = list_all (\<lambda>x. \<not> nullish x) xs"

definition safeChecklist :: "json \<Rightarrow> bool" where
  "safeChecklist checklist =
     (\<not> nullish checklist
      \<and> (case get checklist ''checkItems'' of JArr items \<Rightarrow> noNulls items | _ \<Rightarrow> True))"

definition safeChecklists :: "json \<Rightarrow> bool" where
  "safeChecklists v =
     (case v of
        JArr cls \<Rightarrow> list_all safeChecklist cls
      | JStr s \<Rightarrow> True
      | _ \<Rightarrow> \<not> truthy v \<or> get v ''length'' = JNum 0)"

definition safeCard :: "json \<Rightarrow> bool" where
  "safeCard c =
     (\<not> nullish c
      \<and> (case get c ''labels'' of JArr ls \<Rightarrow> noNulls ls | _ \<Rightarrow> True)
      \<and> safeChecklists (get c ''checklists''))"

definition safeList :: "json \<Rightarrow> bool" where
  "safeList l =
     (\<not> nullish l \<and> (case get l ''cards'' of JArr cs \<Rightarrow> list_all safeCard cs | _ \<Rightarrow> True))"

definition safeBoard :: "json \<Rightarrow> bool" where
  "safeBoard b =
     (\<not> nullish b
      \<and> (case get b ''members'' of JArr ms \<Rightarrow> noNulls ms | _ \<Rightarrow> True)
      \<and> (case get b ''labels'' of JArr ls \<Rightarrow> noNulls ls | _ \<Rightarrow> True)
      \<and> (case get b ''lists'' of JArr ls \<Rightarrow> list_all safeList ls | _ \<Rightarrow> True))"

text \<open>
  The entity the dispatcher takes a value for, and the payloads on which it does not throw:
  the falsy ones, the empty array, an array whose first element is not \<open>null\<close> and whose
  elements are all safe entities of the kind of the first, and any other value that is a
  safe entity of its kind.
\<close>

datatype kind = BoardKind | ListKind | CardKind | UnknownKind

definition kindOf :: "json \<Rightarrow> kind" where
  "kindOf v =
     (if get v ''lists'' \<noteq> JUndefined \<or> get v ''prefs'' \<noteq> JUndefined then BoardKind
      else if get v ''cards'' \<noteq> JUndefined then ListKind
      else if get v ''idList'' \<noteq> JUndefined \<or> get v ''badges'' \<noteq> JUndefined then CardKind
      else UnknownKind)"

fun safeAs :: "kind \<Rightarrow> json \<Rightarrow> bool" where
  "safeAs BoardKind v = safeBoard v"
| "safeAs ListKind v = safeList v"
| "safeAs CardKind v = safeCard v"
| "safeAs UnknownKind v = True"

definition safePayload :: "json \<Rightarrow> bool" where
  "safePayload data =
     (\<not> truthy data
      \<or> (case data of
            JArr [] \<Rightarrow> True
          | JArr (firstItem # rest) \<Rightarrow>
              \<not> nullish firstItem \<and> list_all (safeAs (kindOf firstItem)) (firstItem # rest)
          | _ \<Rightarrow> safeAs (kindOf data) data))"

text \<open>
  The cards of a flat card array that point to a list: those that are not \<open>null\<close> and
  whose \<open>idList\<close> is truthy and equal to the id of the list.
\<close>

definition cardsWithIdList :: "json list \<Rightarrow> json \<Rightarrow> json list" where
  "cardsWithIdList cards listId =
     filter (\<lambda>c. \<not> nullish c \<and> truthy (get c ''idList'') \<and> get c ''idList'' = listId) cards"

section \<open>The matrix computes the edit distance\<close>

lemma ed_Nil2[simp]: "editDistance xs [] = length xs"
  by (cases xs) auto

lemma ed_sym: "editDistance xs ys = editDistance ys xs"
proof (induction xs ys rule: editDistance.induct)
  case (3 x xs y ys)
  then show ?case by (cases "x = y") (simp_all add: min.commute)
qed simp_all

lemma ed_single_snoc:
  "editDistance [a] (ys @ [b]) =
     (if a = b then length ys else 1 + min (length ys) (editDistance [a] ys))"
proof (induction ys)
  case Nil show ?case by simp
next
  case (Cons y ys)
  then show ?case by (auto simp: min_def)
qed

lemma ed_snoc_single:
  "editDistance (xs @ [a]) [b] =
     (if a = b then length xs else 1 + min (length xs) (editDistance xs [b]))"
  using ed_single_snoc[of b xs a] ed_sym[of "xs @ [a]" "[b]"] ed_sym[of xs "[b]"]
  by auto


lemma min9:
  fixes p q r s t u v w z :: nat
  shows "min (1 + min p (min q r)) (min (1 + min s (min t u)) (1 + min v (min w z)))
       = min (1 + min p (min s v)) (min (1 + min q (min t w)) (1 + min r (min u z)))"
  by (rule antisym) (simp_all add: min_le_iff_disj)

lemma min_absorb_Suc: "min n (min (Suc n) e) = min (n::nat) e"
  by (simp add: min_def)

lemma min_absorb_Suc2: "min n (min e (Suc n)) = min (n::nat) e"
  by (simp add: min_def)

lemma ed_snoc_Nil1:
  "editDistance ([] @ [a]) (ys @ [b]) =
     (if a = b then editDistance [] ys
      else 1 + min (editDistance [] ys) (min (editDistance [] (ys @ [b])) (editDistance ([] @ [a]) ys)))"
  by (simp add: ed_single_snoc min_absorb_Suc)

lemma ed_snoc_Nil2:
  "editDistance (xs @ [a]) ([] @ [b]) =
     (if a = b then editDistance xs []
      else 1 + min (editDistance xs []) (min (editDistance xs ([] @ [b])) (editDistance (xs @ [a]) [])))"
  by (simp add: ed_snoc_single min_absorb_Suc2)


lemma ed_snoc:
  "editDistance (xs @ [a]) (ys @ [b]) =
     (if a = b then editDistance xs ys
      else 1 + min (editDistance xs ys) (min (editDistance xs (ys @ [b])) (editDistance (xs @ [a]) ys)))"
proof (induction xs ys rule: editDistance.induct)
  case (1 ys)
  show ?case by (rule ed_snoc_Nil1)
next
  case (2 x xs)
  show ?case by (rule ed_snoc_Nil2)
next
  case (3 x xs y ys)
  show ?case
  proof (cases "x = y")
    case True
    have "editDistance ((x # xs) @ [a]) ((y # ys) @ [b]) = editDistance (xs @ [a]) (ys @ [b])"
      using True by simp
    moreover have "editDistance (x # xs) (y # ys) = editDistance xs ys"
      and "editDistance (x # xs) ((y # ys) @ [b]) = editDistance xs (ys @ [b])"
      and "editDistance ((x # xs) @ [a]) (y # ys) = editDistance (xs @ [a]) ys"
      using True by simp_all
    ultimately show ?thesis using 3(1)[OF True] by (simp only:)
  next
    case False
    note IH = 3(2)[OF False] 3(3)[OF False] 3(4)[OF False]
    have L: "editDistance ((x # xs) @ [a]) ((y # ys) @ [b]) =
        1 + min (editDistance (xs @ [a]) (ys @ [b]))
             (min (editDistance (xs @ [a]) ((y # ys) @ [b])) (editDistance ((x # xs) @ [a]) (ys @ [b])))"
      using False by simp
    have R1: "editDistance (x # xs) (y # ys) =
        1 + min (editDistance xs ys) (min (editDistance xs (y # ys)) (editDistance (x # xs) ys))"
      using False by simp
    show ?thesis
    proof (cases "a = b")
      case True
      have A: "editDistance (xs @ [a]) (ys @ [b]) = editDistance xs ys"
        using IH(1) True by (simp only: refl if_True)
      have B: "editDistance (xs @ [a]) ((y # ys) @ [b]) = editDistance xs (y # ys)"
        using IH(2) True by (simp only: refl if_True)
      have C: "editDistance ((x # xs) @ [a]) (ys @ [b]) = editDistance (x # xs) ys"
        using IH(3) True by (simp only: refl if_True)
      have "editDistance ((x # xs) @ [a]) ((y # ys) @ [b]) = editDistance (x # xs) (y # ys)"
        unfolding L R1 A B C by (rule refl)
      with True show ?thesis by (simp only: refl if_True)
    next
      case ab: False
      have A: "editDistance (xs @ [a]) (ys @ [b]) =
        1 + min (editDistance xs ys) (min (editDistance xs (ys @ [b])) (editDistance (xs @ [a]) ys))"
        using IH(1) ab by (simp only: if_False)
      have B: "editDistance (xs @ [a]) ((y # ys) @ [b]) =
        1 + min (editDistance xs (y # ys)) (min (editDistance xs ((y # ys) @ [b])) (editDistance (xs @ [a]) (y # ys)))"
        using IH(2) ab by (simp only: if_False)
      have C: "editDistance ((x # xs) @ [a]) (ys @ [b]) =
        1 + min (editDistance (x # xs) ys) (min (editDistance (x # xs) (ys @ [b])) (editDistance ((x # xs) @ [a]) ys))"
        using IH(3) ab by (simp only: if_False)
      have R2: "editDistance (x # xs) ((y # ys) @ [b]) =
        1 + min (editDistance xs (ys @ [b])) (min (editDistance xs ((y # ys) @ [b])) (editDistance (x # xs) (ys @ [b])))"
        using False by simp
      have R3: "editDistance ((x # xs) @ [a]) (y # ys) =
        1 + min (editDistance (xs @ [a]) ys) (min (editDistance (xs @ [a]) (y # ys)) (editDistance ((x # xs) @ [a]) ys))"
        using False by simp
      have "editDistance ((x # xs) @ [a]) ((y # ys) @ [b]) =
         1 + min (editDistance (x # xs) (y # ys))
               (min (editDistance (x # xs) ((y # ys) @ [b])) (editDistance ((x # xs) @ [a]) (y # ys)))"
        unfolding L A B C R1 R2 R3 by (simp only: min9)
      with ab show ?thesis by (simp only: if_False)
    qed
  qed
qed


lemma row_Cons:
  "row ap (ac # as) bp = editDistance ap bp # row (ap @ [ac]) as bp"
  by (simp add: row_def comp_def)

lemma fillRow_correct:
  "fillRow bc as (row ap as bp) (editDistance ap (bp @ [bc])) = tl (row ap as (bp @ [bc]))"
proof (induction as arbitrary: ap)
  case Nil
  show ?case by (simp add: row_def)
next
  case (Cons ac as)
  have v: "(if bc = ac then editDistance ap bp
            else min (editDistance ap bp + 1)
                  (min (editDistance ap (bp @ [bc]) + 1) (editDistance (ap @ [ac]) bp + 1)))
           = editDistance (ap @ [ac]) (bp @ [bc])"
    by (auto simp: ed_snoc)
  have r: "row (ap @ [ac]) as bp = editDistance (ap @ [ac]) bp # tl (row (ap @ [ac]) as bp)"
    by (simp add: row_def)
  have "fillRow bc (ac # as) (editDistance ap bp # editDistance (ap @ [ac]) bp # tl (row (ap @ [ac]) as bp))
          (editDistance ap (bp @ [bc]))
        = editDistance (ap @ [ac]) (bp @ [bc]) #
          fillRow bc as (editDistance (ap @ [ac]) bp # tl (row (ap @ [ac]) as bp))
             (editDistance (ap @ [ac]) (bp @ [bc]))"
    by (simp only: fillRow.simps Let_def v)
  then have "fillRow bc (ac # as) (row ap (ac # as) bp) (editDistance ap (bp @ [bc]))
        = editDistance (ap @ [ac]) (bp @ [bc]) #
          fillRow bc as (row (ap @ [ac]) as bp) (editDistance (ap @ [ac]) (bp @ [bc]))"
    using r by (simp only: row_Cons)
  also have "\<dots> = editDistance (ap @ [ac]) (bp @ [bc]) # tl (row (ap @ [ac]) as (bp @ [bc]))"
    by (simp only: Cons.IH)
  also have "\<dots> = row (ap @ [ac]) as (bp @ [bc])"
    by (simp add: row_def)
  also have "\<dots> = tl (row ap (ac # as) (bp @ [bc]))"
    by (simp add: row_Cons)
  finally show ?case .
qed

lemma fillRow_row: "Suc (length bp) # fillRow bc a (row [] a bp) (Suc (length bp)) = row [] a (bp @ [bc])"
proof -
  have "fillRow bc a (row [] a bp) (editDistance [] (bp @ [bc])) = tl (row [] a (bp @ [bc]))"
    by (rule fillRow_correct)
  then show ?thesis by (simp add: row_def)
qed

lemma fillMatrix_row: "fillMatrix a bs (Suc (length bp)) (row [] a bp) = row [] a (bp @ bs)"
proof (induction bs arbitrary: bp)
  case Nil show ?case by simp
next
  case (Cons bc bs)
  have "fillMatrix a (bc # bs) (Suc (length bp)) (row [] a bp)
        = fillMatrix a bs (Suc (length (bp @ [bc]))) (row [] a (bp @ [bc]))"
    by (simp add: fillRow_row)
  also have "\<dots> = row [] a ((bp @ [bc]) @ bs)" by (rule Cons.IH)
  finally show ?case by simp
qed

lemma length_prefs: "map length (prefs a) = [1..<Suc (length a)]"
proof (induction a)
  case Nil show ?case by simp
next
  case (Cons x xs)
  have "map length (prefs (x # xs)) = 1 # map Suc (map length (prefs xs))"
    by (simp add: comp_def)
  also have "\<dots> = 1 # map Suc [1..<Suc (length xs)]" by (simp only: Cons.IH)
  also have "\<dots> = 1 # [Suc 1..<Suc (Suc (length xs))]" by (simp only: map_Suc_upt)
  also have "\<dots> = [1..<Suc (length (x # xs))]" by (simp add: upt_conv_Cons del: upt_Suc)
  finally show ?case .
qed

lemma row_zero: "row [] a [] = [0..<Suc (length a)]"
proof -
  have "row [] a [] = 0 # map length (prefs a)" by (simp add: row_def)
  also have "\<dots> = 0 # [1..<Suc (length a)]" by (simp only: length_prefs)
  also have "\<dots> = [0..<Suc (length a)]" by (simp add: upt_conv_Cons del: upt_Suc)
  finally show ?thesis .
qed

lemma last_prefs: "a \<noteq> [] \<Longrightarrow> last (prefs a) = a"
proof (induction a)
  case Nil then show ?case by simp
next
  case (Cons x xs)
  show ?case
  proof (cases xs)
    case Nil then show ?thesis by simp
  next
    case (Cons y ys)
    then have ne: "prefs xs \<noteq> []" by simp
    have "last (prefs (x # xs)) = x # last (prefs xs)"
      using ne by (simp add: last_map)
    with Cons.IH Cons show ?thesis by simp
  qed
qed

lemma last_row: "last (row [] a b) = editDistance a b"
proof (cases a)
  case Nil then show ?thesis by (simp add: row_def)
next
  case (Cons x xs)
  then have ne: "prefs a \<noteq> []" by simp
  have "last (row [] a b) = editDistance (last (prefs a)) b"
    using ne by (simp add: row_def last_map)
  moreover have "last (prefs a) = a" using Cons by (intro last_prefs) simp
  ultimately show ?thesis by simp
qed

lemma levenshteinDistance_editDistance: "levenshteinDistance a b = editDistance a b"
proof -
  have "fillMatrix a b 1 [0..<Suc (length a)] = row [] a b"
    using fillMatrix_row[of a b "[]"] by (simp add: row_zero del: upt_Suc)
  then show ?thesis
    by (simp only: levenshteinDistance_def last_row)
qed

lemma editDistance_refl: "editDistance xs xs = 0"
  by (induction xs) auto

section \<open>The cache\<close>

lemma ttlMs_setBoardId: "ttlMs (setBoardId cache now boardName boardId) = ttlMs cache"
  by (simp add: setBoardId_def Let_def)

lemma ttlMs_getBoardId: "ttlMs (snd (getBoardId cache now boardName)) = ttlMs cache"
  by (simp add: getBoardId_def Let_def split: option.splits)

lemma ttlMs_setListId: "ttlMs (setListId cache now boardId listName listId) = ttlMs cache"
  by (simp add: setListId_def Let_def)

lemma ttlMs_getListId: "ttlMs (snd (getListId cache now boardId listName)) = ttlMs cache"
  by (simp add: getListId_def Let_def split: option.splits)

lemma ttlMs_invalidateBoard: "ttlMs (invalidateBoard cache boardId) = ttlMs cache"
  by (simp add: invalidateBoard_def Let_def split: option.splits prod.splits)

lemma ttlMs_clear: "ttlMs (clear cache) = ttlMs cache"
  by (simp add: clear_def)

lemma boardNameToId_setBoardId:
  "map_of (boardNameToId (setBoardId cache T boardName boardId)) (trim (toLowerCase boardName))
     = Some \<lparr>entryValue = boardId, timestamp = T\<rparr>"
  by (simp add: setBoardId_def Let_def update_conv')

lemma getBoardId_hit:
  assumes "map_of (boardNameToId cache) (trim (toLowerCase boardName)) = Some e"
      and "rat_of_int (now - timestamp e) < ttlMs cache"
  shows "getBoardId cache now boardName = (Some (entryValue e), cache)"
  using assms by (simp add: getBoardId_def isValid_def Let_def)

lemma getBoardId_expired:
  assumes "map_of (boardNameToId cache) (trim (toLowerCase boardName)) = Some e"
      and "\<not> rat_of_int (now - timestamp e) < ttlMs cache"
  shows "getBoardId cache now boardName =
           (None, cache\<lparr>boardNameToId := AList.delete (trim (toLowerCase boardName)) (boardNameToId cache)\<rparr>)"
  using assms by (simp add: getBoardId_def isValid_def Let_def)

lemma listsByBoard_setListId:
  "map_of (listsByBoard (setListId cache T boardId listName listId)) boardId
     = Some (AList.update (trim (toLowerCase listName)) \<lparr>entryValue = listId, timestamp = T\<rparr>
               (case map_of (listsByBoard cache) boardId of None \<Rightarrow> [] | Some m \<Rightarrow> m))"
  by (simp add: setListId_def Let_def update_conv')

lemma getListId_hit:
  assumes "map_of (listsByBoard cache) boardId = Some boardLists"
      and "map_of boardLists (trim (toLowerCase listName)) = Some e"
      and "rat_of_int (now - timestamp e) < ttlMs cache"
  shows "getListId cache now boardId listName = (Some (entryValue e), cache)"
  using assms by (simp add: getListId_def isValid_def Let_def)

lemma getListId_expired:
  assumes "map_of (listsByBoard cache) boardId = Some boardLists"
      and "map_of boardLists (trim (toLowerCase listName)) = Some e"
      and "\<not> rat_of_int (now - timestamp e) < ttlMs cache"
  shows "getListId cache now boardId listName =
           (None, cache\<lparr>listsByBoard :=
                     AList.update boardId (AList.delete (trim (toLowerCase listName)) boardLists)
                       (listsByBoard cache)\<rparr>)"
  using assms by (simp add: getListId_def isValid_def Let_def)

text \<open>
  Claim C4. An entry stored at time \<open>T\<close>, be it a board identifier under a board name
  (\<open>setBoardId\<close>) or a list identifier under a board and a list name (\<open>setListId\<close>), is
  returned by every read under a name with the same normal form while \<open>now - T < ttl\<close>,
  and the cache is left as it was. A read at \<open>now - T \<ge> ttl\<close> reports absence and deletes
  the entry: from \<open>boardNameToId\<close> for a board, from the board's own map within
  \<open>listsByBoard\<close> for a list. Validity is exactly \<open>now - storedAt < ttlMs\<close>, and neither
  the writes nor the reads change \<open>ttlMs\<close>.
\<close>

theorem cache_entry_lives_for_ttl:
  assumes same: "trim (toLowerCase readName) = trim (toLowerCase storedName)"
  shows "(rat_of_int (now - T) < ttlMs cache \<longrightarrow>
            getBoardId (setBoardId cache T storedName storedId) now readName
              = (Some storedId, setBoardId cache T storedName storedId)
          \<and> getListId (setListId cache T boardId storedName storedId) now boardId readName
              = (Some storedId, setListId cache T boardId storedName storedId))
       \<and> (\<not> rat_of_int (now - T) < ttlMs cache \<longrightarrow>
            fst (getBoardId (setBoardId cache T storedName storedId) now readName) = None
          \<and> boardNameToId (snd (getBoardId (setBoardId cache T storedName storedId) now readName))
              = AList.delete (trim (toLowerCase storedName))
                  (boardNameToId (setBoardId cache T storedName storedId))
          \<and> map_of (boardNameToId (snd (getBoardId (setBoardId cache T storedName storedId) now readName)))
                (trim (toLowerCase storedName)) = None
          \<and> fst (getListId (setListId cache T boardId storedName storedId) now boardId readName) = None
          \<and> (\<exists>boardLists.
                map_of (listsByBoard (setListId cache T boardId storedName storedId)) boardId
                  = Some boardLists
                \<and> listsByBoard (snd (getListId (setListId cache T boardId storedName storedId)
                                       now boardId readName))
                  = AList.update boardId (AList.delete (trim (toLowerCase storedName)) boardLists)
                      (listsByBoard (setListId cache T boardId storedName storedId))
                \<and> map_of (AList.delete (trim (toLowerCase storedName)) boardLists)
                      (trim (toLowerCase storedName)) = None))
       \<and> isValid cache now (Some \<lparr>entryValue = storedId, timestamp = T\<rparr>)
            = (rat_of_int (now - T) < ttlMs cache)
       \<and> ttlMs (setBoardId cache T storedName storedId) = ttlMs cache
       \<and> ttlMs (snd (getBoardId (setBoardId cache T storedName storedId) now readName)) = ttlMs cache
       \<and> ttlMs (setListId cache T boardId storedName storedId) = ttlMs cache
       \<and> ttlMs (snd (getListId (setListId cache T boardId storedName storedId) now boardId readName))
            = ttlMs cache"
proof -
  let ?stored = "setBoardId cache T storedName storedId"
  let ?lstored = "setListId cache T boardId storedName storedId"
  let ?e = "\<lparr>entryValue = storedId, timestamp = T\<rparr>"
  let ?key = "trim (toLowerCase storedName)"
  let ?bl = "AList.update ?key ?e (case map_of (listsByBoard cache) boardId of None \<Rightarrow> [] | Some m \<Rightarrow> m)"
  have m: "map_of (boardNameToId ?stored) (trim (toLowerCase readName)) = Some ?e"
    using boardNameToId_setBoardId[of cache T storedName storedId] same by simp
  have t: "ttlMs ?stored = ttlMs cache" by (rule ttlMs_setBoardId)
  have hit: "rat_of_int (now - T) < ttlMs cache \<Longrightarrow>
      getBoardId ?stored now readName = (Some storedId, ?stored)"
    using getBoardId_hit[OF m, of now] t by simp
  have miss: "\<not> rat_of_int (now - T) < ttlMs cache \<Longrightarrow>
      getBoardId ?stored now readName =
        (None, ?stored\<lparr>boardNameToId := AList.delete (trim (toLowerCase readName)) (boardNameToId ?stored)\<rparr>)"
    using getBoardId_expired[OF m, of now] t by simp
  have v: "isValid cache now (Some ?e) = (rat_of_int (now - T) < ttlMs cache)"
    by (simp add: isValid_def)
  have lb: "map_of (listsByBoard ?lstored) boardId = Some ?bl"
    by (rule listsByBoard_setListId)
  have le: "map_of ?bl (trim (toLowerCase readName)) = Some ?e"
    using same by (simp add: update_conv')
  have lt: "ttlMs ?lstored = ttlMs cache" by (rule ttlMs_setListId)
  have lhit: "rat_of_int (now - T) < ttlMs cache \<Longrightarrow>
      getListId ?lstored now boardId readName = (Some storedId, ?lstored)"
    using getListId_hit[OF lb le, of now] lt by simp
  have lmiss: "\<not> rat_of_int (now - T) < ttlMs cache \<Longrightarrow>
      getListId ?lstored now boardId readName =
        (None, ?lstored\<lparr>listsByBoard :=
                 AList.update boardId (AList.delete (trim (toLowerCase readName)) ?bl)
                   (listsByBoard ?lstored)\<rparr>)"
    using getListId_expired[OF lb le, of now] lt by simp
  have lpurged: "\<exists>boardLists.
                map_of (listsByBoard ?lstored) boardId = Some boardLists
                \<and> listsByBoard (snd (getListId ?lstored now boardId readName))
                  = AList.update boardId (AList.delete ?key boardLists) (listsByBoard ?lstored)
                \<and> map_of (AList.delete ?key boardLists) ?key = None"
    if "\<not> rat_of_int (now - T) < ttlMs cache"
    using lmiss[OF that] lb same by (simp add: delete_conv')
  show ?thesis
    using hit miss v t ttlMs_getBoardId[of ?stored now readName] same
          lhit lmiss lpurged lt ttlMs_getListId[of ?lstored now boardId readName]
    by (auto simp: delete_conv')
qed

text \<open>
  With a time-to-live of five minutes, an entry written at 1000 ms is read back at
  300999 ms and is gone at 301000 ms, for the board map and for the list map alike.
\<close>

theorem cache_entry_lives_for_ttl_witness:
  "getBoardId (setBoardId (newTrelloCache 5) 1000 ''Marketing'' ''b1'') 300999 ''marketing ''
     = (Some ''b1'', setBoardId (newTrelloCache 5) 1000 ''Marketing'' ''b1'')
   \<and> fst (getBoardId (setBoardId (newTrelloCache 5) 1000 ''Marketing'' ''b1'') 301000 ''marketing '') = None
   \<and> map_of (boardNameToId (snd (getBoardId (setBoardId (newTrelloCache 5) 1000 ''Marketing'' ''b1'')
          301000 ''marketing ''))) (trim (toLowerCase ''Marketing'')) = None
   \<and> getListId (setListId (newTrelloCache 5) 1000 ''board1'' ''Marketing'' ''b1'') 300999 ''board1'' ''marketing ''
     = (Some ''b1'', setListId (newTrelloCache 5) 1000 ''board1'' ''Marketing'' ''b1'')
   \<and> fst (getListId (setListId (newTrelloCache 5) 1000 ''board1'' ''Marketing'' ''b1'') 301000 ''board1''
            ''marketing '') = None
   \<and> (\<exists>boardLists.
         map_of (listsByBoard (setListId (newTrelloCache 5) 1000 ''board1'' ''Marketing'' ''b1'')) ''board1''
           = Some boardLists
         \<and> listsByBoard (snd (getListId (setListId (newTrelloCache 5) 1000 ''board1'' ''Marketing'' ''b1'')
                                301000 ''board1'' ''marketing ''))
           = AList.update ''board1'' (AList.delete (trim (toLowerCase ''Marketing'')) boardLists)
               (listsByBoard (setListId (newTrelloCache 5) 1000 ''board1'' ''Marketing'' ''b1''))
         \<and> map_of (AList.delete (trim (toLowerCase ''Marketing'')) boardLists)
               (trim (toLowerCase ''Marketing'')) = None)"
proof -
  have n: "trim (toLowerCase ''marketing '') = trim (toLowerCase ''Marketing'')"
    by code_simp
  have a: "rat_of_int (300999 - 1000) < ttlMs (newTrelloCache 5)"
    by (simp add: newTrelloCache_def)
  have b: "\<not> rat_of_int (301000 - 1000) < ttlMs (newTrelloCache 5)"
    by (simp add: newTrelloCache_def)
  note hit = cache_entry_lives_for_ttl[OF n, of 300999 1000 "newTrelloCache 5" "''b1''" "''board1''"]
  note miss = cache_entry_lives_for_ttl[OF n, of 301000 1000 "newTrelloCache 5" "''b1''" "''board1''"]
  from hit a miss b show ?thesis by blast
qed


section \<open>Scores and the fuzzy matcher\<close>

lemma similarityScore_formula:
  "similarityScore a b = (if a = [] \<and> b = [] then NaN else Num (scoreValue a b))"
  by (auto simp: similarityScore_def scoreValue_def Let_def levenshteinDistance_editDistance max_def)

lemma length_toLowerCase[simp]: "length (toLowerCase s) = length s"
  by (simp add: toLowerCase_def)

lemma roundDouble_0: "roundDouble 0 = 0"
  by (simp add: roundDouble_def)

lemma roundDouble_1: "roundDouble 1 = 1"
  by code_simp

lemma scoreValue_same: "a \<noteq> [] \<Longrightarrow> scoreValue a a = 1"
  by (simp add: scoreValue_def editDistance_refl roundDouble_0 roundDouble_1)

lemma similarityScore_same: "a \<noteq> [] \<Longrightarrow> similarityScore a a = Num 1"
  by (simp add: similarityScore_formula scoreValue_same)

lemma editDistance_le_max: "editDistance xs ys \<le> max (length xs) (length ys)"
  by (induction xs ys rule: editDistance.induct) (auto simp: max_def min_def)

lemma mset_insertScore: "mset (insertScore x ys) = add_mset x (mset ys)"
  by (induction ys) auto

lemma mset_sortScores: "mset (sortScores xs) = mset xs"
  by (induction xs) (auto simp: sortScores_def mset_insertScore)

lemma set_sortScores: "set (sortScores xs) = set xs"
  using mset_sortScores[of xs] by (metis set_mset_mset)

lemma length_sortScores: "length (sortScores xs) = length xs"
  using mset_sortScores[of xs] by (metis size_mset)

lemma set_insertScore: "set (insertScore x ys) = insert x (set ys)"
  using mset_insertScore[of x ys] by (metis set_mset_mset set_mset_add_mset_insert)

lemma sorted_insertScore:
  assumes "snd x \<noteq> NaN" "\<forall>y\<in>set ys. snd y \<noteq> NaN"
      and "sorted_wrt (\<lambda>p q. numOf (snd q) \<le> numOf (snd p)) ys"
  shows "sorted_wrt (\<lambda>p q. numOf (snd q) \<le> numOf (snd p)) (insertScore x ys)"
  using assms
proof (induction ys)
  case Nil then show ?case by simp
next
  case (Cons y ys)
  obtain sx where sx: "snd x = Num sx" using Cons.prems(1) by (cases "snd x") auto
  obtain sy where sy: "snd y = Num sy" using Cons.prems(2) by (cases "snd y") auto
  show ?case
  proof (cases "comesBefore x y")
    case True
    then have "sy \<le> sx" using sx sy by (simp add: comesBefore_def)
    with Cons.prems sx sy True show ?thesis by (auto simp: set_insertScore)
  next
    case False
    then have "sx < sy" using sx sy by (simp add: comesBefore_def)
    with Cons sx sy False show ?thesis by (auto simp: set_insertScore)
  qed
qed

lemma sorted_sortScores:
  assumes "\<forall>y\<in>set xs. snd y \<noteq> NaN"
  shows "sorted_wrt (\<lambda>p q. numOf (snd q) \<le> numOf (snd p)) (sortScores xs)"
  using assms
proof (induction xs)
  case Nil show ?case by (simp add: sortScores_def)
next
  case (Cons x xs)
  have "sorted_wrt (\<lambda>p q. numOf (snd q) \<le> numOf (snd p)) (insertScore x (sortScores xs))"
    using Cons by (intro sorted_insertScore) (auto simp: set_sortScores)
  then show ?case by (simp add: sortScores_def)
qed

lemma top_two_of_sorted:
  fixes f :: "'a \<Rightarrow> rat"
  assumes sorted: "sorted_wrt (\<lambda>p q. f q \<le> f p) zs"
      and ms: "mset (map f zs) = add_mset a (add_mset b M)"
      and ba: "b \<le> a" and Mb: "\<forall>x\<in>#M. x \<le> b"
  shows "\<exists>z1 z2 rest. zs = z1 # z2 # rest \<and> f z1 = a \<and> f z2 = b"
proof -
  have "size (mset (map f zs)) = Suc (Suc (size M))" using ms by simp
  then have len: "length zs = Suc (Suc (size M))" by simp
  then obtain z1 z2 rest where zs: "zs = z1 # z2 # rest"
    by (cases zs; cases "tl zs") auto
  have all_le_a: "\<forall>x\<in>#mset (map f zs). x \<le> a"
    using ms ba Mb by auto
  have "a \<in># mset (map f zs)" using ms by simp
  then obtain z where z: "z \<in> set zs" "f z = a" by auto
  have "f z \<le> f z1" using sorted z(1) zs by auto
  moreover have "f z1 \<le> a" using all_le_a zs by simp
  ultimately have a1: "f z1 = a" using z(2) by simp
  have ms2: "mset (map f (z2 # rest)) = add_mset b M"
    using ms zs a1 by simp
  have "b \<in># mset (map f (z2 # rest))" using ms2 by simp
  then obtain y where y: "y \<in> set (z2 # rest)" "f y = b" by auto
  have "f y \<le> f z2" using sorted y(1) zs by auto
  moreover have "f z2 \<in># add_mset b M" using ms2 by (metis list.set_intros(1) list.simps(9) set_mset_mset union_single_eq_member)
  then have "f z2 \<le> b" using Mb by auto
  ultimately have "f z2 = b" using y(2) by simp
  with zs a1 show ?thesis by blast
qed

lemma scores_no_NaN:
  assumes "\<forall>c\<in>set candidates. \<not> (ni = [] \<and> trim (toLowerCase c) = [])"
  shows "\<forall>p\<in>set (map (\<lambda>c. (c, similarityScore ni (trim (toLowerCase c)))) candidates).
           snd p = Num (scoreValue ni (trim (toLowerCase (fst p))))"
  using assms by (auto simp: similarityScore_formula)

lemma fuzzyMatch_cases:
  "fuzzyMatch input candidates =
     (case sortScores (map (\<lambda>c. (c, similarityScore (trim (toLowerCase input)) (trim (toLowerCase c)))) candidates) of
        [] \<Rightarrow> None
      | [best] \<Rightarrow> Some \<lparr>match = fst best, score = snd best\<rparr>
      | best # secondBest # _ \<Rightarrow>
          if absDiffLess (snd best) (snd secondBest) (5 / 100) then None
          else Some \<lparr>match = fst best, score = snd best\<rparr>)"
proof (cases "candidates = []")
  case True
  then show ?thesis by (simp add: fuzzyMatch_def sortScores_def)
next
  case False
  then show ?thesis by (simp add: fuzzyMatch_def Let_def)
qed

lemma fuzzyMatch_SomeD:
  assumes "fuzzyMatch input candidates = Some m"
  shows "match m \<in> set candidates
       \<and> score m = similarityScore (trim (toLowerCase input)) (trim (toLowerCase (match m)))"
proof -
  let ?scores = "map (\<lambda>c. (c, similarityScore (trim (toLowerCase input)) (trim (toLowerCase c)))) candidates"
  obtain best rest where s: "sortScores ?scores = best # rest" and m: "m = \<lparr>match = fst best, score = snd best\<rparr>"
    using assms unfolding fuzzyMatch_cases
    by (auto split: list.splits if_splits)
  have "best \<in> set (sortScores ?scores)" using s by simp
  then have "best \<in> set ?scores" by (simp only: set_sortScores)
  then show ?thesis using m by auto
qed

lemma fuzzyMatch_ambiguous:
  assumes two: "mset candidates = add_mset c1 (add_mset c2 others)"
      and nn: "\<forall>c\<in>set candidates. \<not> (trim (toLowerCase input) = [] \<and> trim (toLowerCase c) = [])"
      and best: "scoreValue (trim (toLowerCase input)) (trim (toLowerCase c2))
                   \<le> scoreValue (trim (toLowerCase input)) (trim (toLowerCase c1))"
      and rest: "\<forall>c\<in>#others. scoreValue (trim (toLowerCase input)) (trim (toLowerCase c))
                   \<le> scoreValue (trim (toLowerCase input)) (trim (toLowerCase c2))"
      and gap: "absDiffLess (Num (scoreValue (trim (toLowerCase input)) (trim (toLowerCase c1))))
                   (Num (scoreValue (trim (toLowerCase input)) (trim (toLowerCase c2)))) (5 / 100)"
  shows "fuzzyMatch input candidates = None"
proof -
  let ?ni = "trim (toLowerCase input)"
  let ?sv = "\<lambda>c. scoreValue ?ni (trim (toLowerCase c))"
  let ?scores = "map (\<lambda>c. (c, similarityScore ?ni (trim (toLowerCase c)))) candidates"
  let ?f = "\<lambda>p. numOf (snd p)"
  have num: "\<forall>p\<in>set ?scores. snd p = Num (?sv (fst p))"
    using scores_no_NaN[OF nn] .
  then have nonan: "\<forall>p\<in>set ?scores. snd p \<noteq> NaN" by auto
  have sorted: "sorted_wrt (\<lambda>p q. ?f q \<le> ?f p) (sortScores ?scores)"
    using sorted_sortScores[OF nonan] .
  have "map ?f ?scores = map ?sv candidates"
    using nn by (auto simp: similarityScore_formula)
  then have "mset (map ?f (sortScores ?scores)) = image_mset ?sv (mset candidates)"
    by (metis mset_map mset_sortScores)
  then have ms: "mset (map ?f (sortScores ?scores))
      = add_mset (?sv c1) (add_mset (?sv c2) (image_mset ?sv others))"
    using two by simp
  have Mb: "\<forall>x\<in>#image_mset ?sv others. x \<le> ?sv c2" using rest by auto
  obtain z1 z2 zs where zs: "sortScores ?scores = z1 # z2 # zs"
      and z1: "?f z1 = ?sv c1" and z2: "?f z2 = ?sv c2"
    using top_two_of_sorted[OF sorted ms best Mb] by blast
  have "z1 \<in> set ?scores" "z2 \<in> set ?scores"
    using zs set_sortScores[of ?scores] by (metis list.set_intros(1), metis list.set_intros(1,2))
  then have n1: "snd z1 = Num (?sv (fst z1))" and n2: "snd z2 = Num (?sv (fst z2))"
    using num by blast+
  have s1: "snd z1 = Num (?sv c1)" using n1 z1 by simp
  have s2: "snd z2 = Num (?sv c2)" using n2 z2 by simp
  have "absDiffLess (snd z1) (snd z2) (5 / 100)"
    using gap by (simp only: s1 s2)
  then show ?thesis
    unfolding fuzzyMatch_cases zs by simp
qed

section \<open>The resolver\<close>

lemma editDistance_code [code]: "editDistance a b = levenshteinDistance a b"
  by (simp add: levenshteinDistance_editDistance)

lemma find_Some_first:
  assumes "x \<in> set xs" "P x"
  shows "\<exists>y. find P xs = Some y \<and> y \<in> set xs \<and> P y"
  using assms by (induction xs) auto

lemma resolveBoardId_fuzzy_stage:
  assumes allowed: "ensureBoardAllowed allowedBoards boardName = Inr ()"
      and c: "checkBoardCache cache now boardName = (None, c1)"
      and noexact: "\<forall>b\<in>set boards. trim (toLowerCase (name b)) \<noteq> trim (toLowerCase boardName)"
      and ne: "boards \<noteq> []"
  shows "resolveBoardId allowedBoards boardName (Listing boards) cache now later =
     (case fuzzyMatch boardName (map name boards) of
        None \<Rightarrow> (Inl (AmbiguousName (take 10 (map name boards))), c1)
      | Some m \<Rightarrow>
          if numLess (score m) (8 / 10)
          then (Inl (NoConfidentMatch (take 5 (map name boards))), c1)
          else
            case find (\<lambda>b. name b = match m) boards of
              None \<Rightarrow> (Inl TypeError, c1)
            | Some matchedBoard \<Rightarrow>
                (Inr \<lparr>resolvedId = ident matchedBoard, exactMatch = False\<rparr>,
                 map_option (\<lambda>c. setBoardId c later boardName (ident matchedBoard))
                   (c1)))"
proof -
  have f: "find (\<lambda>board. trim (toLowerCase (name board)) = trim (toLowerCase boardName)) boards = None"
    using noexact by (simp add: find_None_iff)
  show ?thesis
    using ne by (simp add: resolveBoardId_def allowed c f Let_def)
qed

lemma resolveBoardId_exact_stage:
  assumes allowed: "ensureBoardAllowed allowedBoards boardName = Inr ()"
      and c: "checkBoardCache cache now boardName = (None, c1)"
      and hit: "find (\<lambda>board. trim (toLowerCase (name board)) = trim (toLowerCase boardName)) boards = Some b"
  shows "resolveBoardId allowedBoards boardName (Listing boards) cache now later =
     (Inr \<lparr>resolvedId = ident b, exactMatch = True\<rparr>,
      map_option (\<lambda>c. setBoardId c later boardName (ident b)) (c1))"
proof -
  have ne: "boards \<noteq> []" using hit by auto
  show ?thesis
    using ne by (simp add: resolveBoardId_def allowed c hit Let_def)
qed

lemma resolveListId_exact_stage:
  assumes c: "checkListCache cache now boardId listName = (None, c1)"
      and hit: "find (\<lambda>l. trim (toLowerCase (name l)) = trim (toLowerCase listName)) ls = Some b"
  shows "resolveListId boardId listName (Listing ls) cache now later =
     (Inr \<lparr>resolvedId = ident b, exactMatch = True\<rparr>,
      map_option (\<lambda>c. setListId c later boardId listName (ident b)) c1)"
proof -
  have ne: "ls \<noteq> []" using hit by auto
  show ?thesis
    using ne by (simp add: resolveListId_def c hit Let_def)
qed

lemma resolveListId_fuzzy_stage:
  assumes c: "checkListCache cache now boardId listName = (None, c1)"
      and noexact: "\<forall>b\<in>set ls. trim (toLowerCase (name b)) \<noteq> trim (toLowerCase listName)"
      and ne: "ls \<noteq> []"
  shows "resolveListId boardId listName (Listing ls) cache now later =
     (case fuzzyMatch listName (map name ls) of
        None \<Rightarrow> (Inl (AmbiguousName (map name ls)), c1)
      | Some m \<Rightarrow>
          if numLess (score m) (8 / 10)
          then (Inl (NoConfidentMatch (map name ls)), c1)
          else
            case find (\<lambda>l. name l = match m) ls of
              None \<Rightarrow> (Inl TypeError, c1)
            | Some matchedList \<Rightarrow>
                (Inr \<lparr>resolvedId = ident matchedList, exactMatch = False\<rparr>,
                 map_option (\<lambda>c. setListId c later boardId listName (ident matchedList)) c1))"
proof -
  have f: "find (\<lambda>l. trim (toLowerCase (name l)) = trim (toLowerCase listName)) ls = None"
    using noexact by (simp add: find_None_iff)
  show ?thesis
    using ne by (simp add: resolveListId_def c f Let_def)
qed

lemma no_exact_no_NaN:
  assumes "\<forall>b\<in>set boards. trim (toLowerCase (name b)) \<noteq> trim (toLowerCase input)"
  shows "\<forall>c\<in>set (map name boards). \<not> (trim (toLowerCase input) = [] \<and> trim (toLowerCase c) = [])"
  using assms by auto

lemma resolveBoardId_error_cases:
  assumes "fst (resolveBoardId allowedBoards boardName response cache now later) = Inl e"
  shows "e = AccessDenied
       \<or> (\<exists>st. response = Failure st \<and> e = UpstreamError st)
       \<or> (response = NonArray \<and> e = NotFoundEmpty)
       \<or> (response = Listing [] \<and> e = NotFoundEmpty)
       \<or> (\<exists>boards. response = Listing boards \<and> boards \<noteq> []
             \<and> fuzzyMatch boardName (map name boards) = None
             \<and> e = AmbiguousName (take 10 (map name boards)))
       \<or> (\<exists>boards m. response = Listing boards \<and> boards \<noteq> []
             \<and> fuzzyMatch boardName (map name boards) = Some m \<and> numLess (score m) (8 / 10)
             \<and> e = NoConfidentMatch (take 5 (map name boards)))
       \<or> (\<exists>boards m. response = Listing boards
             \<and> fuzzyMatch boardName (map name boards) = Some m
             \<and> find (\<lambda>b. name b = match m) boards = None \<and> e = TypeError)"
  using assms
  by (auto simp: resolveBoardId_def ensureBoardAllowed_def Let_def
           split: sum.splits prod.splits option.splits response.splits if_splits)

lemma resolveListId_error_cases:
  assumes "fst (resolveListId boardId listName response cache now later) = Inl e"
  shows "(\<exists>st. response = Failure st \<and> e = UpstreamError st)
       \<or> (response = NonArray \<and> e = NotFoundEmpty)
       \<or> (response = Listing [] \<and> e = NotFoundEmpty)
       \<or> (\<exists>ls. response = Listing ls \<and> ls \<noteq> []
             \<and> fuzzyMatch listName (map name ls) = None
             \<and> e = AmbiguousName (map name ls))
       \<or> (\<exists>ls m. response = Listing ls \<and> ls \<noteq> []
             \<and> fuzzyMatch listName (map name ls) = Some m \<and> numLess (score m) (8 / 10)
             \<and> e = NoConfidentMatch (map name ls))
       \<or> (\<exists>ls m. response = Listing ls
             \<and> fuzzyMatch listName (map name ls) = Some m
             \<and> find (\<lambda>b. name b = match m) ls = None \<and> e = TypeError)"
  using assms
  by (auto simp: resolveListId_def Let_def
           split: sum.splits prod.splits option.splits response.splits if_splits)

lemma resolveBoardId_fuzzy_success:
  assumes res: "resolveBoardId allowedBoards boardName response cache now later
                  = (Inr \<lparr>resolvedId = i, exactMatch = False\<rparr>, cache')"
  shows "\<exists>boards b m. ensureBoardAllowed allowedBoards boardName = Inr ()
          \<and> fst (checkBoardCache cache now boardName) = None
          \<and> response = Listing boards
          \<and> find (\<lambda>board. trim (toLowerCase (name board)) = trim (toLowerCase boardName)) boards = None
          \<and> fuzzyMatch boardName (map name boards) = Some m
          \<and> \<not> numLess (score m) (8 / 10)
          \<and> find (\<lambda>b. name b = match m) boards = Some b
          \<and> i = ident b
          \<and> cache' = map_option (\<lambda>c. setBoardId c later boardName i) (snd (checkBoardCache cache now boardName))"
  using res
  by (auto simp: resolveBoardId_def Let_def
           split: sum.splits prod.splits option.splits response.splits if_splits)

lemma checkBoardCache_Some:
  "snd (checkBoardCache (Some c) now boardName) = Some (snd (getBoardId c now boardName))"
  by (auto simp: checkBoardCache_def split: prod.splits option.splits)

lemma find_SomeD: "find P xs = Some x \<Longrightarrow> x \<in> set xs \<and> P x"
  by (induction xs) (auto split: if_splits)

lemma map_of_setBoardId_other:
  "k \<noteq> trim (toLowerCase boardName) \<Longrightarrow>
     map_of (boardNameToId (setBoardId c T boardName i)) k = map_of (boardNameToId c) k"
  by (simp add: setBoardId_def Let_def update_conv')

lemma resolveBoardId_cache_hit:
  assumes allowed: "ensureBoardAllowed allowedBoards boardName = Inr ()"
      and m: "map_of (boardNameToId c) (trim (toLowerCase boardName)) = Some e"
      and fresh: "rat_of_int (now - timestamp e) < ttlMs c"
      and ne: "entryValue e \<noteq> []"
  shows "resolveBoardId allowedBoards boardName response (Some c) now later
           = (Inr \<lparr>resolvedId = entryValue e, exactMatch = True\<rparr>, Some c)"
proof -
  have "getBoardId c now boardName = (Some (entryValue e), c)"
    by (rule getBoardId_hit[OF m fresh])
  then have "checkBoardCache (Some c) now boardName = (Some (entryValue e), Some c)"
    using ne by (simp add: checkBoardCache_def)
  then show ?thesis by (simp add: resolveBoardId_def allowed)
qed

lemma named_eta: "\<lparr>ident = ident (c :: named), name = name c\<rparr> = c"
  by simp

lemma fallback_success:
  assumes "resolveCardIdFromBoardListing requested listing = Inr r"
  shows "\<exists>cards c. listing = Listing cards \<and> c \<in> set cards
           \<and> cardIdent c = ident r \<and> cardName c = Some (name r)
           \<and> (trim (toLowerCase (name r)) = trim (toLowerCase requested)
                \<or> (find (\<lambda>c. map_option (\<lambda>n. trim (toLowerCase n)) (cardName c)
                               = Some (trim (toLowerCase requested))) cards = None
                    \<and> (\<exists>m :: FuzzyMatch. fuzzyMatch requested (List.map_filter cardName cards) = Some m
                          \<and> match m = name r \<and> numGreaterEq (score m) (9 / 10))))"
proof -
  from assms obtain cards where l: "listing = Listing cards" and ne: "cards \<noteq> []"
    by (auto simp: resolveCardIdFromBoardListing_def split: response.splits if_splits)
  let ?P = "\<lambda>c. map_option (\<lambda>n. trim (toLowerCase n)) (cardName c) = Some (trim (toLowerCase requested))"
  show ?thesis
  proof (cases "find ?P cards")
    case (Some c)
    then have cin: "c \<in> set cards" and pc: "?P c" using find_SomeD[OF Some] by auto
    from pc obtain n where n: "cardName c = Some n" "trim (toLowerCase n) = trim (toLowerCase requested)"
      by (cases "cardName c") auto
    have "r = \<lparr>ident = cardIdent c, name = n\<rparr>"
      using assms l ne Some n by (simp add: resolveCardIdFromBoardListing_def Let_def)
    then show ?thesis using l cin n by auto
  next
    case None
    from assms l ne None
    obtain m :: FuzzyMatch and mc where fm: "fuzzyMatch requested (List.map_filter cardName cards) = Some m"
       and ge: "numGreaterEq (score m) (9 / 10)"
       and f: "find (\<lambda>c. cardName c = Some (match m)) cards = Some mc"
       and r: "r = \<lparr>ident = cardIdent mc, name = match m\<rparr>"
      by (auto simp: resolveCardIdFromBoardListing_def Let_def split: option.splits if_splits)
    have "mc \<in> set cards" "cardName mc = Some (match m)" using find_SomeD[OF f] by auto
    then show ?thesis using l None fm ge r by auto
  qed
qed

lemma fallback_exact:
  assumes cin: "c \<in> set cards" and n: "cardName c = Some n"
      and same: "trim (toLowerCase n) = trim (toLowerCase requested)"
  shows "\<exists>hit h. find (\<lambda>c. map_option (\<lambda>n. trim (toLowerCase n)) (cardName c)
                               = Some (trim (toLowerCase requested))) cards = Some hit
           \<and> cardName hit = Some h \<and> trim (toLowerCase h) = trim (toLowerCase requested)
           \<and> resolveCardIdFromBoardListing requested (Listing cards)
               = Inr \<lparr>ident = cardIdent hit, name = h\<rparr>"
proof -
  let ?P = "\<lambda>c. map_option (\<lambda>n. trim (toLowerCase n)) (cardName c) = Some (trim (toLowerCase requested))"
  have "?P c" using n same by simp
  then obtain hit where hit: "find ?P cards = Some hit" "hit \<in> set cards" "?P hit"
    using find_Some_first[of c cards ?P] cin by blast
  from hit(3) obtain h where h: "cardName hit = Some h" "trim (toLowerCase h) = trim (toLowerCase requested)"
    by (cases "cardName hit") auto
  have ne: "cards \<noteq> []" using cin by auto
  have "resolveCardIdFromBoardListing requested (Listing cards) = Inr \<lparr>ident = cardIdent hit, name = h\<rparr>"
    using ne hit(1) h by (simp add: resolveCardIdFromBoardListing_def Let_def)
  with hit(1) h show ?thesis by blast
qed

lemma fallback_fuzzy:
  assumes noexact: "find (\<lambda>c. map_option (\<lambda>n. trim (toLowerCase n)) (cardName c)
                               = Some (trim (toLowerCase requested))) cards = None"
      and ne: "cards \<noteq> []"
  shows "resolveCardIdFromBoardListing requested (Listing cards) =
     (case fuzzyMatch requested (List.map_filter cardName cards) of
        None \<Rightarrow> Inl CardNotFoundAfterFallback
      | Some m \<Rightarrow>
          if numGreaterEq (score m) (9 / 10)
          then (case find (\<lambda>c. cardName c = Some (match m)) cards of
                  Some matchedCard \<Rightarrow> Inr \<lparr>ident = cardIdent matchedCard, name = match m\<rparr>
                | None \<Rightarrow> Inl CardNotFoundAfterFallback)
          else Inl CardNotFoundAfterFallback)"
  using assms by (simp add: resolveCardIdFromBoardListing_def Let_def)

lemma search_several:
  "resolveCardId requested (SearchResult (Some (c1 # c2 # rest))) listing =
     Inr (case find (\<lambda>c. trim (toLowerCase (name c)) = trim (toLowerCase requested)) (c1 # c2 # rest) of
            Some c \<Rightarrow> c
          | None \<Rightarrow> c1)"
  by (simp add: resolveCardId_def Let_def split: option.splits)

subsection \<open>Ambiguity\<close>

text \<open>
  Claim C1. Let a listing hold at least two entries, none of which equals the requested name
  up to case and surrounding white space, and let \<open>e1\<close> and \<open>e2\<close> be its two best
  entries: no entry scores higher than \<open>e1\<close>, none of the others higher than \<open>e2\<close>. If
  their scores differ by less than 0.05, as the source tests it on the doubles
  (\<open>Math.abs(best.score - secondBest.score) < 0.05\<close>), then \<open>fuzzyMatch\<close> returns no match,
  whatever the best score is, and a resolution that reaches the matcher (for a board: the
  name is allowed; for both: the cache gives no id) fails with \<open>AmbiguousName\<close>: board
  resolution and list resolution alike.
\<close>

theorem ambiguous_names_are_rejected:
  assumes two: "mset listing = add_mset e1 (add_mset e2 others)"
      and noexact: "\<forall>e\<in>set listing. trim (toLowerCase (name e)) \<noteq> trim (toLowerCase requested)"
      and best: "scoreValue (trim (toLowerCase requested)) (trim (toLowerCase (name e2)))
                   \<le> scoreValue (trim (toLowerCase requested)) (trim (toLowerCase (name e1)))"
      and rest: "\<forall>e\<in>#others. scoreValue (trim (toLowerCase requested)) (trim (toLowerCase (name e)))
                   \<le> scoreValue (trim (toLowerCase requested)) (trim (toLowerCase (name e2)))"
      and gap: "absDiffLess
                  (similarityScore (trim (toLowerCase requested)) (trim (toLowerCase (name e1))))
                  (similarityScore (trim (toLowerCase requested)) (trim (toLowerCase (name e2))))
                  (5 / 100)"
  shows "fuzzyMatch requested (map name listing) = None
       \<and> (ensureBoardAllowed allowedBoards requested = Inr ()
            \<longrightarrow> fst (checkBoardCache cache now requested) = None
            \<longrightarrow> fst (resolveBoardId allowedBoards requested (Listing listing) cache now later)
                  = Inl (AmbiguousName (take 10 (map name listing))))
       \<and> (fst (checkListCache cache now boardId requested) = None
            \<longrightarrow> fst (resolveListId boardId requested (Listing listing) cache now later)
                  = Inl (AmbiguousName (map name listing)))"
proof -
  have ne: "listing \<noteq> []" using two by auto
  have e1: "e1 \<in> set listing" and e2: "e2 \<in> set listing"
    using two by (metis insertI1 set_mset_add_mset_insert set_mset_mset,
                  metis insertI1 insertI2 set_mset_add_mset_insert set_mset_mset)
  have nn: "\<forall>c\<in>set (map name listing).
              \<not> (trim (toLowerCase requested) = [] \<and> trim (toLowerCase c) = [])"
    by (rule no_exact_no_NaN[OF noexact])
  have s1: "similarityScore (trim (toLowerCase requested)) (trim (toLowerCase (name e1)))
              = Num (scoreValue (trim (toLowerCase requested)) (trim (toLowerCase (name e1))))"
    using nn e1 by (auto simp: similarityScore_formula)
  have s2: "similarityScore (trim (toLowerCase requested)) (trim (toLowerCase (name e2)))
              = Num (scoreValue (trim (toLowerCase requested)) (trim (toLowerCase (name e2))))"
    using nn e2 by (auto simp: similarityScore_formula)
  have gap': "absDiffLess
                (Num (scoreValue (trim (toLowerCase requested)) (trim (toLowerCase (name e1)))))
                (Num (scoreValue (trim (toLowerCase requested)) (trim (toLowerCase (name e2)))))
                (5 / 100)"
    using gap by (simp only: s1 s2)
  have ms: "mset (map name listing)
              = add_mset (name e1) (add_mset (name e2) (image_mset name others))"
    using two by (metis mset_map image_mset_add_mset)
  have rest': "\<forall>c\<in>#image_mset name others.
       scoreValue (trim (toLowerCase requested)) (trim (toLowerCase c))
         \<le> scoreValue (trim (toLowerCase requested)) (trim (toLowerCase (name e2)))"
    using rest by auto
  have fm: "fuzzyMatch requested (map name listing) = None"
    by (rule fuzzyMatch_ambiguous[OF ms nn best rest' gap'])
  have board: "fst (resolveBoardId allowedBoards requested (Listing listing) cache now later)
                  = Inl (AmbiguousName (take 10 (map name listing)))"
    if allowed: "ensureBoardAllowed allowedBoards requested = Inr ()"
       and miss: "fst (checkBoardCache cache now requested) = None"
  proof -
    have c: "checkBoardCache cache now requested = (None, snd (checkBoardCache cache now requested))"
      using miss by (metis prod.collapse)
    show ?thesis
      using fm resolveBoardId_fuzzy_stage[OF allowed c noexact ne, of later] by simp
  qed
  have lst: "fst (resolveListId boardId requested (Listing listing) cache now later)
                  = Inl (AmbiguousName (map name listing))"
    if miss: "fst (checkListCache cache now boardId requested) = None"
  proof -
    have c: "checkListCache cache now boardId requested
               = (None, snd (checkListCache cache now boardId requested))"
      using miss by (metis prod.collapse)
    show ?thesis
      using fm resolveListId_fuzzy_stage[OF c noexact ne, of later] by simp
  qed
  from fm board lst show ?thesis by (intro conjI impI)
qed

text \<open>
  The theorem at two boards that both score 13/15, above the threshold of 0.8, and at two
  lists that score 0.9 and 0.95, whose difference in doubles is below 0.05: both requests
  are refused.
\<close>

theorem ambiguous_names_are_rejected_witness:
  "fst (resolveBoardId None ''Release Notes''
          (Listing [\<lparr>ident = ''r1'', name = ''Release Notes 1''\<rparr>,
                    \<lparr>ident = ''r2'', name = ''Release Notes 2''\<rparr>]) None 0 0)
     = Inl (AmbiguousName [''Release Notes 1'', ''Release Notes 2''])
   \<and> numGreaterEq (similarityScore (trim (toLowerCase ''Release Notes''))
                     (trim (toLowerCase ''Release Notes 1''))) (8 / 10)
   \<and> fst (resolveListId ''board1'' ''Product Roadmap 2024''
          (Listing [\<lparr>ident = ''l1'', name = ''Product Roadmap 2035''\<rparr>,
                    \<lparr>ident = ''l2'', name = ''Product Roadmap 2025''\<rparr>]) None 0 0)
     = Inl (AmbiguousName [''Product Roadmap 2035'', ''Product Roadmap 2025''])
   \<and> numGreaterEq (similarityScore (trim (toLowerCase ''Product Roadmap 2024''))
                     (trim (toLowerCase ''Product Roadmap 2025''))) (9 / 10)"
proof -
  let ?r1 = "\<lparr>ident = ''r1'', name = ''Release Notes 1''\<rparr>"
  let ?r2 = "\<lparr>ident = ''r2'', name = ''Release Notes 2''\<rparr>"
  let ?l1 = "\<lparr>ident = ''l1'', name = ''Product Roadmap 2035''\<rparr>"
  let ?l2 = "\<lparr>ident = ''l2'', name = ''Product Roadmap 2025''\<rparr>"
  have n1: "trim (toLowerCase ''Release Notes 1'') \<noteq> trim (toLowerCase ''Release Notes'')"
    by code_simp
  have n2: "trim (toLowerCase ''Release Notes 2'') \<noteq> trim (toLowerCase ''Release Notes'')"
    by code_simp
  have noexact: "\<forall>e\<in>set [?r1, ?r2]. trim (toLowerCase (name e)) \<noteq> trim (toLowerCase ''Release Notes'')"
    using n1 n2 by simp
  have two: "mset [?r1, ?r2] = add_mset ?r1 (add_mset ?r2 {#})" by simp
  have best: "scoreValue (trim (toLowerCase ''Release Notes'')) (trim (toLowerCase (name ?r2)))
                \<le> scoreValue (trim (toLowerCase ''Release Notes'')) (trim (toLowerCase (name ?r1)))"
    by code_simp
  have rest: "\<forall>e\<in>#{#}. scoreValue (trim (toLowerCase ''Release Notes'')) (trim (toLowerCase (name e)))
                \<le> scoreValue (trim (toLowerCase ''Release Notes'')) (trim (toLowerCase (name ?r2)))"
    by simp
  have gap: "absDiffLess
               (similarityScore (trim (toLowerCase ''Release Notes'')) (trim (toLowerCase (name ?r1))))
               (similarityScore (trim (toLowerCase ''Release Notes'')) (trim (toLowerCase (name ?r2))))
               (5 / 100)"
    by code_simp
  have allowed: "ensureBoardAllowed None ''Release Notes'' = Inr ()"
    by (simp add: ensureBoardAllowed_def)
  have miss: "fst (checkBoardCache None 0 ''Release Notes'') = None"
    by (simp add: checkBoardCache_def)
  have high: "numGreaterEq (similarityScore (trim (toLowerCase ''Release Notes''))
                     (trim (toLowerCase ''Release Notes 1''))) (8 / 10)"
    by code_simp
  have m1: "trim (toLowerCase ''Product Roadmap 2035'') \<noteq> trim (toLowerCase ''Product Roadmap 2024'')"
    by code_simp
  have m2: "trim (toLowerCase ''Product Roadmap 2025'') \<noteq> trim (toLowerCase ''Product Roadmap 2024'')"
    by code_simp
  have noexact': "\<forall>e\<in>set [?l1, ?l2]. trim (toLowerCase (name e)) \<noteq> trim (toLowerCase ''Product Roadmap 2024'')"
    using m1 m2 by simp
  have two': "mset [?l1, ?l2] = add_mset ?l2 (add_mset ?l1 {#})" by simp
  have best': "scoreValue (trim (toLowerCase ''Product Roadmap 2024'')) (trim (toLowerCase (name ?l1)))
                \<le> scoreValue (trim (toLowerCase ''Product Roadmap 2024'')) (trim (toLowerCase (name ?l2)))"
    by code_simp
  have rest': "\<forall>e\<in>#{#}. scoreValue (trim (toLowerCase ''Product Roadmap 2024'')) (trim (toLowerCase (name e)))
                \<le> scoreValue (trim (toLowerCase ''Product Roadmap 2024'')) (trim (toLowerCase (name ?l1)))"
    by simp
  have gap': "absDiffLess
               (similarityScore (trim (toLowerCase ''Product Roadmap 2024'')) (trim (toLowerCase (name ?l2))))
               (similarityScore (trim (toLowerCase ''Product Roadmap 2024'')) (trim (toLowerCase (name ?l1))))
               (5 / 100)"
    by code_simp
  have lmiss: "fst (checkListCache None 0 ''board1'' ''Product Roadmap 2024'') = None"
    by (simp add: checkListCache_def)
  have high': "numGreaterEq (similarityScore (trim (toLowerCase ''Product Roadmap 2024''))
                     (trim (toLowerCase ''Product Roadmap 2025''))) (9 / 10)"
    by code_simp
  note b = ambiguous_names_are_rejected[OF two noexact best rest gap,
      where allowedBoards = None and cache = None and now = 0 and later = 0 and boardId = "''board1''"]
  note l = ambiguous_names_are_rejected[OF two' noexact' best' rest' gap',
      where allowedBoards = None and cache = None and now = 0 and later = 0 and boardId = "''board1''"]
  have 1: "fst (resolveBoardId None ''Release Notes'' (Listing [?r1, ?r2]) None 0 0)
          = Inl (AmbiguousName (take 10 (map name [?r1, ?r2])))"
    using b allowed miss by blast
  have 2: "fst (resolveListId ''board1'' ''Product Roadmap 2024'' (Listing [?l1, ?l2]) None 0 0)
          = Inl (AmbiguousName (map name [?l1, ?l2]))"
    using l lmiss by blast
  from 1 2 high high' show ?thesis by simp
qed

subsection \<open>The score of a string with itself\<close>

text \<open>
  Claim C2. By \<open>similarityScore_formula\<close> the score is one minus the edit distance of the
  lower-cased strings over the greater length (quotient and difference as doubles compute
  them) whenever the two strings are not both empty, and by \<open>similarityScore_same\<close> a
  non-empty string scores 1 against itself; \<open>fuzzyMatch\<close> passes trimmed, lower-cased
  strings. For two empty strings the quotient is \<open>0 / 0\<close>: the
  score is \<open>NaN\<close>, not 1, and \<open>fuzzyMatch\<close> returns a match with that score.
\<close>

theorem similarity_of_empty_strings_is_NaN:
  "similarityScore [] [] = NaN
   \<and> fuzzyMatch [] [[]] = Some \<lparr>match = [], score = NaN\<rparr>"
proof -
  have a: "similarityScore [] [] = NaN" by (simp add: similarityScore_def)
  have b: "fuzzyMatch [] [[]] = Some \<lparr>match = [], score = NaN\<rparr>" by code_simp
  from a b show ?thesis by (intro conjI)
qed

subsection \<open>Exact matches\<close>

text \<open>
  Claim C3. If the listing contains an entry \<open>b\<close> whose name equals the requested name up
  to case and surrounding white space, then the first such entry \<open>hit\<close> exists (it is \<open>b\<close>
  when \<open>b\<close> is the only one), and once the listing is reached (board allowed, no id from
  the cache) \<open>resolveBoardId\<close> and \<open>resolveListId\<close> return its id with
  \<open>exactMatch = true\<close> and store it in the cache, whatever else the listing holds: the
  result does not depend on any score.
\<close>

theorem exact_match_short_circuits:
  assumes inlist: "b \<in> set listing"
      and same: "trim (toLowerCase (name b)) = trim (toLowerCase requested)"
  shows "\<exists>hit. find (\<lambda>x. trim (toLowerCase (name x)) = trim (toLowerCase requested)) listing = Some hit
           \<and> hit \<in> set listing
           \<and> trim (toLowerCase (name hit)) = trim (toLowerCase requested)
           \<and> ((\<forall>x\<in>set listing. trim (toLowerCase (name x)) = trim (toLowerCase requested) \<longrightarrow> x = b)
                 \<longrightarrow> hit = b)
           \<and> (ensureBoardAllowed allowedBoards requested = Inr ()
                 \<longrightarrow> fst (checkBoardCache cache now requested) = None
                 \<longrightarrow> resolveBoardId allowedBoards requested (Listing listing) cache now later
                       = (Inr \<lparr>resolvedId = ident hit, exactMatch = True\<rparr>,
                          map_option (\<lambda>c. setBoardId c later requested (ident hit))
                            (snd (checkBoardCache cache now requested))))
           \<and> (fst (checkListCache cache now boardId requested) = None
                 \<longrightarrow> resolveListId boardId requested (Listing listing) cache now later
                       = (Inr \<lparr>resolvedId = ident hit, exactMatch = True\<rparr>,
                          map_option (\<lambda>c. setListId c later boardId requested (ident hit))
                            (snd (checkListCache cache now boardId requested))))"
proof -
  obtain hit where hit: "find (\<lambda>x. trim (toLowerCase (name x)) = trim (toLowerCase requested)) listing = Some hit"
      and hin: "hit \<in> set listing" and hsame: "trim (toLowerCase (name hit)) = trim (toLowerCase requested)"
    using find_Some_first[of b listing "\<lambda>x. trim (toLowerCase (name x)) = trim (toLowerCase requested)"]
          inlist same by blast
  have board: "resolveBoardId allowedBoards requested (Listing listing) cache now later
                 = (Inr \<lparr>resolvedId = ident hit, exactMatch = True\<rparr>,
                    map_option (\<lambda>c. setBoardId c later requested (ident hit))
                      (snd (checkBoardCache cache now requested)))"
    if "ensureBoardAllowed allowedBoards requested = Inr ()"
       "fst (checkBoardCache cache now requested) = None"
  proof -
    have c: "checkBoardCache cache now requested = (None, snd (checkBoardCache cache now requested))"
      using that(2) by (metis prod.collapse)
    show ?thesis by (rule resolveBoardId_exact_stage[OF that(1) c hit])
  qed
  have lst: "resolveListId boardId requested (Listing listing) cache now later
                 = (Inr \<lparr>resolvedId = ident hit, exactMatch = True\<rparr>,
                    map_option (\<lambda>c. setListId c later boardId requested (ident hit))
                      (snd (checkListCache cache now boardId requested)))"
    if "fst (checkListCache cache now boardId requested) = None"
  proof -
    have c: "checkListCache cache now boardId requested = (None, snd (checkListCache cache now boardId requested))"
      using that by (metis prod.collapse)
    show ?thesis by (rule resolveListId_exact_stage[OF c hit])
  qed
  show ?thesis
    using hit hin hsame board lst by (intro exI[of _ hit]) blast
qed

text \<open>
  The theorem at the listings \<open>["Dev", "Devs"]\<close> for the request \<open>"Dev"\<close> and
  \<open>["Markting", " MARKETING "]\<close> for the request \<open>"Marketing"\<close>.
\<close>

theorem exact_match_short_circuits_witness:
  "resolveListId ''board1'' ''Dev'' (Listing [\<lparr>ident = ''l1'', name = ''Dev''\<rparr>, \<lparr>ident = ''l2'', name = ''Devs''\<rparr>])
       None 0 0
     = (Inr \<lparr>resolvedId = ''l1'', exactMatch = True\<rparr>, None)
   \<and> resolveBoardId None ''Marketing''
        (Listing [\<lparr>ident = ''m2'', name = ''Markting''\<rparr>, \<lparr>ident = ''m1'', name = '' MARKETING ''\<rparr>]) None 0 0
     = (Inr \<lparr>resolvedId = ''m1'', exactMatch = True\<rparr>, None)"
proof -
  let ?dev = "\<lparr>ident = ''l1'', name = ''Dev''\<rparr>"
  let ?devs = "\<lparr>ident = ''l2'', name = ''Devs''\<rparr>"
  let ?mkt = "\<lparr>ident = ''m1'', name = '' MARKETING ''\<rparr>"
  let ?mrk = "\<lparr>ident = ''m2'', name = ''Markting''\<rparr>"
  have d1: "trim (toLowerCase (name ?dev)) = trim (toLowerCase ''Dev'')" by simp
  have d2: "trim (toLowerCase ''Devs'') \<noteq> trim (toLowerCase ''Dev'')" by code_simp
  have m1: "trim (toLowerCase '' MARKETING '') = trim (toLowerCase ''Marketing'')" by code_simp
  have m2: "trim (toLowerCase ''Markting'') \<noteq> trim (toLowerCase ''Marketing'')" by code_simp
  have lmiss: "fst (checkListCache None 0 ''board1'' ''Dev'') = None"
    by (simp add: checkListCache_def)
  have bmiss: "fst (checkBoardCache None 0 ''Marketing'') = None"
    by (simp add: checkBoardCache_def)
  have sl: "snd (checkListCache None 0 ''board1'' ''Dev'') = None"
    by (simp add: checkListCache_def)
  have sb: "snd (checkBoardCache None 0 ''Marketing'') = None"
    by (simp add: checkBoardCache_def)
  have allowed: "ensureBoardAllowed None ''Marketing'' = Inr ()"
    by (simp add: ensureBoardAllowed_def)
  have ul: "\<forall>x\<in>set [?dev, ?devs]. trim (toLowerCase (name x)) = trim (toLowerCase ''Dev'') \<longrightarrow> x = ?dev"
    using d2 by simp
  have ub: "\<forall>x\<in>set [?mrk, ?mkt]. trim (toLowerCase (name x)) = trim (toLowerCase ''Marketing'') \<longrightarrow> x = ?mkt"
    using m2 by simp
  have "resolveListId ''board1'' ''Dev'' (Listing [?dev, ?devs]) None 0 0
          = (Inr \<lparr>resolvedId = ''l1'', exactMatch = True\<rparr>, None)"
    using exact_match_short_circuits[of ?dev "[?dev, ?devs]" "''Dev''" None None 0 0 "''board1''", OF _ d1]
          ul lmiss sl by auto
  moreover have "resolveBoardId None ''Marketing'' (Listing [?mrk, ?mkt]) None 0 0
          = (Inr \<lparr>resolvedId = ''m1'', exactMatch = True\<rparr>, None)"
    using exact_match_short_circuits[of ?mkt "[?mrk, ?mkt]" "''Marketing''" None None 0 0 "''board1''"]
          m1 ub bmiss sb allowed by auto
  ultimately show ?thesis by (intro conjI)
qed

subsection \<open>The candidates a failure names\<close>

text \<open>
  Claim C5. A resolution failure is to name the nearest candidates, at most five of them
  when the best score is below 0.8. On a board with the six lists To Do, Doing, Done,
  Blocked, Icebox and Review, the request \<open>Revi\<close> has \<open>Review\<close> as its best match, at a score
  below 0.8. \<open>resolveListId\<close> fails with \<open>NoConfidentMatch\<close> and names all six lists: its
  message joins \<open>listNames\<close> whole, where \<open>resolveBoardId\<close> takes \<open>slice(0, 5)\<close>. On the
  same six names \<open>resolveBoardId\<close> names five, which are the first five of the listing and
  not the five nearest: the best match is not among them.
\<close>

theorem list_failure_names_every_list:
  "fst (resolveListId ''b'' ''Revi''
         (Listing [\<lparr>ident = ''1'', name = ''To Do''\<rparr>, \<lparr>ident = ''2'', name = ''Doing''\<rparr>,
                   \<lparr>ident = ''3'', name = ''Done''\<rparr>, \<lparr>ident = ''4'', name = ''Blocked''\<rparr>,
                   \<lparr>ident = ''5'', name = ''Icebox''\<rparr>, \<lparr>ident = ''6'', name = ''Review''\<rparr>]) None 0 0)
     = Inl (NoConfidentMatch [''To Do'', ''Doing'', ''Done'', ''Blocked'', ''Icebox'', ''Review''])
   \<and> length [''To Do'', ''Doing'', ''Done'', ''Blocked'', ''Icebox'', ''Review''] = 6
   \<and> fst (resolveBoardId None ''Revi''
         (Listing [\<lparr>ident = ''1'', name = ''To Do''\<rparr>, \<lparr>ident = ''2'', name = ''Doing''\<rparr>,
                   \<lparr>ident = ''3'', name = ''Done''\<rparr>, \<lparr>ident = ''4'', name = ''Blocked''\<rparr>,
                   \<lparr>ident = ''5'', name = ''Icebox''\<rparr>, \<lparr>ident = ''6'', name = ''Review''\<rparr>]) None 0 0)
     = Inl (NoConfidentMatch [''To Do'', ''Doing'', ''Done'', ''Blocked'', ''Icebox''])
   \<and> map_option match
         (fuzzyMatch ''Revi'' [''To Do'', ''Doing'', ''Done'', ''Blocked'', ''Icebox'', ''Review''])
     = Some ''Review''
   \<and> ''Review'' \<notin> set [''To Do'', ''Doing'', ''Done'', ''Blocked'', ''Icebox'']"
proof -
  have l: "fst (resolveListId ''b'' ''Revi''
         (Listing [\<lparr>ident = ''1'', name = ''To Do''\<rparr>, \<lparr>ident = ''2'', name = ''Doing''\<rparr>,
                   \<lparr>ident = ''3'', name = ''Done''\<rparr>, \<lparr>ident = ''4'', name = ''Blocked''\<rparr>,
                   \<lparr>ident = ''5'', name = ''Icebox''\<rparr>, \<lparr>ident = ''6'', name = ''Review''\<rparr>]) None 0 0)
     = Inl (NoConfidentMatch [''To Do'', ''Doing'', ''Done'', ''Blocked'', ''Icebox'', ''Review''])"
    by code_simp
  have b: "fst (resolveBoardId None ''Revi''
         (Listing [\<lparr>ident = ''1'', name = ''To Do''\<rparr>, \<lparr>ident = ''2'', name = ''Doing''\<rparr>,
                   \<lparr>ident = ''3'', name = ''Done''\<rparr>, \<lparr>ident = ''4'', name = ''Blocked''\<rparr>,
                   \<lparr>ident = ''5'', name = ''Icebox''\<rparr>, \<lparr>ident = ''6'', name = ''Review''\<rparr>]) None 0 0)
     = Inl (NoConfidentMatch [''To Do'', ''Doing'', ''Done'', ''Blocked'', ''Icebox''])"
    by code_simp
  have m: "map_option match
         (fuzzyMatch ''Revi'' [''To Do'', ''Doing'', ''Done'', ''Blocked'', ''Icebox'', ''Review''])
     = Some ''Review''"
    by code_simp
  have n: "''Review'' \<notin> set [''To Do'', ''Doing'', ''Done'', ''Blocked'', ''Icebox'']"
    by simp
  from l b m n show ?thesis by simp
qed


subsection \<open>What a fuzzy match leaves in the cache\<close>

text \<open>
  Claim C9. If board resolution with a cache returns an id with \<open>exactMatch = false\<close>,
  then the id is that of a board \<open>b\<close> of the listing whose name does not equal the request
  up to case and white space; the cache returned is the cache as the read left it with one
  entry written: the normal form of the requested name maps to the id, stamped with the
  time of the write, and the entry under the normal form of the name of \<open>b\<close> is as it
  was. Consequently, for a non-empty id (the empty string is falsy and never counts as a
  cached id), every later resolution of the same name before the entry is \<open>ttlMs\<close> old
  returns the id with \<open>exactMatch = true\<close>, whatever the upstream then answers, and leaves
  the cache as it is.
\<close>

theorem fuzzy_match_is_cached_under_requested_name:
  assumes res: "resolveBoardId allowedBoards boardName response (Some cache) now later
                  = (Inr \<lparr>resolvedId = i, exactMatch = False\<rparr>, cache')"
  shows "\<exists>boards b stored.
           response = Listing boards \<and> b \<in> set boards \<and> ident b = i
         \<and> trim (toLowerCase (name b)) \<noteq> trim (toLowerCase boardName)
         \<and> stored = setBoardId (snd (getBoardId cache now boardName)) later boardName i
         \<and> cache' = Some stored
         \<and> map_of (boardNameToId stored) (trim (toLowerCase boardName))
             = Some \<lparr>entryValue = i, timestamp = later\<rparr>
         \<and> map_of (boardNameToId stored) (trim (toLowerCase (name b)))
             = map_of (boardNameToId (snd (getBoardId cache now boardName))) (trim (toLowerCase (name b)))
         \<and> (i \<noteq> [] \<longrightarrow>
              (\<forall>now2 later2 response2. rat_of_int (now2 - later) < ttlMs cache \<longrightarrow>
                 resolveBoardId allowedBoards boardName response2 cache' now2 later2
                   = (Inr \<lparr>resolvedId = i, exactMatch = True\<rparr>, cache')))"
proof -
  obtain boards b and m :: FuzzyMatch where allowed: "ensureBoardAllowed allowedBoards boardName = Inr ()"
      and resp: "response = Listing boards"
      and noexact: "find (\<lambda>board. trim (toLowerCase (name board)) = trim (toLowerCase boardName)) boards = None"
      and fb: "find (\<lambda>b. name b = match m) boards = Some b"
      and i: "i = ident b"
      and c': "cache' = map_option (\<lambda>c. setBoardId c later boardName i)
                          (snd (checkBoardCache (Some cache) now boardName))"
    using resolveBoardId_fuzzy_success[OF res] by blast
  let ?c1 = "snd (getBoardId cache now boardName)"
  let ?stored = "setBoardId ?c1 later boardName i"
  have bin: "b \<in> set boards" using find_SomeD[OF fb] by simp
  have differs: "trim (toLowerCase (name b)) \<noteq> trim (toLowerCase boardName)"
    using noexact bin by (auto simp: find_None_iff)
  have cs: "cache' = Some ?stored"
    using c' by (simp add: checkBoardCache_Some)
  have key: "map_of (boardNameToId ?stored) (trim (toLowerCase boardName))
             = Some \<lparr>entryValue = i, timestamp = later\<rparr>"
    by (rule boardNameToId_setBoardId)
  have other: "map_of (boardNameToId ?stored) (trim (toLowerCase (name b)))
             = map_of (boardNameToId ?c1) (trim (toLowerCase (name b)))"
    by (rule map_of_setBoardId_other[OF differs])
  have ttl: "ttlMs ?stored = ttlMs cache"
    by (simp add: ttlMs_setBoardId ttlMs_getBoardId)
  have again: "resolveBoardId allowedBoards boardName response2 cache' now2 later2
                   = (Inr \<lparr>resolvedId = i, exactMatch = True\<rparr>, cache')"
    if "i \<noteq> []" "rat_of_int (now2 - later) < ttlMs cache" for now2 later2 response2
    using resolveBoardId_cache_hit[OF allowed key, of now2 response2 later2] that ttl cs
    by simp
  have last: "i \<noteq> [] \<longrightarrow>
              (\<forall>now2 later2 response2. rat_of_int (now2 - later) < ttlMs cache \<longrightarrow>
                 resolveBoardId allowedBoards boardName response2 cache' now2 later2
                   = (Inr \<lparr>resolvedId = i, exactMatch = True\<rparr>, cache'))"
    using again by (intro impI allI)
  have i': "ident b = i" using i by simp
  show ?thesis
    by (intro exI[of _ boards] exI[of _ b] exI[of _ ?stored] conjI
              resp bin i' differs refl cs key other last)
qed

text \<open>
  The theorem at the listing \<open>["Marketing"]\<close> and the misspelt request \<open>"Markting"\<close>
  with a cache of five minutes: the entry is written under \<open>"markting"\<close>, none under
  \<open>"marketing"\<close>, and a second resolution 299999 ms later is served from the cache though
  the upstream fails.
\<close>

theorem fuzzy_match_is_cached_under_requested_name_witness:
  "resolveBoardId None ''Markting'' (Listing [\<lparr>ident = ''b1'', name = ''Marketing''\<rparr>])
       (Some (newTrelloCache 5)) 0 10
     = (Inr \<lparr>resolvedId = ''b1'', exactMatch = False\<rparr>,
        Some (setBoardId (newTrelloCache 5) 10 ''Markting'' ''b1''))
   \<and> map_of (boardNameToId (setBoardId (newTrelloCache 5) 10 ''Markting'' ''b1'')) ''markting''
       = Some \<lparr>entryValue = ''b1'', timestamp = 10\<rparr>
   \<and> map_of (boardNameToId (setBoardId (newTrelloCache 5) 10 ''Markting'' ''b1'')) ''marketing'' = None
   \<and> resolveBoardId None ''Markting'' (Failure ''offline'')
        (Some (setBoardId (newTrelloCache 5) 10 ''Markting'' ''b1'')) 300009 300020
     = (Inr \<lparr>resolvedId = ''b1'', exactMatch = True\<rparr>,
        Some (setBoardId (newTrelloCache 5) 10 ''Markting'' ''b1''))"
proof -
  let ?stored = "setBoardId (newTrelloCache 5) 10 ''Markting'' ''b1''"
  have first: "resolveBoardId None ''Markting'' (Listing [\<lparr>ident = ''b1'', name = ''Marketing''\<rparr>])
       (Some (newTrelloCache 5)) 0 10
     = (Inr \<lparr>resolvedId = ''b1'', exactMatch = False\<rparr>, Some ?stored)"
    by code_simp
  have k1: "map_of (boardNameToId ?stored) ''markting'' = Some \<lparr>entryValue = ''b1'', timestamp = 10\<rparr>"
    by code_simp
  have k2: "map_of (boardNameToId ?stored) ''marketing'' = None"
    by code_simp
  have fresh: "rat_of_int (300009 - 10) < ttlMs (newTrelloCache 5)"
    by (simp add: newTrelloCache_def)
  have imp: "''b1'' \<noteq> [] \<longrightarrow>
              (\<forall>now2 later2 response2. rat_of_int (now2 - 10) < ttlMs (newTrelloCache 5) \<longrightarrow>
                 resolveBoardId None ''Markting'' response2 (Some ?stored) now2 later2
                   = (Inr \<lparr>resolvedId = ''b1'', exactMatch = True\<rparr>, Some ?stored))"
    using fuzzy_match_is_cached_under_requested_name[OF first]
    apply (elim exE conjE)
    apply assumption
    done
  have ne: "''b1'' \<noteq> []" by simp
  have again: "resolveBoardId None ''Markting'' (Failure ''offline'') (Some ?stored) 300009 300020
     = (Inr \<lparr>resolvedId = ''b1'', exactMatch = True\<rparr>, Some ?stored)"
    by (rule imp[rule_format, OF ne fresh])
  from first k1 k2 again show ?thesis by (intro conjI)
qed

subsection \<open>Card resolution\<close>

text \<open>
  Claim C6. A search without results (no \<open>cards\<close> or an empty array) is answered by the
  fallback over the listing. The fallback returns the first card whose name equals the
  request up to case and white space if there is one; otherwise it accepts the match of
  \<open>fuzzyMatch\<close> if its score is at least 0.9 and fails if there is no match or a lower
  score. So whatever it returns is a card of the listing that matches exactly, or matches
  fuzzily with a score of at least 0.9 when no card matches exactly. A search with one
  result returns it; a search with several results returns the first whose name equals the
  request up to case and white space, and the first result when none does.
\<close>

theorem card_resolution_paths:
  "resolveCardId requested (SearchResult None) listing = resolveCardIdFromBoardListing requested listing
   \<and> resolveCardId requested (SearchResult (Some [])) listing
       = resolveCardIdFromBoardListing requested listing
   \<and> (\<forall>c n. c \<in> set cards \<and> cardName c = Some n
               \<and> trim (toLowerCase n) = trim (toLowerCase requested) \<longrightarrow>
          (\<exists>hit h. find (\<lambda>c. map_option (\<lambda>n. trim (toLowerCase n)) (cardName c)
                               = Some (trim (toLowerCase requested))) cards = Some hit
             \<and> cardName hit = Some h \<and> trim (toLowerCase h) = trim (toLowerCase requested)
             \<and> resolveCardIdFromBoardListing requested (Listing cards)
                 = Inr \<lparr>ident = cardIdent hit, name = h\<rparr>))
   \<and> (find (\<lambda>c. map_option (\<lambda>n. trim (toLowerCase n)) (cardName c)
                   = Some (trim (toLowerCase requested))) cards = None \<and> cards \<noteq> [] \<longrightarrow>
        resolveCardIdFromBoardListing requested (Listing cards) =
          (case fuzzyMatch requested (List.map_filter cardName cards) of
             None \<Rightarrow> Inl CardNotFoundAfterFallback
           | Some m \<Rightarrow>
               if numGreaterEq (score m) (9 / 10)
               then (case find (\<lambda>c. cardName c = Some (match m)) cards of
                       Some matchedCard \<Rightarrow> Inr \<lparr>ident = cardIdent matchedCard, name = match m\<rparr>
                     | None \<Rightarrow> Inl CardNotFoundAfterFallback)
               else Inl CardNotFoundAfterFallback))
   \<and> (\<forall>r. resolveCardIdFromBoardListing requested listing = Inr r \<longrightarrow>
          (\<exists>cs c. listing = Listing cs \<and> c \<in> set cs
             \<and> cardIdent c = ident r \<and> cardName c = Some (name r)
             \<and> (trim (toLowerCase (name r)) = trim (toLowerCase requested)
                  \<or> (find (\<lambda>c. map_option (\<lambda>n. trim (toLowerCase n)) (cardName c)
                               = Some (trim (toLowerCase requested))) cs = None
                      \<and> (\<exists>m :: FuzzyMatch. fuzzyMatch requested (List.map_filter cardName cs) = Some m
                            \<and> match m = name r \<and> numGreaterEq (score m) (9 / 10))))))
   \<and> resolveCardId requested (SearchResult (Some [only])) listing = Inr only
   \<and> resolveCardId requested (SearchResult (Some (c1 # c2 # rest))) listing =
        Inr (case find (\<lambda>c. trim (toLowerCase (name c)) = trim (toLowerCase requested)) (c1 # c2 # rest) of
               Some c \<Rightarrow> c
             | None \<Rightarrow> c1)"
proof (intro conjI allI impI)
  show "resolveCardId requested (SearchResult None) listing = resolveCardIdFromBoardListing requested listing"
    by (simp add: resolveCardId_def)
  show "resolveCardId requested (SearchResult (Some [])) listing = resolveCardIdFromBoardListing requested listing"
    by (simp add: resolveCardId_def)
  show "resolveCardId requested (SearchResult (Some [only])) listing = Inr only"
    by (simp add: resolveCardId_def)
  show "resolveCardId requested (SearchResult (Some (c1 # c2 # rest))) listing =
        Inr (case find (\<lambda>c. trim (toLowerCase (name c)) = trim (toLowerCase requested)) (c1 # c2 # rest) of
               Some c \<Rightarrow> c
             | None \<Rightarrow> c1)"
    by (rule search_several)
next
  fix c n
  assume "c \<in> set cards \<and> cardName c = Some n \<and> trim (toLowerCase n) = trim (toLowerCase requested)"
  then show "\<exists>hit h. find (\<lambda>c. map_option (\<lambda>n. trim (toLowerCase n)) (cardName c)
                               = Some (trim (toLowerCase requested))) cards = Some hit
             \<and> cardName hit = Some h \<and> trim (toLowerCase h) = trim (toLowerCase requested)
             \<and> resolveCardIdFromBoardListing requested (Listing cards)
                 = Inr \<lparr>ident = cardIdent hit, name = h\<rparr>"
    using fallback_exact[of c cards n requested] by blast
next
  assume "find (\<lambda>c. map_option (\<lambda>n. trim (toLowerCase n)) (cardName c)
                   = Some (trim (toLowerCase requested))) cards = None \<and> cards \<noteq> []"
  then show "resolveCardIdFromBoardListing requested (Listing cards) =
          (case fuzzyMatch requested (List.map_filter cardName cards) of
             None \<Rightarrow> Inl CardNotFoundAfterFallback
           | Some m \<Rightarrow>
               if numGreaterEq (score m) (9 / 10)
               then (case find (\<lambda>c. cardName c = Some (match m)) cards of
                       Some matchedCard \<Rightarrow> Inr \<lparr>ident = cardIdent matchedCard, name = match m\<rparr>
                     | None \<Rightarrow> Inl CardNotFoundAfterFallback)
               else Inl CardNotFoundAfterFallback)"
    using fallback_fuzzy[of requested cards] by blast
next
  fix r
  assume "resolveCardIdFromBoardListing requested listing = Inr r"
  then show "\<exists>cs c. listing = Listing cs \<and> c \<in> set cs
             \<and> cardIdent c = ident r \<and> cardName c = Some (name r)
             \<and> (trim (toLowerCase (name r)) = trim (toLowerCase requested)
                  \<or> (find (\<lambda>c. map_option (\<lambda>n. trim (toLowerCase n)) (cardName c)
                               = Some (trim (toLowerCase requested))) cs = None
                      \<and> (\<exists>m :: FuzzyMatch. fuzzyMatch requested (List.map_filter cardName cs) = Some m
                            \<and> match m = name r \<and> numGreaterEq (score m) (9 / 10))))"
    by (rule fallback_success)
qed

text \<open>
  The theorem at four inputs: an empty search with a fallback card 13/14 similar is
  accepted; an empty search with a fallback card 8/9 similar (which board resolution would
  accept) fails; of two search results the exactly matching second one is returned; of two
  search results that do not match exactly the first is returned.
\<close>

theorem card_resolution_paths_witness:
  "resolveCardId ''Fix login bug'' (SearchResult (Some []))
       (Listing [\<lparr>cardIdent = ''c0'', cardName = None\<rparr>,
                 \<lparr>cardIdent = ''c1'', cardName = Some ''Fix login bugs''\<rparr>])
     = Inr \<lparr>ident = ''c1'', name = ''Fix login bugs''\<rparr>
   \<and> resolveCardId ''Markting'' (SearchResult None)
       (Listing [\<lparr>cardIdent = ''c1'', cardName = Some ''Marketing''\<rparr>])
     = Inl CardNotFoundAfterFallback
   \<and> resolveCardId ''deploy''
       (SearchResult (Some [\<lparr>ident = ''a'', name = ''Deploy app''\<rparr>, \<lparr>ident = ''b'', name = '' Deploy ''\<rparr>]))
       NonArray
     = Inr \<lparr>ident = ''b'', name = '' Deploy ''\<rparr>
   \<and> resolveCardId ''release''
       (SearchResult (Some [\<lparr>ident = ''a'', name = ''Deploy app''\<rparr>, \<lparr>ident = ''b'', name = '' Deploy ''\<rparr>]))
       NonArray
     = Inr \<lparr>ident = ''a'', name = ''Deploy app''\<rparr>"
proof -
  let ?l1 = "Listing [\<lparr>cardIdent = ''c0'', cardName = None\<rparr>,
                 \<lparr>cardIdent = ''c1'', cardName = Some ''Fix login bugs''\<rparr>]"
  let ?l2 = "Listing [\<lparr>cardIdent = ''c1'', cardName = Some ''Marketing''\<rparr>]"
  let ?a = "\<lparr>ident = ''a'', name = ''Deploy app''\<rparr>"
  let ?b = "\<lparr>ident = ''b'', name = '' Deploy ''\<rparr>"
  have f1: "resolveCardIdFromBoardListing ''Fix login bug'' ?l1 = Inr \<lparr>ident = ''c1'', name = ''Fix login bugs''\<rparr>"
    by code_simp
  have f2: "resolveCardIdFromBoardListing ''Markting'' ?l2 = Inl CardNotFoundAfterFallback"
    by code_simp
  have g1: "find (\<lambda>c. trim (toLowerCase (name c)) = trim (toLowerCase ''deploy'')) [?a, ?b] = Some ?b"
    by code_simp
  have g2: "find (\<lambda>c. trim (toLowerCase (name c)) = trim (toLowerCase ''release'')) [?a, ?b] = None"
    by code_simp
  have 1: "resolveCardId ''Fix login bug'' (SearchResult (Some [])) ?l1 = Inr \<lparr>ident = ''c1'', name = ''Fix login bugs''\<rparr>"
    using card_resolution_paths[of "''Fix login bug''" ?l1] f1 by simp
  have 2: "resolveCardId ''Markting'' (SearchResult None) ?l2 = Inl CardNotFoundAfterFallback"
    using card_resolution_paths[of "''Markting''" ?l2] f2 by simp
  have 3: "resolveCardId ''deploy'' (SearchResult (Some [?a, ?b])) NonArray = Inr ?b"
    using card_resolution_paths[of "''deploy''" NonArray _ _ ?a ?b "[]"] g1 by simp
  have 4: "resolveCardId ''release'' (SearchResult (Some [?a, ?b])) NonArray = Inr ?a"
    using card_resolution_paths[of "''release''" NonArray _ _ ?a ?b "[]"] g2 by simp
  from 1 2 3 4 show ?thesis by (intro conjI)
qed

section \<open>When the normalizer throws\<close>

lemma mapE_Inr_iff:
  "(\<exists>ys. mapE f xs = Inr ys) \<longleftrightarrow> (\<forall>x\<in>set xs. \<exists>y. f x = Inr y)"
  by (induction xs) (auto split: sum.splits)

lemma mapE_Inr_length: "mapE f xs = Inr ys \<Longrightarrow> length ys = length xs"
  by (induction xs arbitrary: ys) (auto split: sum.splits)

lemma mapE_Inr_nth:
  "mapE f xs = Inr ys \<Longrightarrow> i < length xs \<Longrightarrow> f (xs ! i) = Inr (ys ! i)"
proof (induction xs arbitrary: ys i)
  case Nil then show ?case by simp
next
  case (Cons x xs)
  then show ?case by (cases i) (auto split: sum.splits)
qed

lemma mapE_error: "(\<And>x e. f x = Inl e \<Longrightarrow> e = TypeError) \<Longrightarrow> mapE f xs = Inl e \<Longrightarrow> e = TypeError"
  by (induction xs) (auto split: sum.splits)

lemma labelNames_ok: "(\<exists>ns. labelNames labelMap label = Inr ns) \<longleftrightarrow> \<not> nullish label"
  by (cases label; cases labelMap) (auto simp: labelNames_def Let_def)

lemma labelNames_error: "labelNames labelMap label = Inl e \<Longrightarrow> e = TypeError"
  by (cases label; cases labelMap) (auto simp: labelNames_def Let_def split: if_splits)

lemma countComplete_ok: "(\<exists>n. countComplete items = Inr n) \<longleftrightarrow> noNulls items"
  by (induction items) (auto simp: noNulls_def split: sum.splits)

lemma countComplete_error: "countComplete items = Inl e \<Longrightarrow> e = TypeError"
  by (induction items) (auto split: sum.splits if_splits)

lemma checklistLoop_ok:
  "(\<exists>r. checklistLoop cls t c = Inr r) \<longleftrightarrow> list_all safeChecklist cls"
proof (induction cls arbitrary: t c)
  case Nil show ?case by simp
next
  case (Cons cl cls)
  show ?case
  proof (cases "nullish cl")
    case True then show ?thesis by (simp add: safeChecklist_def)
  next
    case False
    show ?thesis
    proof (cases "get cl ''checkItems''")
      case (JArr items)
      show ?thesis
      proof (cases "countComplete items")
        case (Inl e)
        then have "\<not> noNulls items" using countComplete_ok[of items] by auto
        with False JArr Inl show ?thesis by (simp add: safeChecklist_def)
      next
        case (Inr n)
        then have "noNulls items" using countComplete_ok[of items] by auto
        with False JArr Inr Cons.IH show ?thesis by (simp add: safeChecklist_def)
      qed
    qed (use False Cons.IH in \<open>simp_all add: safeChecklist_def\<close>)
  qed
qed

lemma checklistLoop_error: "checklistLoop cls t c = Inl e \<Longrightarrow> e = TypeError"
proof (induction cls arbitrary: t c)
  case Nil then show ?case by simp
next
  case (Cons cl cls)
  then show ?case
    by (auto split: if_splits json.splits sum.splits dest: countComplete_error)
qed

lemma checklistLoop_chars: "checklistLoop (map (\<lambda>c. JStr [c]) s) t c = Inr (t, c)"
  by (induction s) auto

lemma calculateChecklistStatus_ok:
  "(\<exists>s. calculateChecklistStatus (orElse v (JArr [])) = Inr s) \<longleftrightarrow> safeChecklists v"
proof (cases v)
  case (JArr cls)
  show ?thesis
  proof (cases "cls = []")
    case True
    with JArr show ?thesis
      by (simp add: calculateChecklistStatus_def orElse_def safeChecklists_def)
  next
    case False
    then have l: "JNum (rat_of_nat (length cls)) \<noteq> JNum 0" by simp
    have "(\<exists>s. calculateChecklistStatus (JArr cls) = Inr s) \<longleftrightarrow> (\<exists>r. checklistLoop cls 0 0 = Inr r)"
      using l by (auto simp: calculateChecklistStatus_def split: sum.splits prod.splits)
    moreover have "(\<exists>r. checklistLoop cls 0 0 = Inr r) \<longleftrightarrow> list_all safeChecklist cls"
      by (rule checklistLoop_ok)
    ultimately have "(\<exists>s. calculateChecklistStatus (JArr cls) = Inr s) \<longleftrightarrow> list_all safeChecklist cls"
      by (simp only:)
    with JArr show ?thesis
      by (simp add: orElse_def safeChecklists_def)
  qed
next
  case (JStr s)
  then show ?thesis
    by (cases "s = []")
       (simp_all add: calculateChecklistStatus_def orElse_def safeChecklists_def checklistLoop_chars)
next
  case (JObj kvs)
  then show ?thesis
    by (auto simp: calculateChecklistStatus_def orElse_def safeChecklists_def)
qed (simp_all add: calculateChecklistStatus_def orElse_def safeChecklists_def)

lemma calculateChecklistStatus_error: "calculateChecklistStatus v = Inl e \<Longrightarrow> e = TypeError"
  by (cases v)
     (auto simp: calculateChecklistStatus_def split: if_splits sum.splits prod.splits
           dest: checklistLoop_error)

lemma calculateChecklistStatus_falsy:
  "\<not> truthy v \<Longrightarrow> calculateChecklistStatus (orElse v (JArr [])) = Inr ''0/0''"
  by (simp add: calculateChecklistStatus_def orElse_def)

lemma labels_ok:
  "(\<exists>ns. (case v of JArr ls \<Rightarrow> mapE (labelNames labelMap) ls | _ \<Rightarrow> Inr []) = Inr ns)
     \<longleftrightarrow> (case v of JArr ls \<Rightarrow> noNulls ls | _ \<Rightarrow> True)"
proof (cases v)
  case (JArr ls)
  have "(\<exists>ns. mapE (labelNames labelMap) ls = Inr ns) \<longleftrightarrow> noNulls ls"
    unfolding mapE_Inr_iff by (simp add: labelNames_ok noNulls_def list_all_iff)
  with JArr show ?thesis by simp
qed simp_all

lemma labels_error:
  "e = TypeError" if "(case v of JArr ls \<Rightarrow> mapE (labelNames labelMap) ls | _ \<Rightarrow> Inr []) = Inl e"
proof (cases v)
  case (JArr ls)
  with that have "mapE (labelNames labelMap) ls = Inl e" by simp
  then show ?thesis by (rule mapE_error[rotated]) (rule labelNames_error)
qed (use that in simp_all)

lemma cleanCard_error: "cleanCard c memberMap labelMap = Inl e \<Longrightarrow> e = TypeError"
  by (auto simp: cleanCard_def Let_def split: if_splits sum.splits
           dest: labels_error calculateChecklistStatus_error)

lemma cleanCard_ok: "(\<exists>r. cleanCard c memberMap labelMap = Inr r) \<longleftrightarrow> safeCard c"
proof (cases "nullish c")
  case True
  then show ?thesis by (simp add: cleanCard_def safeCard_def)
next
  case False
  let ?L = "case get c ''labels'' of JArr ls \<Rightarrow> mapE (labelNames labelMap) ls | _ \<Rightarrow> Inr []"
  let ?S = "calculateChecklistStatus (orElse (get c ''checklists'') (JArr []))"
  have "(\<exists>r. cleanCard c memberMap labelMap = Inr r) \<longleftrightarrow> (\<exists>ns. ?L = Inr ns) \<and> (\<exists>s. ?S = Inr s)"
    using False by (auto simp: cleanCard_def Let_def split: sum.splits)
  then show ?thesis
    using False by (simp only: labels_ok calculateChecklistStatus_ok safeCard_def simp_thms)
qed

lemma cleanCard_fields:
  assumes "cleanCard c memberMap labelMap = Inr r"
  shows "card_id r = get c ''id''
       \<and> card_name r = orElse (get c ''name'') (JStr [])
       \<and> card_desc r = orElse (get c ''desc'') (JStr [])
       \<and> card_due r = orElse (get c ''due'') JNull
       \<and> card_url r = orElse (orElse (get c ''url'') (get c ''shortUrl'')) (JStr [])
       \<and> card_closed r = orElse (get c ''closed'') (JBool False)
       \<and> ((\<forall>ls. get c ''labels'' \<noteq> JArr ls) \<longrightarrow> card_labels r = [])
       \<and> ((\<forall>ids. get c ''idMembers'' \<noteq> JArr ids) \<longrightarrow> card_members r = [])
       \<and> (memberMap = None \<longrightarrow> card_members r = [])
       \<and> (\<not> truthy (get c ''checklists'') \<longrightarrow> card_checklistStatus r = ''0/0'')"
proof -
  have nn: "\<not> nullish c" using assms by (auto simp: cleanCard_def split: if_splits)
  obtain ns s where L: "(case get c ''labels'' of JArr ls \<Rightarrow> mapE (labelNames labelMap) ls | _ \<Rightarrow> Inr []) = Inr ns"
     and S: "calculateChecklistStatus (orElse (get c ''checklists'') (JArr [])) = Inr s"
    using assms nn by (auto simp: cleanCard_def Let_def split: sum.splits)
  have r: "r = \<lparr>card_id = get c ''id'',
                card_name = orElse (get c ''name'') (JStr []),
                card_desc = orElse (get c ''desc'') (JStr []),
                card_due = orElse (get c ''due'') JNull,
                card_labels = concat ns,
                card_members = (case (get c ''idMembers'', memberMap) of
                         (JArr ids, Some m) \<Rightarrow> filter truthy (map (mapGet m) ids)
                       | _ \<Rightarrow> []),
                card_checklistStatus = s,
                card_url = orElse (orElse (get c ''url'') (get c ''shortUrl'')) (JStr []),
                card_closed = orElse (get c ''closed'') (JBool False)\<rparr>"
    using assms nn L S by (simp add: cleanCard_def Let_def)
  have l0: "(\<forall>ls. get c ''labels'' \<noteq> JArr ls) \<longrightarrow> ns = []"
    using L by (cases "get c ''labels''") auto
  have m0: "(\<forall>ids. get c ''idMembers'' \<noteq> JArr ids) \<longrightarrow>
      (case (get c ''idMembers'', memberMap) of
                         (JArr ids, Some m) \<Rightarrow> filter truthy (map (mapGet m) ids)
                       | _ \<Rightarrow> []) = []"
    by (cases "get c ''idMembers''") auto
  have m1: "memberMap = None \<longrightarrow>
      (case (get c ''idMembers'', memberMap) of
                         (JArr ids, Some m) \<Rightarrow> filter truthy (map (mapGet m) ids)
                       | _ \<Rightarrow> []) = []"
    by (cases "get c ''idMembers''") auto
  have s0: "\<not> truthy (get c ''checklists'') \<longrightarrow> s = ''0/0''"
    using S calculateChecklistStatus_falsy[of "get c ''checklists''"] by auto
  show ?thesis unfolding r using l0 m0 m1 s0 by simp
qed

section \<open>The normalizer\<close>

subsection \<open>Payloads the dispatcher does not recognise\<close>

text \<open>
  Claim C10, as amended. \<open>cleanTrelloResponse\<close> returns its argument itself when the
  argument is falsy (\<open>null\<close> and \<open>undefined\<close> among others), when it is the empty array,
  when it is a non-empty array whose first element is not \<open>null\<close> and shows none of the
  markers (\<open>lists\<close>, \<open>prefs\<close>, \<open>cards\<close>, \<open>idList\<close>, \<open>badges\<close>), and when it is a truthy
  value other than an array that shows none of the markers.
\<close>

theorem unrecognised_payloads_are_returned_unchanged:
  "(\<not> truthy data \<longrightarrow> cleanTrelloResponse data = Inr (Data data))
   \<and> cleanTrelloResponse (JArr []) = Inr (Data (JArr []))
   \<and> (\<not> nullish firstItem \<and> lacksMarkers firstItem \<longrightarrow>
        cleanTrelloResponse (JArr (firstItem # rest)) = Inr (Data (JArr (firstItem # rest))))
   \<and> (truthy single \<and> (\<forall>items. single \<noteq> JArr items) \<and> lacksMarkers single \<longrightarrow>
        cleanTrelloResponse single = Inr (Data single))"
proof (intro conjI impI)
  show "cleanTrelloResponse data = Inr (Data data)" if "\<not> truthy data"
    using that by (simp add: cleanTrelloResponse_def)
  show "cleanTrelloResponse (JArr []) = Inr (Data (JArr []))"
    by (simp add: cleanTrelloResponse_def)
  show "cleanTrelloResponse (JArr (firstItem # rest)) = Inr (Data (JArr (firstItem # rest)))"
    if "\<not> nullish firstItem \<and> lacksMarkers firstItem"
    using that by (simp add: cleanTrelloResponse_def lacksMarkers_def)
  show "cleanTrelloResponse single = Inr (Data single)"
    if "truthy single \<and> (\<forall>items. single \<noteq> JArr items) \<and> lacksMarkers single"
    using that by (cases single) (simp_all add: cleanTrelloResponse_def lacksMarkers_def)
qed

text \<open>
  The theorem at \<open>null\<close>, \<open>undefined\<close>, the empty array, a member object and an array
  that starts with one.
\<close>

theorem unrecognised_payloads_are_returned_unchanged_witness:
  "cleanTrelloResponse JNull = Inr (Data JNull)
   \<and> cleanTrelloResponse JUndefined = Inr (Data JUndefined)
   \<and> cleanTrelloResponse (JArr []) = Inr (Data (JArr []))
   \<and> cleanTrelloResponse (JArr [JObj [(''id'', JStr ''m1''), (''fullName'', JStr ''Ann'')], JNull])
       = Inr (Data (JArr [JObj [(''id'', JStr ''m1''), (''fullName'', JStr ''Ann'')], JNull]))
   \<and> cleanTrelloResponse (JObj [(''id'', JStr ''m1''), (''fullName'', JStr ''Ann'')])
       = Inr (Data (JObj [(''id'', JStr ''m1''), (''fullName'', JStr ''Ann'')]))"
proof -
  let ?m = "JObj [(''id'', JStr ''m1''), (''fullName'', JStr ''Ann'')]"
  have lm: "lacksMarkers ?m" by (simp add: lacksMarkers_def)
  have 1: "cleanTrelloResponse JNull = Inr (Data JNull)"
    using unrecognised_payloads_are_returned_unchanged[of JNull] by simp
  have 2: "cleanTrelloResponse JUndefined = Inr (Data JUndefined)"
    using unrecognised_payloads_are_returned_unchanged[of JUndefined] by simp
  have 3: "cleanTrelloResponse (JArr []) = Inr (Data (JArr []))"
    using unrecognised_payloads_are_returned_unchanged[of JNull] by simp
  have 4: "cleanTrelloResponse (JArr [?m, JNull]) = Inr (Data (JArr [?m, JNull]))"
    using unrecognised_payloads_are_returned_unchanged[of JNull ?m "[JNull]"] lm by simp
  have 5: "cleanTrelloResponse ?m = Inr (Data ?m)"
    using unrecognised_payloads_are_returned_unchanged[of JNull JNull "[]" ?m] lm by simp
  from 1 2 3 4 5 show ?thesis by (intro conjI)
qed

text \<open>
  Claim C10 as stated fails at the array \<open>[null]\<close>: it has none of the markers, but the
  dispatcher reads \<open>firstItem.lists\<close> of its first element and throws.
\<close>

theorem null_first_item_raises_counterexample:
  "lacksMarkers (JArr [JNull]) \<and> cleanTrelloResponse (JArr [JNull]) = Inl TypeError"
  by (simp add: lacksMarkers_def cleanTrelloResponse_def)

subsection \<open>The payloads the normalizer accepts\<close>

lemma cleanCards_ok:
  "(\<exists>rs. mapE (\<lambda>c. cleanCard c memberMap labelMap) cs = Inr rs) \<longleftrightarrow> list_all safeCard cs"
  unfolding mapE_Inr_iff by (simp add: cleanCard_ok list_all_iff)

lemma cleanList_ok: "(\<exists>r. cleanList l memberMap labelMap = Inr r) \<longleftrightarrow> safeList l"
proof (cases "nullish l")
  case True
  then show ?thesis by (simp add: cleanList_def safeList_def)
next
  case False
  show ?thesis
  proof (cases "get l ''cards''")
    case (JArr cs)
    have "(\<exists>r. cleanList l memberMap labelMap = Inr r)
            \<longleftrightarrow> (\<exists>rs. mapE (\<lambda>c. cleanCard c memberMap labelMap) cs = Inr rs)"
      using False JArr by (auto simp: cleanList_def Let_def split: sum.splits)
    then show ?thesis
      using False JArr by (simp add: cleanCards_ok safeList_def)
  qed (use False in \<open>simp_all add: cleanList_def safeList_def Let_def\<close>)
qed

lemma cleanList_error: "cleanList l memberMap labelMap = Inl e \<Longrightarrow> e = TypeError"
proof -
  assume a: "cleanList l memberMap labelMap = Inl e"
  show ?thesis
  proof (cases "nullish l")
    case True with a show ?thesis by (simp add: cleanList_def)
  next
    case False
    show ?thesis
    proof (cases "get l ''cards''")
      case (JArr cs)
      with a False have "mapE (\<lambda>c. cleanCard c memberMap labelMap) cs = Inl e"
        by (auto simp: cleanList_def Let_def split: sum.splits)
      then show ?thesis by (rule mapE_error[rotated]) (rule cleanCard_error)
    qed (use a False in \<open>simp_all add: cleanList_def Let_def\<close>)
  qed
qed

lemma memberLoop_ok: "(\<exists>r. memberLoop ms m = Inr r) \<longleftrightarrow> noNulls ms"
  by (induction ms arbitrary: m) (auto simp: noNulls_def)

lemma memberLoop_error: "memberLoop ms m = Inl e \<Longrightarrow> e = TypeError"
  by (induction ms arbitrary: m) (auto split: if_splits)

lemma labelLoop_ok: "(\<exists>r. labelLoop ls m = Inr r) \<longleftrightarrow> noNulls ls"
  by (induction ls arbitrary: m) (auto simp: noNulls_def)

lemma labelLoop_error: "labelLoop ls m = Inl e \<Longrightarrow> e = TypeError"
  by (induction ls arbitrary: m) (auto split: if_splits)

lemma buildMemberMap_ok:
  "(\<exists>r. buildMemberMap b = Inr r)
     \<longleftrightarrow> \<not> nullish b \<and> (case get b ''members'' of JArr ms \<Rightarrow> noNulls ms | _ \<Rightarrow> True)"
  by (cases "get b ''members''") (auto simp: buildMemberMap_def memberLoop_ok)

lemma buildLabelMap_ok:
  "(\<exists>r. buildLabelMap b = Inr r)
     \<longleftrightarrow> \<not> nullish b \<and> (case get b ''labels'' of JArr ls \<Rightarrow> noNulls ls | _ \<Rightarrow> True)"
  by (cases "get b ''labels''") (auto simp: buildLabelMap_def labelLoop_ok)

lemma buildMemberMap_error: "buildMemberMap b = Inl e \<Longrightarrow> e = TypeError"
  by (cases "get b ''members''")
     (auto simp: buildMemberMap_def split: if_splits dest: memberLoop_error)

lemma buildLabelMap_error: "buildLabelMap b = Inl e \<Longrightarrow> e = TypeError"
  by (cases "get b ''labels''")
     (auto simp: buildLabelMap_def split: if_splits dest: labelLoop_error)

lemma cleanLists_ok:
  "(\<exists>rs. mapE (\<lambda>l. cleanList l memberMap labelMap) ls = Inr rs) \<longleftrightarrow> list_all safeList ls"
  unfolding mapE_Inr_iff by (simp add: cleanList_ok list_all_iff)

lemma cleanBoard_ok: "(\<exists>r. cleanBoard b = Inr r) \<longleftrightarrow> safeBoard b"
proof (cases "buildMemberMap b")
  case (Inl e)
  then have "\<not> (\<exists>r. buildMemberMap b = Inr r)" by simp
  then have "\<not> safeBoard b" unfolding buildMemberMap_ok by (auto simp: safeBoard_def)
  with Inl show ?thesis by (simp add: cleanBoard_def)
next
  case mm: (Inr memberMap)
  then have m: "\<not> nullish b \<and> (case get b ''members'' of JArr ms \<Rightarrow> noNulls ms | _ \<Rightarrow> True)"
    using buildMemberMap_ok[of b] by blast
  show ?thesis
  proof (cases "buildLabelMap b")
    case (Inl e)
    then have "\<not> (\<exists>r. buildLabelMap b = Inr r)" by simp
    then have "\<not> safeBoard b" unfolding buildLabelMap_ok by (auto simp: safeBoard_def)
    with Inl mm show ?thesis by (simp add: cleanBoard_def)
  next
    case lm: (Inr labelMap)
    then have l: "case get b ''labels'' of JArr ls \<Rightarrow> noNulls ls | _ \<Rightarrow> True"
      using buildLabelMap_ok[of b] by blast
    show ?thesis
    proof (cases "get b ''lists''")
      case (JArr ls)
      have "(\<exists>r. cleanBoard b = Inr r)
              \<longleftrightarrow> (\<exists>rs. mapE (\<lambda>l. cleanList l (Some memberMap) (Some labelMap)) ls = Inr rs)"
        using mm lm JArr by (auto simp: cleanBoard_def Let_def split: sum.splits)
      then show ?thesis
        using m l JArr by (simp add: cleanLists_ok safeBoard_def)
    qed (use mm lm m l in \<open>simp_all add: cleanBoard_def safeBoard_def Let_def\<close>)
  qed
qed

lemma cleanBoard_error: "cleanBoard b = Inl e \<Longrightarrow> e = TypeError"
proof -
  assume a: "cleanBoard b = Inl e"
  show ?thesis
  proof (cases "buildMemberMap b")
    case (Inl e')
    with a have "e' = e" by (simp add: cleanBoard_def)
    with Inl show ?thesis using buildMemberMap_error by blast
  next
    case mm: (Inr memberMap)
    show ?thesis
    proof (cases "buildLabelMap b")
      case (Inl e')
      with a mm have "e' = e" by (simp add: cleanBoard_def)
      with Inl show ?thesis using buildLabelMap_error by blast
    next
      case lm: (Inr labelMap)
      show ?thesis
      proof (cases "get b ''lists''")
        case (JArr ls)
        with a mm lm have "mapE (\<lambda>l. cleanList l (Some memberMap) (Some labelMap)) ls = Inl e"
          by (auto simp: cleanBoard_def Let_def split: sum.splits)
        then show ?thesis by (rule mapE_error[rotated]) (rule cleanList_error)
      qed (use a mm lm in \<open>simp_all add: cleanBoard_def Let_def\<close>)
    qed
  qed
qed

lemma map_sum_Inr_iff: "(\<exists>r. map_sum id f x = Inr r) \<longleftrightarrow> (\<exists>y. x = Inr y)"
  by (cases x) auto

lemma dispatch_entity_ok:
  "(\<exists>r. (if get v ''lists'' \<noteq> JUndefined \<or> get v ''prefs'' \<noteq> JUndefined
          then map_sum id Board (cleanBoard v)
          else if get v ''cards'' \<noteq> JUndefined
          then map_sum id List (cleanList v None None)
          else if get v ''idList'' \<noteq> JUndefined \<or> get v ''badges'' \<noteq> JUndefined
          then map_sum id Card (cleanCard v None None)
          else Inr (Data v)) = Inr r) \<longleftrightarrow> safeAs (kindOf v) v"
  by (simp add: kindOf_def map_sum_Inr_iff cleanBoard_ok cleanList_ok cleanCard_ok)

lemma dispatch_array_ok:
  "(\<exists>r. (if get f ''lists'' \<noteq> JUndefined \<or> get f ''prefs'' \<noteq> JUndefined
          then map_sum id Boards (mapE cleanBoard items)
          else if get f ''cards'' \<noteq> JUndefined
          then map_sum id Lists (mapE (\<lambda>l. cleanList l None None) items)
          else if get f ''idList'' \<noteq> JUndefined \<or> get f ''badges'' \<noteq> JUndefined
          then map_sum id Cards (mapE (\<lambda>c. cleanCard c None None) items)
          else Inr (Data d)) = Inr r) \<longleftrightarrow> list_all (safeAs (kindOf f)) items"
  by (simp add: kindOf_def map_sum_Inr_iff mapE_Inr_iff cleanBoard_ok cleanList_ok cleanCard_ok
                list_all_iff)

lemma cleanTrelloResponse_ok: "(\<exists>r. cleanTrelloResponse data = Inr r) \<longleftrightarrow> safePayload data"
proof (cases "truthy data")
  case False
  then show ?thesis by (simp add: cleanTrelloResponse_def safePayload_def)
next
  case True
  show ?thesis
  proof (cases data)
    case (JArr items)
    show ?thesis
    proof (cases items)
      case Nil
      with JArr show ?thesis by (simp add: cleanTrelloResponse_def safePayload_def)
    next
      case (Cons f rest)
      show ?thesis
      proof (cases "nullish f")
        case True
        with JArr Cons show ?thesis by (simp add: cleanTrelloResponse_def safePayload_def)
      next
        case False
        have "cleanTrelloResponse data =
          (if get f ''lists'' \<noteq> JUndefined \<or> get f ''prefs'' \<noteq> JUndefined
           then map_sum id Boards (mapE cleanBoard items)
           else if get f ''cards'' \<noteq> JUndefined
           then map_sum id Lists (mapE (\<lambda>l. cleanList l None None) items)
           else if get f ''idList'' \<noteq> JUndefined \<or> get f ''badges'' \<noteq> JUndefined
           then map_sum id Cards (mapE (\<lambda>c. cleanCard c None None) items)
           else Inr (Data data))"
          using JArr Cons False by (simp add: cleanTrelloResponse_def)
        then have "(\<exists>r. cleanTrelloResponse data = Inr r) \<longleftrightarrow> list_all (safeAs (kindOf f)) items"
          by (simp only: dispatch_array_ok)
        then show ?thesis using JArr Cons False by (simp add: safePayload_def)
      qed
    qed
  next
    case JUndefined with True show ?thesis by simp
  next
    case JNull with True show ?thesis by simp
  next
    case (JBool b)
    then have "cleanTrelloResponse data = Inr (Data data)" using True
      by (simp add: cleanTrelloResponse_def)
    then show ?thesis using JBool True by (simp add: safePayload_def kindOf_def)
  next
    case (JNum n)
    then have "cleanTrelloResponse data = Inr (Data data)" using True
      by (simp add: cleanTrelloResponse_def)
    then show ?thesis using JNum True by (simp add: safePayload_def kindOf_def)
  next
    case (JStr s)
    then have "cleanTrelloResponse data = Inr (Data data)" using True
      by (simp add: cleanTrelloResponse_def)
    then show ?thesis using JStr True by (simp add: safePayload_def kindOf_def)
  next
    case JBuiltin
    then have "cleanTrelloResponse data = Inr (Data data)"
      by (simp add: cleanTrelloResponse_def)
    then show ?thesis using JBuiltin by (simp add: safePayload_def kindOf_def)
  next
    case (JObj kvs)
    have "cleanTrelloResponse data =
       (if get data ''lists'' \<noteq> JUndefined \<or> get data ''prefs'' \<noteq> JUndefined
          then map_sum id Board (cleanBoard data)
          else if get data ''cards'' \<noteq> JUndefined
          then map_sum id List (cleanList data None None)
          else if get data ''idList'' \<noteq> JUndefined \<or> get data ''badges'' \<noteq> JUndefined
          then map_sum id Card (cleanCard data None None)
          else Inr (Data data))"
      using JObj by (simp add: cleanTrelloResponse_def)
    then have "(\<exists>r. cleanTrelloResponse data = Inr r) \<longleftrightarrow> safeAs (kindOf data) data"
      by (simp only: dispatch_entity_ok)
    then show ?thesis using JObj by (simp add: safePayload_def)
  qed
qed

lemma map_sum_Inl: "map_sum id f x = Inl e \<Longrightarrow> x = Inl e"
  by (cases x) auto

lemma boards_error: "mapE cleanBoard xs = Inl e \<Longrightarrow> e = TypeError"
  by (erule mapE_error[rotated]) (rule cleanBoard_error)

lemma lists_error: "mapE (\<lambda>l. cleanList l memberMap labelMap) xs = Inl e \<Longrightarrow> e = TypeError"
  by (erule mapE_error[rotated]) (rule cleanList_error)

lemma cards_error: "mapE (\<lambda>c. cleanCard c memberMap labelMap) xs = Inl e \<Longrightarrow> e = TypeError"
  by (erule mapE_error[rotated]) (rule cleanCard_error)

lemma cleanTrelloResponse_error: "cleanTrelloResponse data = Inl e \<Longrightarrow> e = TypeError"
  unfolding cleanTrelloResponse_def
  by (auto simp del: mapE.simps split: if_splits json.splits list.splits dest!: map_sum_Inl
           dest: cleanBoard_error cleanList_error cleanCard_error boards_error lists_error
                 cards_error)

lemma cleanList_fields:
  assumes "cleanList l memberMap labelMap = Inr r"
  shows "list_id r = get l ''id''
       \<and> list_name r = orElse (get l ''name'') (JStr [])
       \<and> list_closed r = orElse (get l ''closed'') (JBool False)
       \<and> ((\<forall>cs. get l ''cards'' \<noteq> JArr cs) \<longrightarrow> list_cards r = None)"
  using assms
  by (auto simp: cleanList_def Let_def split: if_splits json.splits sum.splits)

lemma cleanBoard_fields:
  assumes "cleanBoard b = Inr r"
  shows "board_id r = get b ''id''
       \<and> board_name r = orElse (get b ''name'') (JStr [])
       \<and> board_desc r = orElse (get b ''desc'') (JStr [])
       \<and> board_url r = orElse (orElse (get b ''url'') (get b ''shortUrl'')) (JStr [])
       \<and> ((\<forall>ls. get b ''lists'' \<noteq> JArr ls) \<longrightarrow> board_lists r = None)"
  using assms
  by (auto simp: cleanBoard_def Let_def split: if_splits json.splits sum.splits)

lemma not_Inr_Inl: "\<not> (\<exists>r. x = Inr r) \<Longrightarrow> \<exists>e. x = Inl e"
  by (cases x) auto


subsection \<open>Partial and malformed payloads\<close>

text \<open>
  Claim C8. The normalizer raises no error exactly on the safe payloads, and a \<open>TypeError\<close>
  on every other one. A card is safe when it is not \<open>null\<close> or \<open>undefined\<close>, its \<open>labels\<close>,
  where they are an array, hold no \<open>null\<close>, and its \<open>checklists\<close> are falsy, empty, a
  string, or an array of checklists that are not \<open>null\<close> and whose \<open>checkItems\<close> hold no
  \<open>null\<close>; lists, boards and whole payloads are safe likewise. On a safe entity every
  missing part gets its default: the empty string for \<open>name\<close>, \<open>desc\<close> and \<open>url\<close>, \<open>null\<close>
  for \<open>due\<close>, \<open>false\<close> for \<open>closed\<close>, no labels, no members, the status \<open>0/0\<close>, and no
  \<open>cards\<close> or \<open>lists\<close> field where the payload has no such array.
\<close>

theorem normalization_succeeds_exactly_on_safe_payloads:
  "(safePayload data \<longrightarrow> (\<exists>r. cleanTrelloResponse data = Inr r))
   \<and> (\<not> safePayload data \<longrightarrow> cleanTrelloResponse data = Inl TypeError)
   \<and> (safeCard card' \<longrightarrow>
        (\<exists>r. cleanCard card' memberMap labelMap = Inr r
           \<and> card_id r = get card' ''id''
           \<and> card_name r = orElse (get card' ''name'') (JStr [])
           \<and> card_desc r = orElse (get card' ''desc'') (JStr [])
           \<and> card_due r = orElse (get card' ''due'') JNull
           \<and> card_url r = orElse (orElse (get card' ''url'') (get card' ''shortUrl'')) (JStr [])
           \<and> card_closed r = orElse (get card' ''closed'') (JBool False)
           \<and> ((\<forall>ls. get card' ''labels'' \<noteq> JArr ls) \<longrightarrow> card_labels r = [])
           \<and> ((\<forall>ids. get card' ''idMembers'' \<noteq> JArr ids) \<longrightarrow> card_members r = [])
           \<and> (memberMap = None \<longrightarrow> card_members r = [])
           \<and> (\<not> truthy (get card' ''checklists'') \<longrightarrow> card_checklistStatus r = ''0/0'')))
   \<and> (\<not> safeCard card' \<longrightarrow> cleanCard card' memberMap labelMap = Inl TypeError)
   \<and> (safeList list' \<longrightarrow>
        (\<exists>r. cleanList list' memberMap labelMap = Inr r
           \<and> list_id r = get list' ''id''
           \<and> list_name r = orElse (get list' ''name'') (JStr [])
           \<and> list_closed r = orElse (get list' ''closed'') (JBool False)
           \<and> ((\<forall>cs. get list' ''cards'' \<noteq> JArr cs) \<longrightarrow> list_cards r = None)))
   \<and> (\<not> safeList list' \<longrightarrow> cleanList list' memberMap labelMap = Inl TypeError)
   \<and> (safeBoard board \<longrightarrow>
        (\<exists>r. cleanBoard board = Inr r
           \<and> board_id r = get board ''id''
           \<and> board_name r = orElse (get board ''name'') (JStr [])
           \<and> board_desc r = orElse (get board ''desc'') (JStr [])
           \<and> board_url r = orElse (orElse (get board ''url'') (get board ''shortUrl'')) (JStr [])
           \<and> ((\<forall>ls. get board ''lists'' \<noteq> JArr ls) \<longrightarrow> board_lists r = None)))
   \<and> (\<not> safeBoard board \<longrightarrow> cleanBoard board = Inl TypeError)"
proof -
  have c1: "safePayload data \<longrightarrow> (\<exists>r. cleanTrelloResponse data = Inr r)"
    by (simp only: cleanTrelloResponse_ok simp_thms)
  have c2: "\<not> safePayload data \<longrightarrow> cleanTrelloResponse data = Inl TypeError"
  proof
    assume "\<not> safePayload data"
    then have "\<not> (\<exists>r. cleanTrelloResponse data = Inr r)" by (simp only: cleanTrelloResponse_ok simp_thms)
    then obtain e where e: "cleanTrelloResponse data = Inl e" by (blast dest: not_Inr_Inl)
    with cleanTrelloResponse_error[OF e] show "cleanTrelloResponse data = Inl TypeError" by simp
  qed
  have c3: "safeCard card' \<longrightarrow>
        (\<exists>r. cleanCard card' memberMap labelMap = Inr r
           \<and> card_id r = get card' ''id''
           \<and> card_name r = orElse (get card' ''name'') (JStr [])
           \<and> card_desc r = orElse (get card' ''desc'') (JStr [])
           \<and> card_due r = orElse (get card' ''due'') JNull
           \<and> card_url r = orElse (orElse (get card' ''url'') (get card' ''shortUrl'')) (JStr [])
           \<and> card_closed r = orElse (get card' ''closed'') (JBool False)
           \<and> ((\<forall>ls. get card' ''labels'' \<noteq> JArr ls) \<longrightarrow> card_labels r = [])
           \<and> ((\<forall>ids. get card' ''idMembers'' \<noteq> JArr ids) \<longrightarrow> card_members r = [])
           \<and> (memberMap = None \<longrightarrow> card_members r = [])
           \<and> (\<not> truthy (get card' ''checklists'') \<longrightarrow> card_checklistStatus r = ''0/0''))"
  proof
    assume "safeCard card'"
    then obtain r where r: "cleanCard card' memberMap labelMap = Inr r"
      using cleanCard_ok[of card' memberMap labelMap] by blast
    from cleanCard_fields[OF r] r
    show "\<exists>r. cleanCard card' memberMap labelMap = Inr r
           \<and> card_id r = get card' ''id''
           \<and> card_name r = orElse (get card' ''name'') (JStr [])
           \<and> card_desc r = orElse (get card' ''desc'') (JStr [])
           \<and> card_due r = orElse (get card' ''due'') JNull
           \<and> card_url r = orElse (orElse (get card' ''url'') (get card' ''shortUrl'')) (JStr [])
           \<and> card_closed r = orElse (get card' ''closed'') (JBool False)
           \<and> ((\<forall>ls. get card' ''labels'' \<noteq> JArr ls) \<longrightarrow> card_labels r = [])
           \<and> ((\<forall>ids. get card' ''idMembers'' \<noteq> JArr ids) \<longrightarrow> card_members r = [])
           \<and> (memberMap = None \<longrightarrow> card_members r = [])
           \<and> (\<not> truthy (get card' ''checklists'') \<longrightarrow> card_checklistStatus r = ''0/0'')"
      by blast
  qed
  have c4: "\<not> safeCard card' \<longrightarrow> cleanCard card' memberMap labelMap = Inl TypeError"
  proof
    assume "\<not> safeCard card'"
    then have "\<not> (\<exists>r. cleanCard card' memberMap labelMap = Inr r)" by (simp only: cleanCard_ok simp_thms)
    then obtain e where e: "cleanCard card' memberMap labelMap = Inl e" by (blast dest: not_Inr_Inl)
    with cleanCard_error[OF e] show "cleanCard card' memberMap labelMap = Inl TypeError" by simp
  qed
  have c5: "safeList list' \<longrightarrow>
        (\<exists>r. cleanList list' memberMap labelMap = Inr r
           \<and> list_id r = get list' ''id''
           \<and> list_name r = orElse (get list' ''name'') (JStr [])
           \<and> list_closed r = orElse (get list' ''closed'') (JBool False)
           \<and> ((\<forall>cs. get list' ''cards'' \<noteq> JArr cs) \<longrightarrow> list_cards r = None))"
  proof
    assume "safeList list'"
    then obtain r where r: "cleanList list' memberMap labelMap = Inr r"
      using cleanList_ok[of list' memberMap labelMap] by blast
    from cleanList_fields[OF r] r
    show "\<exists>r. cleanList list' memberMap labelMap = Inr r
           \<and> list_id r = get list' ''id''
           \<and> list_name r = orElse (get list' ''name'') (JStr [])
           \<and> list_closed r = orElse (get list' ''closed'') (JBool False)
           \<and> ((\<forall>cs. get list' ''cards'' \<noteq> JArr cs) \<longrightarrow> list_cards r = None)"
      by blast
  qed
  have c6: "\<not> safeList list' \<longrightarrow> cleanList list' memberMap labelMap = Inl TypeError"
  proof
    assume "\<not> safeList list'"
    then have "\<not> (\<exists>r. cleanList list' memberMap labelMap = Inr r)" by (simp only: cleanList_ok simp_thms)
    then obtain e where e: "cleanList list' memberMap labelMap = Inl e" by (blast dest: not_Inr_Inl)
    with cleanList_error[OF e] show "cleanList list' memberMap labelMap = Inl TypeError" by simp
  qed
  have c7: "safeBoard board \<longrightarrow>
        (\<exists>r. cleanBoard board = Inr r
           \<and> board_id r = get board ''id''
           \<and> board_name r = orElse (get board ''name'') (JStr [])
           \<and> board_desc r = orElse (get board ''desc'') (JStr [])
           \<and> board_url r = orElse (orElse (get board ''url'') (get board ''shortUrl'')) (JStr [])
           \<and> ((\<forall>ls. get board ''lists'' \<noteq> JArr ls) \<longrightarrow> board_lists r = None))"
  proof
    assume "safeBoard board"
    then obtain r where r: "cleanBoard board = Inr r"
      using cleanBoard_ok[of board] by blast
    from cleanBoard_fields[OF r] r
    show "\<exists>r. cleanBoard board = Inr r
           \<and> board_id r = get board ''id''
           \<and> board_name r = orElse (get board ''name'') (JStr [])
           \<and> board_desc r = orElse (get board ''desc'') (JStr [])
           \<and> board_url r = orElse (orElse (get board ''url'') (get board ''shortUrl'')) (JStr [])
           \<and> ((\<forall>ls. get board ''lists'' \<noteq> JArr ls) \<longrightarrow> board_lists r = None)"
      by blast
  qed
  have c8: "\<not> safeBoard board \<longrightarrow> cleanBoard board = Inl TypeError"
  proof
    assume "\<not> safeBoard board"
    then have "\<not> (\<exists>r. cleanBoard board = Inr r)" by (simp only: cleanBoard_ok simp_thms)
    then obtain e where e: "cleanBoard board = Inl e" by (blast dest: not_Inr_Inl)
    with cleanBoard_error[OF e] show "cleanBoard board = Inl TypeError" by simp
  qed
  show ?thesis by (rule conjI c1 c2 c3 c4 c5 c6 c7 c8)+
qed

text \<open>
  The theorem at entities without any field, which come out as the defaults, and at a
  payload, a card, a list and a board that are not safe.
\<close>

theorem normalization_succeeds_exactly_on_safe_payloads_witness:
  "(\<exists>r. cleanTrelloResponse (JObj [(''idList'', JStr ''l1'')]) = Inr r)
   \<and> cleanTrelloResponse (JArr [JObj [(''idList'', JStr ''l1'')], JNull]) = Inl TypeError
   \<and> (\<exists>r. cleanCard (JObj []) None None = Inr r
         \<and> card_id r = JUndefined \<and> card_name r = JStr [] \<and> card_desc r = JStr []
         \<and> card_due r = JNull \<and> card_url r = JStr [] \<and> card_closed r = JBool False
         \<and> card_labels r = [] \<and> card_members r = [] \<and> card_checklistStatus r = ''0/0'')
   \<and> cleanCard (JObj [(''checklists'', JNum 5)]) None None = Inl TypeError
   \<and> (\<exists>r. cleanList (JObj []) None None = Inr r
         \<and> list_id r = JUndefined \<and> list_name r = JStr [] \<and> list_closed r = JBool False
         \<and> list_cards r = None)
   \<and> cleanList (JObj [(''cards'', JArr [JNull])]) None None = Inl TypeError
   \<and> (\<exists>r. cleanBoard (JObj []) = Inr r
         \<and> board_id r = JUndefined \<and> board_name r = JStr [] \<and> board_desc r = JStr []
         \<and> board_url r = JStr [] \<and> board_lists r = None)
   \<and> cleanBoard (JObj [(''members'', JArr [JNull])]) = Inl TypeError"
proof -
  have s1: "safePayload (JObj [(''idList'', JStr ''l1'')])" by code_simp
  have s2: "\<not> safePayload (JArr [JObj [(''idList'', JStr ''l1'')], JNull])" by code_simp
  have s3: "safeCard (JObj [])" by code_simp
  have s4: "\<not> safeCard (JObj [(''checklists'', JNum 5)])" by code_simp
  have s5: "safeList (JObj [])" by code_simp
  have s6: "\<not> safeList (JObj [(''cards'', JArr [JNull])])" by code_simp
  have s7: "safeBoard (JObj [])" by code_simp
  have s8: "\<not> safeBoard (JObj [(''members'', JArr [JNull])])" by code_simp
  note ok = normalization_succeeds_exactly_on_safe_payloads
      [where data = "JObj [(''idList'', JStr ''l1'')]" and card' = "JObj []" and list' = "JObj []"
         and board = "JObj []" and memberMap = None and labelMap = None]
  note bad = normalization_succeeds_exactly_on_safe_payloads
      [where data = "JArr [JObj [(''idList'', JStr ''l1'')], JNull]"
         and card' = "JObj [(''checklists'', JNum 5)]"
         and list' = "JObj [(''cards'', JArr [JNull])]"
         and board = "JObj [(''members'', JArr [JNull])]" and memberMap = None and labelMap = None]
  have g: "get (JObj []) p = JUndefined" for p by simp
  from ok s1 have a: "\<exists>r. cleanTrelloResponse (JObj [(''idList'', JStr ''l1'')]) = Inr r" by blast
  from bad s2 have b: "cleanTrelloResponse (JArr [JObj [(''idList'', JStr ''l1'')], JNull]) = Inl TypeError"
    by blast
  from ok s3 have c: "\<exists>r. cleanCard (JObj []) None None = Inr r
         \<and> card_id r = JUndefined \<and> card_name r = JStr [] \<and> card_desc r = JStr []
         \<and> card_due r = JNull \<and> card_url r = JStr [] \<and> card_closed r = JBool False
         \<and> card_labels r = [] \<and> card_members r = [] \<and> card_checklistStatus r = ''0/0''"
    by (simp add: orElse_def)
  from bad s4 have d: "cleanCard (JObj [(''checklists'', JNum 5)]) None None = Inl TypeError"
    by blast
  from ok s5 have e: "\<exists>r. cleanList (JObj []) None None = Inr r
         \<and> list_id r = JUndefined \<and> list_name r = JStr [] \<and> list_closed r = JBool False
         \<and> list_cards r = None"
    by (simp add: orElse_def)
  from bad s6 have f: "cleanList (JObj [(''cards'', JArr [JNull])]) None None = Inl TypeError"
    by blast
  from ok s7 have h: "\<exists>r. cleanBoard (JObj []) = Inr r
         \<and> board_id r = JUndefined \<and> board_name r = JStr [] \<and> board_desc r = JStr []
         \<and> board_url r = JStr [] \<and> board_lists r = None"
    by (simp add: orElse_def)
  from bad s8 have i: "cleanBoard (JObj [(''members'', JArr [JNull])]) = Inl TypeError"
    by blast
  from a b c d e f h i show ?thesis by blast
qed

text \<open>
  Claim C8 as stated fails where an entity is \<open>null\<close>: \<open>cleanCard\<close> reads \<open>card.idMembers\<close>
  of a \<open>null\<close> card, \<open>label.name\<close> of a \<open>null\<close> label, and the dispatcher maps \<open>cleanCard\<close>
  over an array of cards whose second element is \<open>null\<close>.
\<close>

theorem null_entity_raises_counterexample:
  "cleanCard JNull None None = Inl TypeError
   \<and> cleanCard (JObj [(''id'', JStr ''c1''), (''labels'', JArr [JNull])]) None None = Inl TypeError
   \<and> cleanTrelloResponse (JArr [JObj [(''id'', JStr ''c1''), (''idList'', JStr ''l1'')], JNull])
       = Inl TypeError"
  by code_simp


section \<open>The board snapshot\<close>

text \<open>
  The reducer groups the cards by \<open>idList\<close>: when it has run over \<open>cards\<close>, the dictionary
  holds under each key the cards that point to it, in their order, after what it held
  before, and no entry for a key no card points to.
\<close>

lemma cardsWithIdList_Cons_skip:
  "nullish c \<or> \<not> truthy (get c ''idList'') \<Longrightarrow> cardsWithIdList (c # cs) k = cardsWithIdList cs k"
  by (auto simp: cardsWithIdList_def)

lemma cardsWithIdList_Cons:
  "\<not> nullish c \<Longrightarrow> truthy (get c ''idList'') \<Longrightarrow>
   cardsWithIdList (c # cs) k = (if get c ''idList'' = k then c # cardsWithIdList cs k
                                 else cardsWithIdList cs k)"
  by (auto simp: cardsWithIdList_def)

lemma cardsByList_groups:
  assumes "\<forall>c\<in>set cards. \<not> nullish c \<and> truthy (get c ''idList'')
             \<longrightarrow> (\<exists>k. get c ''idList'' = JStr k \<and> k \<notin> set objectPrototypeKeys)"
  shows "\<exists>acc'. cardsByList cards acc = Inr acc'
           \<and> (\<forall>k. map_of acc' k =
                 (if cardsWithIdList cards (JStr k) = [] then map_of acc k
                  else Some ((case map_of acc k of None \<Rightarrow> [] | Some xs \<Rightarrow> xs)
                             @ cardsWithIdList cards (JStr k))))"
  using assms
proof (induction cards arbitrary: acc)
  case Nil
  show ?case by (simp add: cardsWithIdList_def)
next
  case (Cons c rest)
  have rest: "\<forall>c\<in>set rest. \<not> nullish c \<and> truthy (get c ''idList'')
             \<longrightarrow> (\<exists>k. get c ''idList'' = JStr k \<and> k \<notin> set objectPrototypeKeys)"
    using Cons.prems by simp
  show ?case
  proof (cases "nullish c \<or> \<not> truthy (get c ''idList'')")
    case True
    then have "cardsByList (c # rest) acc = cardsByList rest acc" by auto
    with Cons.IH[OF rest, of acc] True show ?thesis
      by (simp only: cardsWithIdList_Cons_skip[OF True])
  next
    case False
    then have nn: "\<not> nullish c" and tr: "truthy (get c ''idList'')" by auto
    with Cons.prems obtain key where key: "get c ''idList'' = JStr key"
        and np: "key \<notin> set objectPrototypeKeys" by auto
    show ?thesis
    proof (cases "map_of acc key")
      case None
      let ?acc2 = "acc @ [(key, [c])]"
      have step: "cardsByList (c # rest) acc = cardsByList rest ?acc2"
        using False key np None by simp
      from Cons.IH[OF rest, of ?acc2] obtain acc' where
        r: "cardsByList rest ?acc2 = Inr acc'" and
        m: "\<And>k. map_of acc' k =
                 (if cardsWithIdList rest (JStr k) = [] then map_of ?acc2 k
                  else Some ((case map_of ?acc2 k of None \<Rightarrow> [] | Some xs \<Rightarrow> xs)
                             @ cardsWithIdList rest (JStr k)))"
        by blast
      have "map_of acc' k =
                 (if cardsWithIdList (c # rest) (JStr k) = [] then map_of acc k
                  else Some ((case map_of acc k of None \<Rightarrow> [] | Some xs \<Rightarrow> xs)
                             @ cardsWithIdList (c # rest) (JStr k)))" for k
        using m[of k] None key
        by (auto simp: cardsWithIdList_Cons[OF nn tr] map_add_def split: option.splits)
      with step r show ?thesis by simp
    next
      case (Some cs)
      let ?acc2 = "AList.update key (cs @ [c]) acc"
      have step: "cardsByList (c # rest) acc = cardsByList rest ?acc2"
        using False key Some by simp
      from Cons.IH[OF rest, of ?acc2] obtain acc' where
        r: "cardsByList rest ?acc2 = Inr acc'" and
        m: "\<And>k. map_of acc' k =
                 (if cardsWithIdList rest (JStr k) = [] then map_of ?acc2 k
                  else Some ((case map_of ?acc2 k of None \<Rightarrow> [] | Some xs \<Rightarrow> xs)
                             @ cardsWithIdList rest (JStr k)))"
        by blast
      have "map_of acc' k =
                 (if cardsWithIdList (c # rest) (JStr k) = [] then map_of acc k
                  else Some ((case map_of acc k of None \<Rightarrow> [] | Some xs \<Rightarrow> xs)
                             @ cardsWithIdList (c # rest) (JStr k)))" for k
        using m[of k] Some key
        by (auto simp: cardsWithIdList_Cons[OF nn tr] update_conv' split: option.splits)
      with step r show ?thesis by simp
    qed
  qed
qed


lemma get_JStr_obj: "get l p = JStr k \<Longrightarrow> \<exists>kvs. l = JObj kvs"
  by (cases l) (auto split: if_splits)

lemma cardsByList_start:
  assumes "\<forall>c\<in>set cards. \<not> nullish c \<and> truthy (get c ''idList'')
             \<longrightarrow> (\<exists>k. get c ''idList'' = JStr k \<and> k \<notin> set objectPrototypeKeys)"
  shows "\<exists>acc. cardsByList cards [] = Inr acc
           \<and> (\<forall>k. map_of acc k = (if cardsWithIdList cards (JStr k) = [] then None
                                   else Some (cardsWithIdList cards (JStr k))))"
proof -
  from cardsByList_groups[OF assms, of "[]"] obtain acc where
    a: "cardsByList cards [] = Inr acc" and
    m: "\<And>k. map_of acc k =
                 (if cardsWithIdList cards (JStr k) = [] then map_of [] k
                  else Some ((case map_of [] k of None \<Rightarrow> [] | Some xs \<Rightarrow> xs)
                             @ cardsWithIdList cards (JStr k)))"
    by blast
  have "map_of acc k = (if cardsWithIdList cards (JStr k) = [] then None
                        else Some (cardsWithIdList cards (JStr k)))" for k
    using m[of k] by simp
  with a show ?thesis by blast
qed

lemma attachCards_groups:
  assumes acc: "\<forall>k. map_of acc k = (if cardsWithIdList cards (JStr k) = [] then None
                                      else Some (cardsWithIdList cards (JStr k)))"
      and l: "l = JObj kvs" and k: "get l ''id'' = JStr k" and np: "k \<notin> set objectPrototypeKeys"
  shows "attachCards acc l
           = Inr (JObj (AList.update ''cards'' (JArr (cardsWithIdList cards (get l ''id''))) kvs))"
  using acc[rule_format, of k] l k np
  by (auto simp: attachCards_def orElse_def Let_def)

lemma mapE_map: "(\<And>x. x \<in> set xs \<Longrightarrow> f x = Inr (g x)) \<Longrightarrow> mapE f xs = Inr (map g xs)"
  by (induction xs) auto

lemma mapE_map_fields:
  "mapE f xs = Inr ys \<Longrightarrow> (\<And>x y. f x = Inr y \<Longrightarrow> g y = h x) \<Longrightarrow> map g ys = map h xs"
  by (induction xs arbitrary: ys) (auto split: sum.splits)

lemma stitch_groups:
  assumes board: "boardData = JObj kvs"
    and cards: "get boardData ''cards'' = JArr cards"
    and lists: "get boardData ''lists'' = JArr ls"
    and listIds: "\<forall>l\<in>set ls. \<exists>k. get l ''id'' = JStr k \<and> k \<notin> set objectPrototypeKeys"
    and cardIds: "\<forall>c\<in>set cards. \<not> nullish c \<and> truthy (get c ''idList'')
                    \<longrightarrow> (\<exists>k. get c ''idList'' = JStr k \<and> k \<notin> set objectPrototypeKeys)"
  shows "stitch boardData
           = Inr (JObj (AList.update ''lists''
                   (JArr (map (\<lambda>l. JObj (AList.update ''cards''
                                            (JArr (cardsWithIdList cards (get l ''id''))) (spread l)))
                              ls)) kvs))"
proof -
  from cardsByList_start[OF cardIds] obtain acc where
    a: "cardsByList cards [] = Inr acc" and
    m: "\<forall>k. map_of acc k = (if cardsWithIdList cards (JStr k) = [] then None
                                   else Some (cardsWithIdList cards (JStr k)))"
    by blast
  have "attachCards acc l
          = Inr (JObj (AList.update ''cards'' (JArr (cardsWithIdList cards (get l ''id''))) (spread l)))"
    if "l \<in> set ls" for l
  proof -
    from listIds that obtain k where k: "get l ''id'' = JStr k" and np: "k \<notin> set objectPrototypeKeys"
      by blast
    from get_JStr_obj[OF k] obtain lkvs where o: "l = JObj lkvs" by blast
    from attachCards_groups[OF m o k np] o show ?thesis by simp
  qed
  then have "mapE (attachCards acc) ls
          = Inr (map (\<lambda>l. JObj (AList.update ''cards''
                                   (JArr (cardsWithIdList cards (get l ''id''))) (spread l))) ls)"
    by (rule mapE_map)
  with a board cards lists show ?thesis
    by (simp add: stitch_def)
qed

lemma cleanList_attached:
  assumes k: "get l ''id'' = JStr k"
      and ok: "mapE (\<lambda>c. cleanCard c memberMap labelMap) cs = Inr cleaned"
  shows "cleanList (JObj (AList.update ''cards'' (JArr cs) (spread l))) memberMap labelMap
           = Inr \<lparr>list_id = get l ''id'',
                  list_name = orElse (get l ''name'') (JStr []),
                  list_closed = orElse (get l ''closed'') (JBool False),
                  list_cards = Some cleaned\<rparr>"
proof -
  from get_JStr_obj[OF k] obtain kvs where o: "l = JObj kvs" by blast
  show ?thesis using ok
    by (simp add: o cleanList_def update_conv')
qed


lemma get_update_other:
  "p \<noteq> q \<Longrightarrow> get (JObj (AList.update q v kvs)) p = get (JObj kvs) p"
  by (simp add: update_conv')

lemma get_update_same: "get (JObj (AList.update q v kvs)) q = v"
  by (simp add: update_conv')

lemma cleanBoard_stitched:
  assumes mm: "buildMemberMap (JObj kvs) = Inr memberMap"
      and lm: "buildLabelMap (JObj kvs) = Inr labelMap"
      and ls: "mapE (\<lambda>l. cleanList l (Some memberMap) (Some labelMap)) stitched = Inr cleanedLists"
  shows "\<exists>board. cleanBoard (JObj (AList.update ''lists'' (JArr stitched) kvs)) = Inr board
           \<and> board_lists board = Some cleanedLists"
proof -
  let ?b = "JObj (AList.update ''lists'' (JArr stitched) kvs)"
  have m: "get ?b ''members'' = get (JObj kvs) ''members''" by (rule get_update_other) simp
  have l: "get ?b ''labels'' = get (JObj kvs) ''labels''" by (rule get_update_other) simp
  have mm': "buildMemberMap ?b = Inr memberMap"
    using mm unfolding buildMemberMap_def m by simp
  have lm': "buildLabelMap ?b = Inr labelMap"
    using lm unfolding buildLabelMap_def l by simp
  have g: "get ?b ''lists'' = JArr stitched" by (rule get_update_same)
  show ?thesis
    unfolding cleanBoard_def mm' lm' g using ls by (simp add: Let_def)
qed


subsection \<open>Cards under their lists\<close>

text \<open>
  Claim C7. Let the body of the board fetch be an object with a flat \<open>cards\<close> array and a
  flat \<open>lists\<close> array, where the id of every list and the \<open>idList\<close> of every card that
  has one are strings, as the identifiers the upstream issues are, and none of them is the
  name of a property every object inherits; let the cards that have an \<open>idList\<close> be safe
  for the normalizer and the member and label maps of the board be built. Then the snapshot
  succeeds, and the cleaned board has one cleaned list for each list of the payload, in
  order, whose \<open>cards\<close> are the cleaned cards of exactly the cards whose \<open>idList\<close> equals
  the id of that list, in the order of the flat array. Two lists with different ids share
  no card, and a card that is \<open>null\<close> or has no \<open>idList\<close> is under no list.
\<close>

theorem cards_are_attached_to_their_lists:
  assumes board: "boardData = JObj kvs"
    and flat: "get boardData ''cards'' = JArr cards \<and> get boardData ''lists'' = JArr ls"
    and listIds: "\<forall>l\<in>set ls. \<exists>k. get l ''id'' = JStr k \<and> k \<notin> set objectPrototypeKeys"
    and cardIds: "\<forall>c\<in>set cards. \<not> nullish c \<and> truthy (get c ''idList'')
                    \<longrightarrow> (\<exists>k. get c ''idList'' = JStr k \<and> k \<notin> set objectPrototypeKeys)
                         \<and> safeCard c"
    and maps: "buildMemberMap boardData = Inr memberMap \<and> buildLabelMap boardData = Inr labelMap"
  shows "\<exists>board cleanedLists.
           get_board_snapshot boardData = Inr board
         \<and> board_lists board = Some cleanedLists
         \<and> length cleanedLists = length ls
         \<and> (\<forall>i<length ls.
              list_id (cleanedLists ! i) = get (ls ! i) ''id''
            \<and> (\<exists>cs. list_cards (cleanedLists ! i) = Some cs
                  \<and> mapE (\<lambda>c. cleanCard c (Some memberMap) (Some labelMap))
                         (cardsWithIdList cards (get (ls ! i) ''id'')) = Inr cs
                  \<and> map card_id cs
                      = map (\<lambda>c. get c ''id'') (cardsWithIdList cards (get (ls ! i) ''id''))))
         \<and> (\<forall>i<length ls. \<forall>j<length ls. get (ls ! i) ''id'' \<noteq> get (ls ! j) ''id'' \<longrightarrow>
               set (cardsWithIdList cards (get (ls ! i) ''id''))
                 \<inter> set (cardsWithIdList cards (get (ls ! j) ''id'')) = {})
         \<and> (\<forall>c\<in>set cards. nullish c \<or> \<not> truthy (get c ''idList'') \<longrightarrow>
               (\<forall>l\<in>set ls. c \<notin> set (cardsWithIdList cards (get l ''id''))))"
proof -
  let ?attach = "\<lambda>l. JObj (AList.update ''cards''
                            (JArr (cardsWithIdList cards (get l ''id''))) (spread l))"
  let ?clean = "\<lambda>c. cleanCard c (Some memberMap) (Some labelMap)"
  let ?cleanList = "\<lambda>l. cleanList l (Some memberMap) (Some labelMap)"
  have cardIds': "\<forall>c\<in>set cards. \<not> nullish c \<and> truthy (get c ''idList'')
                    \<longrightarrow> (\<exists>k. get c ''idList'' = JStr k \<and> k \<notin> set objectPrototypeKeys)"
    using cardIds by blast
  have st: "stitch boardData = Inr (JObj (AList.update ''lists'' (JArr (map ?attach ls)) kvs))"
    using stitch_groups[OF board _ _ listIds cardIds'] flat by blast
  have cardsOk: "\<exists>cs. mapE ?clean (cardsWithIdList cards x) = Inr cs" for x
  proof -
    have "list_all safeCard (cardsWithIdList cards x)"
      using cardIds by (auto simp: cardsWithIdList_def list_all_iff)
    then show ?thesis by (simp only: cleanCards_ok)
  qed
  have listOk: "\<exists>cs. mapE ?clean (cardsWithIdList cards (get l ''id'')) = Inr cs
                  \<and> ?cleanList (?attach l)
                      = Inr \<lparr>list_id = get l ''id'',
                             list_name = orElse (get l ''name'') (JStr []),
                             list_closed = orElse (get l ''closed'') (JBool False),
                             list_cards = Some cs\<rparr>"
    if "l \<in> set ls" for l
  proof -
    from listIds that obtain k where k: "get l ''id'' = JStr k" by blast
    from cardsOk[of "get l ''id''"] obtain cs where
      cs: "mapE ?clean (cardsWithIdList cards (get l ''id'')) = Inr cs" by blast
    from cleanList_attached[OF k cs] cs show ?thesis by blast
  qed
  have "\<forall>x\<in>set (map ?attach ls). \<exists>y. ?cleanList x = Inr y"
    using listOk by auto
  then obtain cleanedLists where cl: "mapE ?cleanList (map ?attach ls) = Inr cleanedLists"
    unfolding mapE_Inr_iff[symmetric] by blast
  from maps board have mm: "buildMemberMap (JObj kvs) = Inr memberMap"
    and lm: "buildLabelMap (JObj kvs) = Inr labelMap" by simp_all
  from cleanBoard_stitched[OF mm lm cl] obtain b where
    b: "cleanBoard (JObj (AList.update ''lists'' (JArr (map ?attach ls)) kvs)) = Inr b"
    and bl: "board_lists b = Some cleanedLists" by blast
  have snap: "get_board_snapshot boardData = Inr b"
    using st b by (simp add: get_board_snapshot_def)
  have len: "length cleanedLists = length ls"
    using mapE_Inr_length[OF cl] by simp
  have each: "list_id (cleanedLists ! i) = get (ls ! i) ''id''
            \<and> (\<exists>cs. list_cards (cleanedLists ! i) = Some cs
                  \<and> mapE ?clean (cardsWithIdList cards (get (ls ! i) ''id'')) = Inr cs
                  \<and> map card_id cs
                      = map (\<lambda>c. get c ''id'') (cardsWithIdList cards (get (ls ! i) ''id'')))"
    if i: "i < length ls" for i
  proof -
    from i have "?cleanList (map ?attach ls ! i) = Inr (cleanedLists ! i)"
      using mapE_Inr_nth[OF cl, of i] by simp
    with i have c: "?cleanList (?attach (ls ! i)) = Inr (cleanedLists ! i)" by simp
    from i have "ls ! i \<in> set ls" by simp
    from listOk[OF this] obtain cs where
      cs: "mapE ?clean (cardsWithIdList cards (get (ls ! i) ''id'')) = Inr cs" and
      r: "?cleanList (?attach (ls ! i))
            = Inr \<lparr>list_id = get (ls ! i) ''id'',
                   list_name = orElse (get (ls ! i) ''name'') (JStr []),
                   list_closed = orElse (get (ls ! i) ''closed'') (JBool False),
                   list_cards = Some cs\<rparr>"
      by blast
    from c r have e: "cleanedLists ! i
            = \<lparr>list_id = get (ls ! i) ''id'',
               list_name = orElse (get (ls ! i) ''name'') (JStr []),
               list_closed = orElse (get (ls ! i) ''closed'') (JBool False),
               list_cards = Some cs\<rparr>" by simp
    have ids: "map card_id cs = map (\<lambda>c. get c ''id'') (cardsWithIdList cards (get (ls ! i) ''id''))"
      using cs by (rule mapE_map_fields) (simp add: cleanCard_fields)
    from e cs ids show ?thesis by simp
  qed
  have disj: "set (cardsWithIdList cards x) \<inter> set (cardsWithIdList cards y) = {}"
    if "x \<noteq> y" for x y
    using that by (auto simp: cardsWithIdList_def)
  have orphan: "\<forall>c\<in>set cards. nullish c \<or> \<not> truthy (get c ''idList'') \<longrightarrow>
               (\<forall>l\<in>set ls. c \<notin> set (cardsWithIdList cards (get l ''id'')))"
    by (auto simp: cardsWithIdList_def)
  from snap bl len each disj orphan show ?thesis by blast
qed


text \<open>
  The theorem at a board with two lists and five entries in \<open>cards\<close>, one of them \<open>null\<close>
  and one without \<open>idList\<close>: the first list gets the card \<open>c3\<close>, the second the cards
  \<open>c1\<close> and \<open>c4\<close>.
\<close>

theorem cards_are_attached_to_their_lists_witness:
  "\<exists>board cleanedLists.
      get_board_snapshot
        (JObj [(''id'', JStr ''b1''), (''name'', JStr ''Roadmap''),
               (''lists'', JArr [JObj [(''id'', JStr ''l1''), (''name'', JStr ''To Do'')],
                                 JObj [(''id'', JStr ''l2''), (''name'', JStr ''Done'')]]),
               (''cards'', JArr [JObj [(''id'', JStr ''c1''), (''idList'', JStr ''l2'')],
                                 JObj [(''id'', JStr ''c2'')],
                                 JNull,
                                 JObj [(''id'', JStr ''c3''), (''idList'', JStr ''l1'')],
                                 JObj [(''id'', JStr ''c4''), (''idList'', JStr ''l2'')]])]) = Inr board
    \<and> board_lists board = Some cleanedLists
    \<and> length cleanedLists = 2
    \<and> list_id (cleanedLists ! 0) = JStr ''l1''
    \<and> (\<exists>cs. list_cards (cleanedLists ! 0) = Some cs \<and> map card_id cs = [JStr ''c3''])
    \<and> list_id (cleanedLists ! 1) = JStr ''l2''
    \<and> (\<exists>cs. list_cards (cleanedLists ! 1) = Some cs
          \<and> map card_id cs = [JStr ''c1'', JStr ''c4''])"
proof -
  let ?ls = "[JObj [(''id'', JStr ''l1''), (''name'', JStr ''To Do'')],
              JObj [(''id'', JStr ''l2''), (''name'', JStr ''Done'')]]"
  let ?cards = "[JObj [(''id'', JStr ''c1''), (''idList'', JStr ''l2'')],
                 JObj [(''id'', JStr ''c2'')],
                 JNull,
                 JObj [(''id'', JStr ''c3''), (''idList'', JStr ''l1'')],
                 JObj [(''id'', JStr ''c4''), (''idList'', JStr ''l2'')]]"
  let ?W = "JObj [(''id'', JStr ''b1''), (''name'', JStr ''Roadmap''),
                  (''lists'', JArr ?ls), (''cards'', JArr ?cards)]"
  have flat: "get ?W ''cards'' = JArr ?cards \<and> get ?W ''lists'' = JArr ?ls" by simp
  have listIds: "\<forall>l\<in>set ?ls. \<exists>k. get l ''id'' = JStr k \<and> k \<notin> set objectPrototypeKeys"
    by (simp add: objectPrototypeKeys_def)
  have cardIds: "\<forall>c\<in>set ?cards. \<not> nullish c \<and> truthy (get c ''idList'')
                    \<longrightarrow> (\<exists>k. get c ''idList'' = JStr k \<and> k \<notin> set objectPrototypeKeys)
                         \<and> safeCard c"
    by (simp add: objectPrototypeKeys_def safeCard_def safeChecklists_def)
  have maps: "buildMemberMap ?W = Inr [] \<and> buildLabelMap ?W = Inr []"
    by (simp add: buildMemberMap_def buildLabelMap_def)
  from cards_are_attached_to_their_lists[OF refl flat listIds cardIds maps]
  obtain board cl where s: "get_board_snapshot ?W = Inr board"
    and bl: "board_lists board = Some cl"
    and len: "length cl = length ?ls"
    and each: "\<forall>i<length ?ls.
              list_id (cl ! i) = get (?ls ! i) ''id''
            \<and> (\<exists>cs. list_cards (cl ! i) = Some cs
                  \<and> mapE (\<lambda>c. cleanCard c (Some []) (Some []))
                         (cardsWithIdList ?cards (get (?ls ! i) ''id'')) = Inr cs
                  \<and> map card_id cs
                      = map (\<lambda>c. get c ''id'') (cardsWithIdList ?cards (get (?ls ! i) ''id'')))"
    by (elim exE conjE) (rule that; assumption)
  have g0: "cardsWithIdList ?cards (JStr ''l1'') = [JObj [(''id'', JStr ''c3''), (''idList'', JStr ''l1'')]]"
    by (simp add: cardsWithIdList_def)
  have g1: "cardsWithIdList ?cards (JStr ''l2'')
             = [JObj [(''id'', JStr ''c1''), (''idList'', JStr ''l2'')],
                JObj [(''id'', JStr ''c4''), (''idList'', JStr ''l2'')]]"
    by (simp add: cardsWithIdList_def)
  have each': "list_id (cl ! i) = get (?ls ! i) ''id''
            \<and> (\<exists>cs. list_cards (cl ! i) = Some cs
                  \<and> map card_id cs
                      = map (\<lambda>c. get c ''id'') (cardsWithIdList ?cards (get (?ls ! i) ''id'')))"
    if "i < length ?ls" for i
    using each[rule_format, OF that] by (elim conjE exE) (intro conjI exI, assumption+)
  from each'[of 0] g0 have e0: "list_id (cl ! 0) = JStr ''l1''
      \<and> (\<exists>cs. list_cards (cl ! 0) = Some cs \<and> map card_id cs = [JStr ''c3''])"
    by simp
  from each'[of 1] g1 have e1: "list_id (cl ! 1) = JStr ''l2''
      \<and> (\<exists>cs. list_cards (cl ! 1) = Some cs \<and> map card_id cs = [JStr ''c1'', JStr ''c4''])"
    by simp
  from len have len2: "length cl = 2" by simp
  note e0a = e0[THEN conjunct1] and e0b = e0[THEN conjunct2]
    and e1a = e1[THEN conjunct1] and e1b = e1[THEN conjunct2]
  show ?thesis
    by (rule exI[of _ board], rule exI[of _ cl]) (intro conjI s bl len2 e0a e0b e1a e1b)
qed


end
